(* ===== verification/Gateway_Prelude.thy ===== *)
theory Gateway_Prelude
  imports Complex_Main "HOL-Library.AList" "HOL-Library.Char_ord" "HOL-Library.List_Lexorder"
begin

text \<open>
  Shared vocabulary of the development: the exceptions the gateway's Python code raises, the
  result type of code that may raise, Python dictionaries as insertion-ordered association
  lists, and database tables as lists of rows.  The component theories work with the lemmas
  collected here rather than with the underlying library constants.
\<close>

section \<open>Collections of facts\<close>

named_theorems handler_defs \<open>definitions of request handlers, services and tasks\<close>
named_theorems row_simps \<open>facts about reading and writing table rows\<close>

section \<open>Exceptions and results\<close>

text \<open>
  One constructor per exception class that the modelled code raises or catches.  The argument,
  where there is one, is the message, i.e.\ what \<open>str(exc)\<close> returns.
\<close>

datatype exn =
    InvalidPayload string
  | SignatureError string
  | IntegrityError
  | ValueError string
  | TypeError string
  | KeyError string
  | OverflowError string
  | NormalizationError string
  | RetryableNormalizationError string
  | AlreadyDecided string
  | PageError string
  | DiscoveryError string
  | ValidationError string
  | DataError string
  | OtherException string

fun exn_str :: "exn \<Rightarrow> string" where
  "exn_str (InvalidPayload m) = m"
| "exn_str (SignatureError m) = m"
| "exn_str IntegrityError = ''duplicate key value violates unique constraint''"
| "exn_str (ValueError m) = m"
| "exn_str (TypeError m) = m"
| "exn_str (KeyError m) = m"
| "exn_str (DataError m) = m"
| "exn_str (OverflowError m) = m"
| "exn_str (NormalizationError m) = m"
| "exn_str (RetryableNormalizationError m) = m"
| "exn_str (AlreadyDecided m) = m"
| "exn_str (PageError m) = m"
| "exn_str (DiscoveryError m) = m"
| "exn_str (ValidationError m) = m"
| "exn_str (OtherException m) = m"

type_synonym 'a result = "exn + 'a"

text \<open>Sequencing: the first exception wins, as it does when it propagates out of a block.\<close>

primrec and_then :: "'a result \<Rightarrow> ('a \<Rightarrow> 'b result) \<Rightarrow> 'b result" where
  "and_then (Inl e) f = Inl e"
| "and_then (Inr x) f = f x"

lemma and_then_Inr_iff [simp]:
  "and_then r f = Inr y \<longleftrightarrow> (\<exists>x. r = Inr x \<and> f x = Inr y)"
  by (cases r) auto

lemma and_then_Inl_iff:
  "and_then r f = Inl e \<longleftrightarrow> r = Inl e \<or> (\<exists>x. r = Inr x \<and> f x = Inl e)"
  by (cases r) auto

text \<open>Inverting a sequence of checks: what held if it returned normally.\<close>

lemma and_then_InrE:
  assumes "and_then r f = Inr y" obtains x where "r = Inr x" "f x = Inr y"
  using assms by (cases r) auto

lemma if_Inl_InrE:
  assumes "(if b then Inl e else x) = Inr y" obtains "\<not> b" "x = Inr y"
  using assms by (cases b) auto

lemma none_Inl_InrE:
  assumes "(case m of None \<Rightarrow> Inl e | Some x \<Rightarrow> f x) = Inr y" obtains x where "m = Some x" "f x = Inr y"
  using assms by (cases m) auto

lemmas checks_InrE = and_then_InrE if_Inl_InrE none_Inl_InrE

definition require :: "bool \<Rightarrow> exn \<Rightarrow> unit result" where
  "require b e = (if b then Inr () else Inl e)"

lemma require_Inr [simp]: "require b e = Inr u \<longleftrightarrow> b"
  by (simp add: require_def)

lemma require_Inl: "require b e = Inl e' \<longleftrightarrow> \<not> b \<and> e' = e"
  by (auto simp: require_def)

section \<open>Python dictionaries\<close>

text \<open>
  A Python dict remembers the order in which its keys were first inserted, and assigning to a
  key that is present keeps its position.  \<^const>\<open>AList.update\<close> does exactly this on an
  association list with distinct keys.
\<close>

type_synonym ('k, 'v) dict = "('k \<times> 'v) list"

abbreviation dict_keys :: "('k, 'v) dict \<Rightarrow> 'k list" where
  "dict_keys d \<equiv> map fst d"

abbreviation dict_get :: "('k, 'v) dict \<Rightarrow> 'k \<Rightarrow> 'v option" where
  "dict_get d k \<equiv> map_of d k"

abbreviation dict_set :: "'k \<Rightarrow> 'v \<Rightarrow> ('k, 'v) dict \<Rightarrow> ('k, 'v) dict" where
  "dict_set k v d \<equiv> AList.update k v d"

definition dict_wf :: "('k, 'v) dict \<Rightarrow> bool" where
  "dict_wf d \<longleftrightarrow> distinct (dict_keys d)"

definition dict_setdefault :: "'k \<Rightarrow> 'v \<Rightarrow> ('k, 'v) dict \<Rightarrow> ('k, 'v) dict" where
  "dict_setdefault k v d = (if dict_get d k = None then d @ [(k, v)] else d)"

definition dict_update :: "('k, 'v) dict \<Rightarrow> ('k, 'v) dict \<Rightarrow> ('k, 'v) dict" where
  "dict_update d e = fold (\<lambda>(k, v) acc. dict_set k v acc) e d"

lemma dict_get_set [simp]: "dict_get (dict_set k v d) = (dict_get d)(k \<mapsto> v)"
  by (rule update_conv')

lemma dict_wf_Nil [simp, intro]: "dict_wf []"
  by (simp add: dict_wf_def)

lemma dict_wf_set [simp, intro]: "dict_wf d \<Longrightarrow> dict_wf (dict_set k v d)"
  by (simp add: dict_wf_def distinct_update)

lemma dict_wf_setdefault [simp, intro]: "dict_wf d \<Longrightarrow> dict_wf (dict_setdefault k v d)"
  by (auto simp: dict_wf_def dict_setdefault_def map_of_eq_None_iff)

lemma dict_wf_update [simp, intro]: "dict_wf d \<Longrightarrow> dict_wf (dict_update d e)"
  unfolding dict_update_def
  by (induction e arbitrary: d) (auto split: prod.split)

lemma dict_get_setdefault:
  "dict_get (dict_setdefault k v d) k' =
     (if k' = k \<and> dict_get d k = None then Some v else dict_get d k')"
  by (auto simp: dict_setdefault_def map_add_def split: option.split)

lemma dict_get_update: "dict_wf e \<Longrightarrow> dict_get (dict_update d e) k =
    (case dict_get e k of None \<Rightarrow> dict_get d k | Some v \<Rightarrow> Some v)"
  unfolding dict_update_def
proof (induction e arbitrary: d)
  case (Cons p e)
  obtain k' v' where p: "p = (k', v')" by (cases p)
  with Cons.prems have wf: "dict_wf e" and k': "k' \<notin> set (dict_keys e)"
    by (auto simp: dict_wf_def)
  then have "dict_get e k' = None" by (simp add: map_of_eq_None_iff)
  then show ?case
    using Cons.IH [OF wf, of "dict_set k' v' d"] by (simp add: p split: option.split)
qed simp

lemma dict_keys_set: "set (dict_keys (dict_set k v d)) = insert k (set (dict_keys d))"
  by (auto simp: update_keys)

section \<open>Tables\<close>

text \<open>
  A table is the list of its rows in insertion order.  \<open>objects.filter(P).first()\<close> is the
  first row satisfying \<open>P\<close>; \<open>save()\<close> on a row rewrites the row with the same key.
\<close>

definition first_row :: "('r \<Rightarrow> bool) \<Rightarrow> 'r list \<Rightarrow> 'r option" where
  "first_row P rows = find P rows"

definition save_row :: "('r \<Rightarrow> 'k) \<Rightarrow> 'r \<Rightarrow> 'r list \<Rightarrow> 'r list" where
  "save_row key r rows = map (\<lambda>r'. if key r' = key r then r else r') rows"

lemma first_row_Some:
  "first_row P rows = Some r \<Longrightarrow> r \<in> set rows \<and> P r"
  by (auto simp: first_row_def find_Some_iff)

lemma first_row_None: "first_row P rows = None \<longleftrightarrow> (\<forall>r \<in> set rows. \<not> P r)"
  by (auto simp: first_row_def find_None_iff)

lemma first_row_obtain:
  assumes "r \<in> set rows" "P r"
  obtains r' where "first_row P rows = Some r'" "r' \<in> set rows" "P r'"
  using assms by (cases "first_row P rows") (auto simp: first_row_None dest: first_row_Some)

lemma first_row_absent: "(\<And>r. r \<in> set rows \<Longrightarrow> \<not> P r) \<Longrightarrow> first_row P rows = None"
  by (simp add: first_row_None)

lemma first_row_unique:
  assumes "distinct (map key rows)" "r \<in> set rows" "P r"
    and "\<And>r'. r' \<in> set rows \<Longrightarrow> P r' \<Longrightarrow> key r' = key r"
  shows "first_row P rows = Some r"
proof -
  obtain r' where r': "first_row P rows = Some r'" "r' \<in> set rows" "P r'"
    using assms(2,3) by (rule first_row_obtain)
  then have "key r' = key r" by (intro assms(4))
  then have "r' = r" using assms(1,2) r'(2) by (auto simp: distinct_map inj_on_def)
  then show ?thesis using r' by simp
qed

lemma save_row_keys [simp]: "map key (save_row key r rows) = map key rows"
  by (simp add: save_row_def)

lemma length_save_row [simp]: "length (save_row key r rows) = length rows"
  by (simp add: save_row_def)

lemma in_save_row:
  "x \<in> set (save_row key r rows) \<longleftrightarrow>
     (x \<in> set rows \<and> key x \<noteq> key r) \<or> (x = r \<and> (\<exists>r' \<in> set rows. key r' = key r))"
  by (auto simp: save_row_def)

lemma map_save_row:
  "(\<And>r'. r' \<in> set rows \<Longrightarrow> key r' = key r \<Longrightarrow> f r = f r') \<Longrightarrow>
   map f (save_row key r rows) = map f rows"
  by (auto simp: save_row_def)

lemma first_row_key_save [row_simps]:
  "first_row (\<lambda>x. key x = k) (save_row key r rows) =
     (if key r = k then (if k \<in> key ` set rows then Some r else None)
      else first_row (\<lambda>x. key x = k) rows)"
  unfolding first_row_def save_row_def
  by (induction rows) auto

lemma first_row_key_append [row_simps]:
  "first_row (\<lambda>x. key x = k) (rows @ [r]) =
     (if k \<in> key ` set rows then first_row (\<lambda>x. key x = k) rows
      else if key r = k then Some r else None)"
  unfolding first_row_def
  by (induction rows) auto

lemma find_cong_set: "(\<And>x. x \<in> set xs \<Longrightarrow> P x = Q x) \<Longrightarrow> find P xs = find Q xs"
  by (induction xs) auto

text \<open>\<open>save(update_fields=\<dots>)\<close>: assign some columns of the row with the given key.\<close>

definition update_row :: "('r \<Rightarrow> 'k) \<Rightarrow> 'k \<Rightarrow> ('r \<Rightarrow> 'r) \<Rightarrow> 'r list \<Rightarrow> 'r list" where
  "update_row key k f rows = map (\<lambda>r. if key r = k then f r else r) rows"

lemma update_row_columns [row_simps]:
  "(\<And>r. c (f r) = c r) \<Longrightarrow> map c (update_row key k f rows) = map c rows"
  by (simp add: update_row_def)

lemma length_update_row [simp]: "length (update_row key k f rows) = length rows"
  by (simp add: update_row_def)

lemma first_row_update:
  "(\<And>r. key (f r) = key r) \<Longrightarrow>
     first_row (\<lambda>r. key r = k') (update_row key k f rows) =
       (if k' = k then map_option f (first_row (\<lambda>r. key r = k) rows)
        else first_row (\<lambda>r. key r = k') rows)"
  unfolding first_row_def update_row_def by (induction rows) auto

lemma in_update_row:
  "r \<in> set (update_row key k f rows) \<longleftrightarrow>
     (\<exists>r' \<in> set rows. r = (if key r' = k then f r' else r'))"
  unfolding update_row_def set_map by blast

lemma updated_row:
  assumes "r \<in> set (update_row key k f rows)" "key r = k" "\<And>r. key (f r) = key r"
  shows "\<exists>r' \<in> set rows. key r' = k \<and> r = f r'"
  using assms by (metis in_update_row)

text \<open>A primary key that no row has: the next value of the sequence.\<close>

definition fresh_key :: "nat list \<Rightarrow> nat" where
  "fresh_key ks = Suc (fold max ks 0)"

lemma fold_max_ge: "k \<in> set ks \<or> k = a \<Longrightarrow> k \<le> fold max ks (a :: nat)"
proof (induction ks arbitrary: a)
  case (Cons x ks)
  have "max x a \<le> fold max ks (max x a)" using Cons.IH [of "max x a"]
    by (metis (mono_tags) List.fold_simps(1) Max.set_eq_fold Max_ge finite_set list.set_intros(1))
  then show ?case using Cons by auto
qed simp

lemma fresh_key_notin [simp]: "fresh_key ks \<notin> set ks"
  using fold_max_ge [of _ ks 0] by (fastforce simp: fresh_key_def)

text \<open>A list of requests served one after the other; the first exception stops the run.\<close>

fun run_all :: "('q \<Rightarrow> 'db \<Rightarrow> ('a \<times> 'db) result) \<Rightarrow> 'q list \<Rightarrow> 'db \<Rightarrow> ('a list \<times> 'db) result" where
  "run_all step [] db = Inr ([], db)"
| "run_all step (q # qs) db =
     and_then (step q db) (\<lambda>(a, db'). and_then (run_all step qs db') (\<lambda>(rest, db''). Inr (a # rest, db'')))"

lemma run_all_snoc:
  "run_all step (qs @ [q]) db =
     and_then (run_all step qs db) (\<lambda>(out, db'). and_then (step q db') (\<lambda>(a, db''). Inr (out @ [a], db'')))"
proof (induction qs arbitrary: db)
  case Nil
  show ?case by (cases "step q db") auto
next
  case (Cons p qs)
  show ?case
  proof (cases "step p db")
    case (Inr r)
    obtain a db' where r: "r = (a, db')" by (cases r)
    show ?thesis
    proof (cases "run_all step qs db'")
      case (Inr s)
      then show ?thesis using \<open>step p db = Inr r\<close> r
        by (cases s; cases "step q (snd s)") (auto simp: Cons.IH)
    qed (simp add: Cons.IH \<open>step p db = Inr r\<close> r)
  qed simp
qed

lemma find_SomeD: "find P xs = Some x \<Longrightarrow> x \<in> set xs \<and> P x"
  by (auto simp: find_Some_iff)

section \<open>Requests and responses\<close>

text \<open>
  A response is its HTTP status with either a one-line \<open>detail\<close> or the serialised answer.
  Query parameters are Django's \<open>QueryDict\<close>: \<open>get\<close> returns the last value given for a name.
\<close>

datatype 'a body = Detail string | Body 'a

type_synonym 'a response = "nat \<times> 'a body"

type_synonym query_params = "(string \<times> string) list"

definition query_get :: "query_params \<Rightarrow> string \<Rightarrow> string option" where
  "query_get params name = map_of (rev params) name"

section \<open>Small list facts\<close>

lemma length_take_le [simp]: "length (take n xs) \<le> n"
  by simp

lemma one_row_with_key:
  "distinct (map key rows) \<Longrightarrow> k \<in> key ` set rows \<Longrightarrow> length (filter (\<lambda>r. key r = k) rows) = 1"
proof (induction rows)
  case (Cons r rows)
  show ?case
  proof (cases "key r = k")
    case True
    then have "filter (\<lambda>r. key r = k) rows = []"
      using Cons.prems(1) by (simp add: filter_empty_conv) (metis imageI)
    then show ?thesis using True by simp
  next
    case False
    then show ?thesis using Cons by auto
  qed
qed simp

lemma upt_0_Suc: "[0..<Suc n] = 0 # map Suc [0..<n]"
  by (simp add: map_Suc_upt upt_conv_Cons del: upt_Suc)

lemma map_threshold_upt:
  "map (\<lambda>i. if i < m then x else y) [0..<n] = replicate (min m n) x @ replicate (n - m) y"
  by (rule nth_equalityI) (simp_all add: nth_append)

lemma takeWhile_append_stop:
  "(\<And>x. x \<in> set xs \<Longrightarrow> P x) \<Longrightarrow> ys = [] \<or> \<not> P (hd ys) \<Longrightarrow>
     takeWhile P (xs @ ys) = xs \<and> dropWhile P (xs @ ys) = ys"
  by (cases ys) auto

lemma list_all2_map_eq:
  "list_all2 P xs ys \<Longrightarrow> (\<And>x y. x \<in> set xs \<Longrightarrow> P x y \<Longrightarrow> f x = f y) \<Longrightarrow> map f xs = map f ys"
  by (induction rule: list_all2_induct) auto

lemma set_dropWhile_subset: "set (dropWhile P xs) \<subseteq> set xs"
  by (auto dest: set_dropWhileD)

end
