(* ===== verification/Py_Json.thy ===== *)
theory Py_Json
  imports Py_Text "HOL-Library.Multiset"
begin

text \<open>
  The values \<open>json.loads\<close> produces, as Python sees them: truth value, \<open>str\<close>, \<open>float\<close>, and the
  canonical serialisation \<open>json.dumps(\<dots>, sort_keys=True, separators=(",", ":"),
  ensure_ascii=False)\<close>.

  A float is given by the decimal its \<open>repr\<close> shows: \<open>JFloat m e\<close> is \<open>m * 10 ^ e\<close>.  Arithmetic on
  floats is exact rational arithmetic; the places where the code rounds are written out.  The
  literals NaN and Infinity, which \<open>json.loads\<close> accepts, are values of their own.
\<close>

section \<open>Values\<close>

datatype json =
    JNull
  | JBool bool
  | JInt int
  | JFloat int int
  | JNaN
  | JInf bool  \<comment> \<open>positive?\<close>
  | JStr string
  | JArr "json list"
  | JObj "(string \<times> json) list"

fun is_object :: "json \<Rightarrow> bool" where
  "is_object (JObj _) = True"
| "is_object _ = False"

fun is_container :: "json \<Rightarrow> bool" where
  "is_container (JObj _) = True"
| "is_container (JArr _) = True"
| "is_container _ = False"

fun is_str :: "json \<Rightarrow> bool" where
  "is_str (JStr _) = True"
| "is_str _ = False"

text \<open>\<open>isinstance(v, (str, int))\<close>: a Python bool is an int.\<close>

fun is_str_or_int :: "json \<Rightarrow> bool" where
  "is_str_or_int (JStr _) = True"
| "is_str_or_int (JInt _) = True"
| "is_str_or_int (JBool _) = True"
| "is_str_or_int _ = False"

fun truthy :: "json \<Rightarrow> bool" where
  "truthy JNull = False"
| "truthy (JBool b) = b"
| "truthy (JInt i) = (i \<noteq> 0)"
| "truthy (JFloat m e) = (m \<noteq> 0)"
| "truthy JNaN = True"
| "truthy (JInf _) = True"
| "truthy (JStr s) = (s \<noteq> [])"
| "truthy (JArr xs) = (xs \<noteq> [])"
| "truthy (JObj kvs) = (kvs \<noteq> [])"

text \<open>\<open>value in (None, "")\<close>\<close>

definition none_or_empty :: "json \<Rightarrow> bool" where
  "none_or_empty v \<longleftrightarrow> v = JNull \<or> v = JStr []"

text \<open>\<open>payload.get(key)\<close> on a dict; JSON null and a missing key are both None.\<close>

fun obj_get :: "json \<Rightarrow> string \<Rightarrow> json" where
  "obj_get (JObj kvs) k = (case dict_get kvs k of None \<Rightarrow> JNull | Some v \<Rightarrow> v)"
| "obj_get _ k = JNull"

text \<open>Every object inside the value has distinct keys, as every Python dict has.\<close>

fun json_wf :: "json \<Rightarrow> bool" where
  "json_wf (JArr xs) = (\<forall>x \<in> set xs. json_wf x)"
| "json_wf (JObj kvs) = (distinct (map fst kvs) \<and> (\<forall>p \<in> set kvs. json_wf (snd p)))"
| "json_wf _ = True"

section \<open>Floats\<close>

datatype pyfloat = Fin rat | PInf | NInf | NaN

fun flt_less :: "pyfloat \<Rightarrow> pyfloat \<Rightarrow> bool" where
  "flt_less (Fin a) (Fin b) = (a < b)"
| "flt_less (Fin a) PInf = True"
| "flt_less NInf (Fin b) = True"
| "flt_less NInf PInf = True"
| "flt_less _ _ = False"

definition scale10 :: "rat \<Rightarrow> int \<Rightarrow> rat" where
  "scale10 r e = (if 0 \<le> e then r * 10 ^ nat e else r / 10 ^ nat (- e))"

text \<open>The least magnitude that no longer rounds to a finite double.\<close>

definition float_limit :: rat where
  "float_limit = 2 ^ 1024 - 2 ^ 970"

text \<open>\<open>round(x, 3)\<close> in thousandths: to nearest, ties to even.\<close>

definition round_half_even :: "rat \<Rightarrow> int" where
  "round_half_even x =
     (let f = \<lfloor>x\<rfloor>; d = x - of_int f in
      if d < 1 / 2 then f else if d > 1 / 2 then f + 1 else if even f then f else f + 1)"

definition round3 :: "rat \<Rightarrow> rat" where
  "round3 x = of_int (round_half_even (x * 1000)) / 1000"

lemma round_half_even_of_int [simp]: "round_half_even (of_int k) = k"
  by (simp add: round_half_even_def)

lemma round_half_even_near: "\<bar>of_int (round_half_even x) - x\<bar> \<le> 1 / 2"
proof -
  have "of_int \<lfloor>x\<rfloor> \<le> x" "x < of_int \<lfloor>x\<rfloor> + 1"
    using floor_correct [of x] by auto
  then show ?thesis by (auto simp: round_half_even_def Let_def abs_le_iff)
qed

lemma round3_thousandths [simp]: "round3 (of_int k / 1000) = of_int k / 1000"
  by (simp add: round3_def)

lemma round_half_even_mono_int: "of_int k \<le> x \<Longrightarrow> k \<le> round_half_even x"
proof -
  assume "of_int k \<le> x"
  then have "k \<le> \<lfloor>x\<rfloor>" by (simp add: le_floor_iff)
  then show "k \<le> round_half_even x" by (auto simp: round_half_even_def Let_def)
qed

lemma round_half_even_mono_int': "x \<le> of_int k \<Longrightarrow> round_half_even x \<le> k"
proof -
  assume x: "x \<le> of_int k"
  show "round_half_even x \<le> k"
  proof (cases "x = of_int k")
    case False
    with x have "\<lfloor>x\<rfloor> < k" by (simp add: floor_less_iff)
    then show ?thesis by (auto simp: round_half_even_def Let_def)
  qed simp
qed

text \<open>\<open>float(s)\<close> on a string; \<open>None\<close> is ValueError.\<close>

definition digit_part :: "string \<Rightarrow> string option" where
  "digit_part s = (if s = [] then Some [] else int_digits s)"

definition float_mantissa :: "string \<Rightarrow> rat option" where
  "float_mantissa s =
     (case split_once (CHR ''.'') s of
        None \<Rightarrow> map_option (\<lambda>d. of_nat (digits_val d)) (int_digits s)
      | Some (a, b) \<Rightarrow>
          if a = [] \<and> b = [] then None
          else (case (digit_part a, digit_part b) of
                  (Some da, Some db) \<Rightarrow>
                    Some (scale10 (of_nat (digits_val (da @ db))) (- int (length db)))
                | _ \<Rightarrow> None))"

definition float_exponent :: "string \<Rightarrow> int option" where
  "float_exponent s =
     (case s of
        [] \<Rightarrow> None
      | c # cs \<Rightarrow>
          if c = CHR ''-'' then map_option (\<lambda>d. - int (digits_val d)) (int_digits cs)
          else if c = CHR ''+'' then map_option (\<lambda>d. int (digits_val d)) (int_digits cs)
          else map_option (\<lambda>d. int (digits_val d)) (int_digits s))"

definition float_unsigned :: "string \<Rightarrow> pyfloat option" where
  "float_unsigned s =
     (if s = ''inf'' \<or> s = ''infinity'' then Some PInf
      else if s = ''nan'' then Some NaN
      else
        (let v = (case split_once (CHR ''e'') s of
                    None \<Rightarrow> float_mantissa s
                  | Some (a, b) \<Rightarrow>
                      (case (float_mantissa a, float_exponent b) of
                         (Some m, Some e) \<Rightarrow> Some (scale10 m e)
                       | _ \<Rightarrow> None))
         in case v of
              None \<Rightarrow> None
            | Some r \<Rightarrow> Some (if float_limit \<le> r then PInf else Fin r)))"

fun flt_neg :: "pyfloat \<Rightarrow> pyfloat" where
  "flt_neg (Fin r) = Fin (- r)"
| "flt_neg PInf = NInf"
| "flt_neg NInf = PInf"
| "flt_neg NaN = NaN"

definition py_float_of_str :: "string \<Rightarrow> pyfloat option" where
  "py_float_of_str raw =
     (let s = lower (strip raw) in
      case s of
        [] \<Rightarrow> None
      | c # cs \<Rightarrow>
          if c = CHR ''-'' then map_option flt_neg (float_unsigned cs)
          else if c = CHR ''+'' then float_unsigned cs
          else float_unsigned s)"

text \<open>\<open>float(v)\<close> on any JSON value.\<close>

fun py_float :: "json \<Rightarrow> pyfloat result" where
  "py_float (JBool b) = Inr (Fin (if b then 1 else 0))"
| "py_float (JInt i) =
     (if float_limit \<le> \<bar>of_int i\<bar> then Inl (OverflowError ''int too large to convert to float'')
      else Inr (Fin (of_int i)))"
| "py_float (JFloat m e) = Inr (Fin (scale10 (of_int m) e))"
| "py_float JNaN = Inr NaN"
| "py_float (JInf b) = Inr (if b then PInf else NInf)"
| "py_float (JStr s) =
     (case py_float_of_str s of
        None \<Rightarrow> Inl (ValueError ''could not convert string to float'')
      | Some f \<Rightarrow> Inr f)"
| "py_float _ = Inl (TypeError ''float() argument must be a string or a real number'')"

section \<open>str and repr\<close>

text \<open>
  \<open>repr\<close> of a float: fixed notation when the decimal point lies within 16 digits of the first
  significant digit and at most four places before it, otherwise scientific notation.
\<close>

definition strip_zeros :: "string \<Rightarrow> string" where
  "strip_zeros s = rev (dropWhile (\<lambda>c. c = CHR ''0'') (rev s))"

definition float_repr :: "int \<Rightarrow> int \<Rightarrow> string" where
  "float_repr m e =
     (if m = 0 then ''0.0'' else
      let all = nat_str (nat \<bar>m\<bar>);
          ds = strip_zeros all;
          n = int (length ds);
          p = int (length all) + e;
          sign = (if m < 0 then ''-'' else '''') in
      if -4 < p \<and> p \<le> 16 then
        sign @ (if p \<le> 0 then ''0.'' @ replicate (nat (- p)) (CHR ''0'') @ ds
                else if n \<le> p then ds @ replicate (nat (p - n)) (CHR ''0'') @ ''.0''
                else take (nat p) ds @ ''.'' @ drop (nat p) ds)
      else
        sign @ take 1 ds @ (if n = 1 then '''' else ''.'' @ drop 1 ds)
             @ ''e'' @ (if p - 1 < 0 then ''-'' else ''+'') @ pad 2 (nat \<bar>p - 1\<bar>))"

definition hex_digit :: "nat \<Rightarrow> char" where
  "hex_digit d = (if d < 10 then char_of (48 + d) else char_of (87 + d))"

definition hex2 :: "nat \<Rightarrow> string" where
  "hex2 n = [hex_digit (n div 16), hex_digit (n mod 16)]"

text \<open>\<open>repr\<close> of a string: single quotes unless it holds a single quote and no double quote.\<close>

definition printable :: "char \<Rightarrow> bool" where
  "printable c \<longleftrightarrow> \<not> (code c < 32 \<or> (127 \<le> code c \<and> code c \<le> 160) \<or> code c = 173)"

definition repr_char :: "char \<Rightarrow> char \<Rightarrow> string" where
  "repr_char q c =
     (if c = q \<or> c = CHR 0x5C then [CHR 0x5C, c]
      else if c = CHR 0x09 then [CHR 0x5C, CHR ''t'']
      else if c = CHR 0x0A then [CHR 0x5C, CHR ''n'']
      else if c = CHR 0x0D then [CHR 0x5C, CHR ''r'']
      else if printable c then [c]
      else [CHR 0x5C, CHR ''x''] @ hex2 (code c))"

definition str_repr :: "string \<Rightarrow> string" where
  "str_repr s =
     (let q = (if CHR 0x27 \<in> set s \<and> CHR 0x22 \<notin> set s then CHR 0x22 else CHR 0x27)
      in [q] @ concat (map (repr_char q) s) @ [q])"

primrec py_repr :: "json \<Rightarrow> string" where
  "py_repr JNull = ''None''"
| "py_repr (JBool b) = (if b then ''True'' else ''False'')"
| "py_repr (JInt i) = int_str i"
| "py_repr (JFloat m e) = float_repr m e"
| "py_repr JNaN = ''nan''"
| "py_repr (JInf b) = (if b then ''inf'' else ''-inf'')"
| "py_repr (JStr s) = str_repr s"
| "py_repr (JArr xs) = ''['' @ join '', '' (map py_repr xs) @ '']''"
| "py_repr (JObj kvs) =
     ''{'' @ join '', '' (map (\<lambda>(k, t). str_repr k @ '': '' @ t) (map (map_prod id py_repr) kvs))
     @ ''}''"

fun py_str :: "json \<Rightarrow> string" where
  "py_str (JStr s) = s"
| "py_str v = py_repr v"

section \<open>Canonical serialisation\<close>

definition json_escape :: "char \<Rightarrow> string" where
  "json_escape c =
     (if c = CHR 0x22 \<or> c = CHR 0x5C then [CHR 0x5C, c]
      else if c = CHR 0x0A then [CHR 0x5C, CHR ''n'']
      else if c = CHR 0x0D then [CHR 0x5C, CHR ''r'']
      else if c = CHR 0x09 then [CHR 0x5C, CHR ''t'']
      else if c = CHR 0x0C then [CHR 0x5C, CHR ''f'']
      else if c = CHR 0x08 then [CHR 0x5C, CHR ''b'']
      else if code c < 32 then [CHR 0x5C] @ ''u00'' @ hex2 (code c)
      else [c])"

definition json_string :: "string \<Rightarrow> string" where
  "json_string s = [CHR 0x22] @ concat (map json_escape s) @ [CHR 0x22]"

primrec json_text :: "json \<Rightarrow> string" where
  "json_text JNull = ''null''"
| "json_text (JBool b) = (if b then ''true'' else ''false'')"
| "json_text (JInt i) = int_str i"
| "json_text (JFloat m e) = float_repr m e"
| "json_text JNaN = ''NaN''"
| "json_text (JInf b) = (if b then ''Infinity'' else ''-Infinity'')"
| "json_text (JStr s) = json_string s"
| "json_text (JArr xs) = ''['' @ join '','' (map json_text xs) @ '']''"
| "json_text (JObj kvs) =
     ''{'' @ join '','' (map (\<lambda>(k, t). json_string k @ '':'' @ t) (map (map_prod id json_text) kvs))
     @ ''}''"

text \<open>\<open>sort_keys=True\<close>: every object is written with its keys in code point order.\<close>

primrec sort_keys :: "json \<Rightarrow> json" where
  "sort_keys JNull = JNull"
| "sort_keys (JBool b) = JBool b"
| "sort_keys (JInt i) = JInt i"
| "sort_keys (JFloat m e) = JFloat m e"
| "sort_keys JNaN = JNaN"
| "sort_keys (JInf b) = JInf b"
| "sort_keys (JStr s) = JStr s"
| "sort_keys (JArr xs) = JArr (map sort_keys xs)"
| "sort_keys (JObj kvs) = JObj (sort_key fst (map (map_prod id sort_keys) kvs))"

definition json_dumps :: "json \<Rightarrow> string" where
  "json_dumps v = json_text (sort_keys v)"

text \<open>
  Two payloads that differ only in the order of object keys, at any depth.
\<close>

inductive same_up_to_key_order :: "json \<Rightarrow> json \<Rightarrow> bool" where
  scalar: "\<not> is_container v \<Longrightarrow> same_up_to_key_order v v"
| array: "list_all2 same_up_to_key_order xs ys \<Longrightarrow> same_up_to_key_order (JArr xs) (JArr ys)"
| object: "list_all2 (\<lambda>p q. fst p = fst q \<and> same_up_to_key_order (snd p) (snd q)) kvs mid \<Longrightarrow>
    mset mid = mset kvs' \<Longrightarrow> same_up_to_key_order (JObj kvs) (JObj kvs')"

lemma sort_key_permuted:
  assumes "mset xs = mset ys" "distinct (map f xs)"
  shows "sort_key f xs = sort_key f ys"
proof (rule properties_for_sort_key)
  show "mset (sort_key f ys) = mset xs" using assms(1) by simp
  show "sorted (map f (sort_key f ys))" by simp
  fix k
  assume "k \<in> set (sort_key f ys)"
  have d: "distinct (map f ys)"
    using assms mset_eq_imp_distinct_iff [of "map f xs" "map f ys"] by simp
  have s: "set xs = set ys" using assms(1) by (metis set_mset_mset)
  have one: "filter (\<lambda>x. f k = f x) zs = [k]" if "distinct (map f zs)" "k \<in> set zs" for zs
    using that
  proof (induction zs)
    case (Cons z zs)
    show ?case
    proof (cases "z = k")
      case True
      then have "filter (\<lambda>x. f k = f x) zs = []"
        using Cons.prems by (auto simp: filter_empty_conv)
      with True show ?thesis by simp
    next
      case False
      then have "k \<in> set zs" using Cons.prems(2) by simp
      then have "f k \<in> f ` set zs" by (rule imageI)
      then have "f k \<noteq> f z" using Cons.prems(1) by auto
      with False Cons show ?thesis by simp
    qed
  qed simp
  have "k \<in> set ys" using \<open>k \<in> set (sort_key f ys)\<close> by simp
  moreover have "distinct (map f (sort_key f ys))"
    using d mset_eq_imp_distinct_iff [of "map f (sort_key f ys)" "map f ys"] by simp
  ultimately show "filter (\<lambda>x. f k = f x) (sort_key f ys) = filter (\<lambda>x. f k = f x) xs"
    using one [of "sort_key f ys"] one [of xs] assms(2) s by simp
qed

lemma sort_keys_same:
  "same_up_to_key_order a b \<Longrightarrow> json_wf a \<Longrightarrow> sort_keys a = sort_keys b"
proof (induction rule: same_up_to_key_order.induct)
  case (array xs ys)
  have "map sort_keys xs = map sort_keys ys"
    using array.prems by (intro list_all2_map_eq [OF array.IH]) auto
  then show ?case by simp
next
  case (object kvs mid kvs')
  have "list_all2 (\<lambda>p q. fst q = fst p) kvs mid"
    using object(1) by (rule list_all2_mono) simp
  then have keys: "map fst mid = map fst kvs"
    by (induction rule: list_all2_induct) simp_all
  have wf: "json_wf (snd p)" if "p \<in> set kvs" for p
    using object.prems that by simp
  have eq: "map (map_prod id sort_keys) kvs = map (map_prod id sort_keys) mid"
  proof (rule list_all2_map_eq [OF object(1)])
    fix p q :: "string \<times> json"
    assume "p \<in> set kvs"
    then have "json_wf (snd p)" by (rule wf)
    moreover assume "fst p = fst q \<and> same_up_to_key_order (snd p) (snd q) \<and>
      (json_wf (snd p) \<longrightarrow> sort_keys (snd p) = sort_keys (snd q))"
    ultimately show "map_prod id sort_keys p = map_prod id sort_keys q"
      by (cases p; cases q) simp
  qed
  have "distinct (map fst (map (map_prod id sort_keys) mid))"
    using object(3) keys by (simp add: comp_def)
  moreover have "mset (map (map_prod id sort_keys) mid) = mset (map (map_prod id sort_keys) kvs')"
    using object(2) by simp
  ultimately show ?case using eq sort_key_permuted by (metis sort_keys.simps(9))
qed simp

lemma json_dumps_key_order:
  "same_up_to_key_order a b \<Longrightarrow> json_wf a \<Longrightarrow> json_dumps a = json_dumps b"
  by (simp add: json_dumps_def sort_keys_same)

end
