(* ===== verification/Py_Datetime.thy ===== *)
theory Py_Datetime
  imports Py_Json
begin

text \<open>
  Python's \<open>datetime\<close> as the gateway uses it: calendar arithmetic, \<open>isoformat\<close>,
  \<open>fromisoformat\<close> (the grammar of Python 3.12) and \<open>fromtimestamp(\<dots>, tz=UTC)\<close>, and the instants
  the database stores and compares.
\<close>

section \<open>Instants\<close>

text \<open>
  A \<open>timestamptz\<close> column: microseconds since the start of year 1, UTC.  Instants are ordered by
  time.
\<close>

datatype instant = Instant (micros: int)

instantiation instant :: linorder
begin

definition less_eq_instant :: "instant \<Rightarrow> instant \<Rightarrow> bool" where
  "less_eq_instant a b \<longleftrightarrow> micros a \<le> micros b"

definition less_instant :: "instant \<Rightarrow> instant \<Rightarrow> bool" where
  "less_instant a b \<longleftrightarrow> micros a < micros b"

instance
  by standard (auto simp: less_eq_instant_def less_instant_def instant.expand)

end

lemma Instant_le [simp]: "Instant a \<le> Instant b \<longleftrightarrow> a \<le> b"
  by (simp add: less_eq_instant_def)

lemma Instant_less [simp]: "Instant a < Instant b \<longleftrightarrow> a < b"
  by (simp add: less_instant_def)

section \<open>The calendar\<close>

definition is_leap :: "nat \<Rightarrow> bool" where
  "is_leap y \<longleftrightarrow> y mod 4 = 0 \<and> (y mod 100 \<noteq> 0 \<or> y mod 400 = 0)"

definition days_in_month :: "nat \<Rightarrow> nat \<Rightarrow> nat" where
  "days_in_month y m =
     (if m = 2 then (if is_leap y then 29 else 28)
      else if m \<in> {4, 6, 9, 11} then 30 else 31)"

fun days_before_month :: "nat \<Rightarrow> nat \<Rightarrow> nat" where
  "days_before_month y 0 = 0"
| "days_before_month y (Suc m) = (if m = 0 then 0 else days_before_month y m + days_in_month y m)"

definition days_before_year :: "nat \<Rightarrow> nat" where
  "days_before_year y = (let p = y - 1 in p * 365 + p div 4 - p div 100 + p div 400)"

definition ymd2ord :: "nat \<Rightarrow> nat \<Rightarrow> nat \<Rightarrow> nat" where
  "ymd2ord y m d = days_before_year y + days_before_month y m + d"

text \<open>The day of the year, from 0, as month and day of month.\<close>

fun month_of :: "nat \<Rightarrow> nat \<Rightarrow> nat \<Rightarrow> nat \<Rightarrow> nat \<times> nat" where
  "month_of y 0 m n = (m, n + 1)"
| "month_of y (Suc fuel) m n =
     (if n < days_in_month y m then (m, n + 1)
      else month_of y fuel (m + 1) (n - days_in_month y m))"

text \<open>
  The proleptic Gregorian calendar in cycles of 400, 100, 4 and 1 years: whether the day is the
  last one of a leap cycle, the year, and the day of that year.
\<close>

definition ord_year_day :: "nat \<Rightarrow> bool \<times> nat \<times> nat" where
  "ord_year_day ordinal =
     (let n = ordinal - 1;
          n400 = n div 146097; r400 = n mod 146097;
          n100 = r400 div 36524; r100 = r400 mod 36524;
          n4 = r100 div 1461; r4 = r100 mod 1461;
          n1 = r4 div 365; r1 = r4 mod 365
      in (n1 = 4 \<or> n100 = 4, n400 * 400 + 1 + n100 * 100 + n4 * 4 + n1, r1))"

definition ord2ymd :: "nat \<Rightarrow> nat \<times> nat \<times> nat" where
  "ord2ymd ordinal =
     (case ord_year_day ordinal of
        (last_day, year, r) \<Rightarrow>
          if last_day then (year - 1, 12, 31)
          else let (m, d) = month_of year 11 1 r in (year, m, d))"

lemma ord_year_day_bounds:
  assumes "ord_year_day n = (l, y, r)"
  shows "1 \<le> y" "r < 365" "l \<Longrightarrow> 2 \<le> y"
proof -
  define q where "q = (n - 1) mod 146097 mod 36524 mod 1461"
  define h where "h = (n - 1) mod 146097 div 36524"
  have eq: "l = (q div 365 = 4 \<or> h = 4)" "r = q mod 365"
    "y = (n - 1) div 146097 * 400 + 1 + h * 100
       + (n - 1) mod 146097 mod 36524 div 1461 * 4 + q div 365"
    using assms unfolding ord_year_day_def Let_def q_def h_def prod.inject by blast+
  show "1 \<le> y" unfolding eq(3) by simp
  show "r < 365" unfolding eq(2) by simp
  show "2 \<le> y" if l
  proof -
    have "1 \<le> h * 100 + q div 365" using that unfolding eq(1) by (elim disjE) simp_all
    then show ?thesis unfolding eq(3) by linarith
  qed
qed

lemma ord_year_day_le:
  assumes "ord_year_day n = (l, y, r)" "n \<le> 3652059"
  shows "y \<le> 9999"
proof -
  define k where "k = n - 1"
  define a b c e where "a = k div 146097" and "b = k mod 146097 div 36524"
    and "c = k mod 146097 mod 36524 div 1461" and "e = k mod 146097 mod 36524 mod 1461 div 365"
  define r1 r2 r3 where "r1 = k mod 146097" and "r2 = r1 mod 36524" and "r3 = r2 mod 1461"
  have y: "y = a * 400 + 1 + b * 100 + c * 4 + e"
    using assms(1) unfolding ord_year_day_def Let_def a_def b_def c_def e_def k_def prod.inject by blast
  have eqs: "k = a * 146097 + r1" "r1 = b * 36524 + r2" "r2 = c * 1461 + r3" "r3 = e * 365 + r3 mod 365"
    by (simp_all add: a_def b_def c_def e_def r1_def r2_def r3_def)
  have k: "k \<le> 3652058" using assms(2) by (simp add: k_def)
  have r2: "r2 < 36524" and r1: "r1 < 146097" and r3: "r3 < 1461"
    by (simp_all add: r1_def r2_def r3_def)
  have e: "e \<le> 4" and c: "c \<le> 24" and b: "b \<le> 4" using eqs r1 r2 r3 by linarith+
  have "a \<le> 24" using eqs k by linarith
  then consider "a \<le> 23" | "a = 24" by linarith
  then show ?thesis
  proof cases
    case 1
    then show ?thesis using y b c e by linarith
  next
    case 2
    have "b \<le> 3" using 2 eqs k by linarith
    then consider "b \<le> 2" | "b = 3" by linarith
    then show ?thesis
    proof cases
      case 1
      then show ?thesis using 2 y c e by linarith
    next
      case 2
      show ?thesis
      proof (cases "c = 24")
        case True
        then have "e \<le> 2" using 2 \<open>a = 24\<close> eqs k by linarith
        then show ?thesis using 2 True \<open>a = 24\<close> y by linarith
      next
        case False
        then show ?thesis using 2 \<open>a = 24\<close> y c e by linarith
      qed
    qed
  qed
qed

lemma days_in_month_bounds: "28 \<le> days_in_month y m \<and> days_in_month y m \<le> 31"
  by (auto simp: days_in_month_def)

lemma days_before_month_Suc:
  "1 \<le> m \<Longrightarrow> days_before_month y (m + 1) = days_before_month y m + days_in_month y m"
  by simp

lemma month_of_valid:
  assumes "1 \<le> m" "m + fuel = 12" "n + days_before_month y m < days_before_month y 13"
    and "month_of y fuel m n = (m', d)"
  shows "1 \<le> m' \<and> m' \<le> 12 \<and> 1 \<le> d \<and> d \<le> days_in_month y m'"
  using assms
proof (induction y fuel m n rule: month_of.induct)
  case (1 y m n)
  then show ?case using days_before_month_Suc [of 12 y] by simp
next
  case (2 y fuel m n)
  show ?case
  proof (cases "n < days_in_month y m")
    case True
    then show ?thesis using 2 by auto
  next
    case False
    then show ?thesis using 2 days_before_month_Suc [of m y] by simp
  qed
qed

lemma days_in_year: "365 \<le> days_before_month y 13"
  by (simp add: numeral_eq_Suc days_in_month_def)

lemma ord2ymd_valid:
  assumes "ord2ymd n = (y, m, d)"
  shows "1 \<le> y \<and> 1 \<le> m \<and> m \<le> 12 \<and> 1 \<le> d \<and> d \<le> days_in_month y m"
proof -
  obtain l yr r where o: "ord_year_day n = (l, yr, r)" by (cases "ord_year_day n")
  note b = ord_year_day_bounds [OF o]
  show ?thesis
  proof (cases l)
    case True
    then have "(y, m, d) = (yr - 1, 12, 31)" using assms o by (simp add: ord2ymd_def)
    then show ?thesis using b(3) True by (auto simp: days_in_month_def)
  next
    case False
    then have "y = yr" "month_of yr 11 1 r = (m, d)"
      using assms o by (auto simp: ord2ymd_def split: prod.splits)
    moreover have "r + days_before_month yr 1 < days_before_month yr 13"
      using b(2) days_in_year [of yr] by simp
    ultimately show ?thesis using month_of_valid [of 1 11 r yr m d] b(1) by simp
  qed
qed

lemma ord2ymd_le: "ord2ymd n = (y, m, d) \<Longrightarrow> n \<le> 3652059 \<Longrightarrow> y \<le> 9999"
  by (cases "ord_year_day n")
     (auto simp: ord2ymd_def dest: ord_year_day_le split: if_splits prod.splits)

section \<open>Date-times\<close>

record datetime =
  dt_year :: nat
  dt_month :: nat
  dt_day :: nat
  dt_hour :: nat
  dt_minute :: nat
  dt_second :: nat
  dt_micro :: nat
  dt_offset :: "int option"  \<comment> \<open>offset from UTC in microseconds; None is a naive time\<close>

definition day_micros :: int where
  "day_micros = 86400000000"

text \<open>The checks of the \<open>datetime\<close> and \<open>timezone\<close> constructors.\<close>

definition datetime_ok :: "datetime \<Rightarrow> bool" where
  "datetime_ok t \<longleftrightarrow>
     1 \<le> dt_year t \<and> dt_year t \<le> 9999 \<and> 1 \<le> dt_month t \<and> dt_month t \<le> 12 \<and>
     1 \<le> dt_day t \<and> dt_day t \<le> days_in_month (dt_year t) (dt_month t) \<and>
     dt_hour t < 24 \<and> dt_minute t < 60 \<and> dt_second t < 60 \<and> dt_micro t < 1000000 \<and>
     (case dt_offset t of None \<Rightarrow> True | Some off \<Rightarrow> \<bar>off\<bar> < day_micros)"

definition aware :: "datetime \<Rightarrow> bool" where
  "aware t \<longleftrightarrow> dt_offset t \<noteq> None"

definition clock_micros :: "nat \<Rightarrow> nat \<Rightarrow> nat \<Rightarrow> nat \<Rightarrow> int" where
  "clock_micros h m s us = ((int h * 60 + int m) * 60 + int s) * 1000000 + int us"

definition dt_instant :: "datetime \<Rightarrow> instant" where
  "dt_instant t =
     Instant (int (ymd2ord (dt_year t) (dt_month t) (dt_day t)) * day_micros
              + clock_micros (dt_hour t) (dt_minute t) (dt_second t) (dt_micro t)
              - (case dt_offset t of None \<Rightarrow> 0 | Some off \<Rightarrow> off))"

text \<open>\<open>datetime.fromtimestamp(seconds, tz=UTC)\<close>; \<open>None\<close> is one of the caught range errors.\<close>

definition fromtimestamp :: "pyfloat \<Rightarrow> datetime option" where
  "fromtimestamp x =
     (case x of
        Fin seconds \<Rightarrow>
          (let us = round_half_even (seconds * 1000000);
               day = 719163 + us div day_micros;
               r = nat (us mod day_micros)
           in if day < 1 \<or> 3652059 < day then None
              else let (y, m, d) = ord2ymd (nat day)
                   in Some \<lparr> dt_year = y, dt_month = m, dt_day = d,
                             dt_hour = r div 3600000000,
                             dt_minute = r div 60000000 mod 60,
                             dt_second = r div 1000000 mod 60,
                             dt_micro = r mod 1000000, dt_offset = Some 0 \<rparr>)
      | _ \<Rightarrow> None)"

section \<open>isoformat\<close>

definition iso_clock :: "nat \<Rightarrow> nat \<Rightarrow> nat \<Rightarrow> nat \<Rightarrow> string" where
  "iso_clock h m s us =
     pad 2 h @ '':'' @ pad 2 m @ '':'' @ pad 2 s @ (if us = 0 then '''' else ''.'' @ pad 6 us)"

definition iso_offset :: "int \<Rightarrow> string" where
  "iso_offset off =
     (let a = nat \<bar>off\<bar>; h = a div 3600000000; m = a div 60000000 mod 60;
          s = a div 1000000 mod 60; us = a mod 1000000
      in (if off < 0 then ''-'' else ''+'') @
         (if s = 0 \<and> us = 0 then pad 2 h @ '':'' @ pad 2 m else iso_clock h m s us))"

definition isoformat :: "datetime \<Rightarrow> string" where
  "isoformat t =
     pad 4 (dt_year t) @ ''-'' @ pad 2 (dt_month t) @ ''-'' @ pad 2 (dt_day t) @ ''T'' @
     iso_clock (dt_hour t) (dt_minute t) (dt_second t) (dt_micro t) @
     (case dt_offset t of None \<Rightarrow> '''' | Some off \<Rightarrow> iso_offset off)"

section \<open>fromisoformat\<close>

definition take_digits :: "nat \<Rightarrow> string \<Rightarrow> (nat \<times> string) option" where
  "take_digits n s =
     (if n \<le> length s \<and> (\<forall>c \<in> set (take n s). is_ascii_digit c)
      then Some (digits_val (take n s), drop n s) else None)"

definition head_is :: "char \<Rightarrow> string \<Rightarrow> bool" where
  "head_is c s = (case s of [] \<Rightarrow> False | x # _ \<Rightarrow> x = c)"

definition isoweek_to_ymd :: "nat \<Rightarrow> nat \<Rightarrow> nat \<Rightarrow> (nat \<times> nat \<times> nat) option" where
  "isoweek_to_ymd year week day =
     (let firstday = ymd2ord year 1 1;
          firstweekday = (firstday + 6) mod 7;
          monday = (if firstweekday > 3 then firstday + 7 else firstday) - firstweekday;
          week_ok = (0 < week \<and> week < 53) \<or>
            (week = 53 \<and> (firstday mod 7 = 4 \<or> (firstday mod 7 = 3 \<and> is_leap year)))
      in if 1 \<le> year \<and> week_ok \<and> 0 < day \<and> day < 8
         then Some (ord2ymd (monday + (week - 1) * 7 + (day - 1))) else None)"

definition iso_date :: "string \<Rightarrow> (nat \<times> nat \<times> nat) option" where
  "iso_date s =
     (case take_digits 4 s of
        None \<Rightarrow> None
      | Some (year, r) \<Rightarrow>
          (let sep = head_is (CHR ''-'') r; r = (if sep then tl r else r) in
           if head_is (CHR ''W'') r then
             (case take_digits 2 (tl r) of
                None \<Rightarrow> None
              | Some (week, r) \<Rightarrow>
                  if r = [] then isoweek_to_ymd year week 1
                  else if head_is (CHR ''-'') r \<noteq> sep then None
                  else (case take_digits 1 (if sep then tl r else r) of
                          None \<Rightarrow> None
                        | Some (day, r) \<Rightarrow> if r = [] then isoweek_to_ymd year week day else None))
           else
             (case take_digits 2 r of
                None \<Rightarrow> None
              | Some (month, r) \<Rightarrow>
                  if head_is (CHR ''-'') r \<noteq> sep then None
                  else (case take_digits 2 (if sep then tl r else r) of
                          None \<Rightarrow> None
                        | Some (day, r) \<Rightarrow> if r = [] then Some (year, month, day) else None))))"

definition iso_fraction :: "string \<Rightarrow> nat option" where
  "iso_fraction s =
     (let n = min 6 (length s) in
      if s = [] then None
      else (case take_digits n s of
              None \<Rightarrow> None
            | Some (v, r) \<Rightarrow>
                if \<forall>c \<in> set r. is_ascii_digit c then Some (v * 10 ^ (6 - n)) else None))"

definition iso_time :: "string \<Rightarrow> (nat \<times> nat \<times> nat \<times> nat) option" where
  "iso_time s =
     (case take_digits 2 s of
        None \<Rightarrow> None
      | Some (h, r) \<Rightarrow>
          if r = [] then Some (h, 0, 0, 0)
          else
            (let sep = head_is (CHR '':'') r in
             case take_digits 2 (if sep then tl r else r) of
               None \<Rightarrow> None
             | Some (m, r) \<Rightarrow>
                 if r = [] then Some (h, m, 0, 0)
                 else if sep \<and> \<not> head_is (CHR '':'') r then None
                 else
                   (case take_digits 2 (if sep then tl r else r) of
                      None \<Rightarrow> None
                    | Some (s, r) \<Rightarrow>
                        if r = [] then Some (h, m, s, 0)
                        else if head_is (CHR ''.'') r \<or> head_is (CHR '','') r
                        then map_option (\<lambda>us. (h, m, s, us)) (iso_fraction (tl r))
                        else None)))"

definition is_zone_mark :: "char \<Rightarrow> bool" where
  "is_zone_mark c \<longleftrightarrow> c = CHR ''+'' \<or> c = CHR ''-'' \<or> c = CHR ''Z''"

text \<open>The outer option is the parse, the inner one a naive time.\<close>

definition iso_zone :: "string \<Rightarrow> int option option" where
  "iso_zone s =
     (case s of
        [] \<Rightarrow> Some None
      | c # r \<Rightarrow>
          if c = CHR ''Z'' then (if r = [] then Some (Some 0) else None)
          else (case iso_time r of
                  None \<Rightarrow> None
                | Some (h, m, s, us) \<Rightarrow>
                    Some (Some ((if c = CHR ''-'' then - 1 else 1) * clock_micros h m s us))))"

text \<open>Where the date ends: the separator may be any character.\<close>

definition date_length :: "string \<Rightarrow> nat" where
  "date_length s =
     (if length s = 7 then 7
      else if s ! 4 = CHR ''-'' then
        (if s ! 5 = CHR ''W'' then
           (if 8 < length s \<and> s ! 8 = CHR ''-''
            then (if 10 < length s \<and> is_ascii_digit (s ! 10) then 8 else 10)
            else 8)
         else 10)
      else if s ! 4 = CHR ''W'' then
        (let p = 7 + length (takeWhile is_ascii_digit (drop 7 s)) in
         if p < 9 then p else if even p then 7 else 8)
      else 8)"

definition fromisoformat :: "string \<Rightarrow> datetime option" where
  "fromisoformat s =
     (if length s < 7 then None
      else
        (let n = date_length s; d = take n s; t = drop (n + 1) s in
         case iso_date d of
           None \<Rightarrow> None
         | Some (y, mo, da) \<Rightarrow>
             (case (if length s \<le> n then Some (0, 0, 0, 0)
                    else iso_time (takeWhile (\<lambda>c. \<not> is_zone_mark c) t)) of
                None \<Rightarrow> None
              | Some (h, mi, se, us) \<Rightarrow>
                  (case iso_zone (dropWhile (\<lambda>c. \<not> is_zone_mark c) t) of
                     None \<Rightarrow> None
                   | Some off \<Rightarrow>
                       (let dt = \<lparr> dt_year = y, dt_month = mo, dt_day = da, dt_hour = h,
                                   dt_minute = mi, dt_second = se, dt_micro = us,
                                   dt_offset = off \<rparr>
                        in if datetime_ok dt then Some dt else None)))))"

lemma fromisoformat_ok: "fromisoformat s = Some t \<Longrightarrow> datetime_ok t"
  by (auto simp: fromisoformat_def Let_def split: if_splits option.splits)

lemma fromtimestamp_ok:
  assumes "fromtimestamp x = Some t"
  shows "datetime_ok t \<and> aware t"
proof -
  obtain sec where x: "x = Fin sec" using assms by (cases x) (auto simp: fromtimestamp_def)
  define us where "us = round_half_even (sec * 1000000)"
  define r where "r = nat (us mod day_micros)"
  obtain y m d where ymd: "ord2ymd (nat (719163 + us div day_micros)) = (y, m, d)"
    by (cases "ord2ymd (nat (719163 + us div day_micros))")
  have le: "nat (719163 + us div day_micros) \<le> 3652059"
    using assms unfolding x fromtimestamp_def us_def
    by (simp add: Let_def nat_le_iff split: if_splits)
  have t: "t = \<lparr> dt_year = y, dt_month = m, dt_day = d, dt_hour = r div 3600000000,
      dt_minute = r div 60000000 mod 60, dt_second = r div 1000000 mod 60,
      dt_micro = r mod 1000000, dt_offset = Some 0 \<rparr>"
    using assms ymd unfolding x fromtimestamp_def r_def us_def
    by (simp add: Let_def split: if_splits)
  have "r < 86400000000" by (simp add: r_def day_micros_def nat_less_iff)
  then have "r div 3600000000 < 24" by (simp add: less_mult_imp_div_less)
  then show ?thesis
    using ord2ymd_valid [OF ymd] ord2ymd_le [OF ymd le] by (auto simp: t datetime_ok_def aware_def day_micros_def)
qed

section \<open>isoformat is parsed back\<close>

lemma take_digits_pad:
  "0 < n \<Longrightarrow> k < 10 ^ n \<Longrightarrow> take_digits n (pad n k @ r) = Some (k, r)"
  by (auto simp: take_digits_def length_pad dest: pad_digits)

lemma head_is_Nil [simp]: "\<not> head_is c []"
  by (simp add: head_is_def)

lemma head_is_Cons [simp]: "head_is c (x # s) \<longleftrightarrow> x = c"
  by (simp add: head_is_def)

lemma iso_fraction_pad: "us < 1000000 \<Longrightarrow> iso_fraction (pad 6 us) = Some us"
  using take_digits_pad [of 6 us "[]"] length_pad [of 6 us]
  by (auto simp: iso_fraction_def)

lemma iso_time_clock:
  assumes "h < 100" "m < 100" "s < 100" "us < 1000000"
  shows "iso_time (iso_clock h m s us) = Some (h, m, s, us)"
proof -
  have t: "take_digits 2 (pad 2 h @ r) = Some (h, r)" "take_digits 2 (pad 2 m @ r) = Some (m, r)"
    "take_digits 2 (pad 2 s @ r) = Some (s, r)" for r
    using assms by (auto intro!: take_digits_pad)
  have t0: "take_digits 2 (pad 2 s) = Some (s, [])" using t(3) [of "[]"] by simp
  show ?thesis
    using assms by (simp add: iso_time_def iso_clock_def t t0 iso_fraction_pad)
qed

lemma iso_time_hm:
  assumes "h < 100" "m < 100"
  shows "iso_time (pad 2 h @ '':'' @ pad 2 m) = Some (h, m, 0, 0)"
proof -
  have t: "take_digits 2 (pad 2 h @ r) = Some (h, r)" "take_digits 2 (pad 2 m @ r) = Some (m, r)" for r
    using assms by (auto intro!: take_digits_pad)
  show ?thesis using t(2) [of "[]"] by (simp add: iso_time_def t)
qed

lemma iso_zone_offset:
  assumes "\<bar>off\<bar> < day_micros"
  shows "iso_zone (iso_offset off) = Some (Some off)"
proof -
  define a where "a = nat \<bar>off\<bar>"
  define h where "h = a div 3600000000"
  define m where "m = a div 60000000 mod 60"
  define s where "s = a div 1000000 mod 60"
  define us where "us = a mod 1000000"
  have "a < 86400000000" using assms by (simp add: a_def day_micros_def)
  then have h: "h < 24" by (simp add: h_def less_mult_imp_div_less)
  have m: "m < 60" and s: "s < 60" and us: "us < 1000000" by (simp_all add: m_def s_def us_def)
  have d: "a div 60000000 = a div 1000000 div 60" "a div 3600000000 = a div 60000000 div 60"
    by (simp_all flip: div_mult2_eq)
  have "a = a div 1000000 * 1000000 + us" unfolding us_def by simp
  also have "a div 1000000 = a div 60000000 * 60 + s" unfolding s_def d(1) by simp
  also have "a div 60000000 = h * 60 + m" unfolding h_def m_def d(2) by simp
  finally have total: "int a = clock_micros h m s us" by (simp add: clock_micros_def)
  have off: "off = (if off < 0 then - int a else int a)" by (simp add: a_def)
  let ?sign = "if off < 0 then CHR ''-'' else CHR ''+''"
  define body where "body = (if s = 0 \<and> us = 0 then pad 2 h @ '':'' @ pad 2 m else iso_clock h m s us)"
  have "iso_offset off = ?sign # body"
    by (simp add: iso_offset_def body_def Let_def flip: a_def h_def m_def s_def us_def)
  moreover have "iso_time body = Some (h, m, s, us)"
    using h m s us iso_time_hm [of h m] by (auto simp: body_def iso_time_clock)
  moreover have "(if off < 0 then - 1 else 1) * clock_micros h m s us = off"
    using off unfolding total [symmetric] by auto
  ultimately show ?thesis by (cases "off < 0") (simp_all add: iso_zone_def)
qed

lemma iso_clock_no_zone: "c \<in> set (iso_clock h m s us) \<Longrightarrow> \<not> is_zone_mark c"
  by (auto simp: iso_clock_def is_zone_mark_def is_ascii_digit_def dest!: pad_digits split: if_splits)

lemma iso_date_ymd:
  assumes "y < 10000" "m < 100" "d < 100"
  shows "iso_date (pad 4 y @ ''-'' @ pad 2 m @ ''-'' @ pad 2 d) = Some (y, m, d)"
proof -
  have t: "take_digits 4 (pad 4 y @ r) = Some (y, r)" "take_digits 2 (pad 2 m @ r) = Some (m, r)"
    "take_digits 2 (pad 2 d @ r) = Some (d, r)" for r
    using assms by (auto intro!: take_digits_pad)
  have "length (pad 2 m) = 2" using assms by (simp add: length_pad)
  then obtain c cs where c: "pad 2 m = c # cs" by (cases "pad 2 m") auto
  then have "c \<noteq> CHR ''W''" using pad_digits [of c 2 m] by (auto simp: is_ascii_digit_def)
  then have "\<not> head_is (CHR ''W'') (pad 2 m @ r)" for r by (simp add: c)
  then show ?thesis using t(3) [of "[]"] by (simp add: iso_date_def t)
qed

lemma fromisoformat_isoformat:
  assumes "datetime_ok t"
  shows "fromisoformat (isoformat t) = Some t"
proof -
  have ok: "dt_year t < 10000" "dt_month t < 100" "dt_day t < 100" "dt_hour t < 100"
    "dt_minute t < 100" "dt_second t < 100" "dt_micro t < 1000000"
    using assms days_in_month_bounds [of "dt_year t" "dt_month t"]
    by (auto simp: datetime_ok_def)
  define date where "date = pad 4 (dt_year t) @ ''-'' @ pad 2 (dt_month t) @ ''-'' @ pad 2 (dt_day t)"
  define clock where "clock = iso_clock (dt_hour t) (dt_minute t) (dt_second t) (dt_micro t)"
  define zone where "zone = (case dt_offset t of None \<Rightarrow> [] | Some off \<Rightarrow> iso_offset off)"
  have s: "isoformat t = date @ ''T'' @ clock @ zone"
    by (simp add: isoformat_def date_def clock_def zone_def)
  have len: "length date = 10" using ok by (simp add: date_def length_pad)
  have p4: "length (pad 4 (dt_year t)) = 4" and p2: "length (pad 2 (dt_month t)) = 2"
    using ok by (simp_all add: length_pad)
  have "isoformat t ! 4 = CHR ''-''"
    using p4 by (simp add: s date_def nth_append)
  moreover have "isoformat t ! 5 = pad 2 (dt_month t) ! 0"
    using p4 p2 by (simp add: s date_def nth_append)
  moreover have "pad 2 (dt_month t) ! 0 \<in> set (pad 2 (dt_month t))"
    using p2 by (intro nth_mem) simp
  then have "is_ascii_digit (pad 2 (dt_month t) ! 0)" by (rule pad_digits)
  ultimately have dl: "date_length (isoformat t) = 10"
    using len by (auto simp: date_length_def s is_ascii_digit_def)
  have z: "zone = [] \<or> is_zone_mark (hd zone)"
    by (auto simp: zone_def iso_offset_def is_zone_mark_def Let_def split: option.split)
  have tw: "takeWhile (\<lambda>c. \<not> is_zone_mark c) (clock @ zone) = clock"
    "dropWhile (\<lambda>c. \<not> is_zone_mark c) (clock @ zone) = zone"
    using takeWhile_append_stop [of clock "\<lambda>c. \<not> is_zone_mark c" zone] z iso_clock_no_zone
    unfolding clock_def by blast+
  have zp: "iso_zone zone = Some (dt_offset t)"
  proof (cases "dt_offset t")
    case None
    then show ?thesis by (simp add: zone_def iso_zone_def)
  next
    case (Some off)
    then show ?thesis using assms iso_zone_offset by (simp add: zone_def datetime_ok_def)
  qed
  have "iso_date date = Some (dt_year t, dt_month t, dt_day t)"
    using ok unfolding date_def by (intro iso_date_ymd)
  moreover have "iso_time clock = Some (dt_hour t, dt_minute t, dt_second t, dt_micro t)"
    using ok by (simp add: clock_def iso_time_clock)
  moreover have "take 10 (isoformat t) = date" "drop 11 (isoformat t) = clock @ zone"
    "\<not> length (isoformat t) \<le> 10" "\<not> length (isoformat t) < 7"
    using len by (simp_all add: s)
  moreover have "datetime_ok \<lparr> dt_year = dt_year t, dt_month = dt_month t, dt_day = dt_day t,
      dt_hour = dt_hour t, dt_minute = dt_minute t, dt_second = dt_second t,
      dt_micro = dt_micro t, dt_offset = dt_offset t \<rparr>"
    using assms by (simp add: datetime_ok_def)
  ultimately show ?thesis
    using assms by (simp add: fromisoformat_def dl tw zp Let_def)
qed

lemma isoformat_chars:
  "c \<in> set (isoformat t) \<Longrightarrow> is_ascii_digit c \<or> c \<in> set ''-T:.+''"
  by (auto simp: isoformat_def iso_clock_def iso_offset_def Let_def dest: pad_digits
      split: option.splits if_splits)

lemma isoformat_trimmed [simp]: "strip (isoformat t) = isoformat t"
  by (rule strip_no_space)
     (auto dest!: isoformat_chars simp: is_ascii_digit_def is_space_def py_whitespace_def)

lemma isoformat_no_Z [simp]: "replace_char (CHR ''Z'') r (isoformat t) = isoformat t"
  by (rule replace_char_absent) (auto dest!: isoformat_chars simp: is_ascii_digit_def)

end
