(* ===== verification/Models.thy ===== *)
theory Models
  imports Py_Datetime
begin

text \<open>
  The Django models: \<open>apps/ingestion/models.py\<close>, \<open>apps/normalization/models.py\<close> and
  \<open>apps/entities/models.py\<close>.  An enumeration is a datatype with its stored value; a row is a
  record; a nullable column is an option.  A primary key is a natural number (the UUID of a raw
  webhook stands for one that is new).
\<close>

section \<open>Enumerations\<close>

datatype processing_status = RECEIVED | PROCESSING | NORMALIZED | FAILED | DEAD_LETTER

fun processing_status_value :: "processing_status \<Rightarrow> string" where
  "processing_status_value RECEIVED = ''RECEIVED''"
| "processing_status_value PROCESSING = ''PROCESSING''"
| "processing_status_value NORMALIZED = ''NORMALIZED''"
| "processing_status_value FAILED = ''FAILED''"
| "processing_status_value DEAD_LETTER = ''DEAD_LETTER''"

datatype entity_type = SHIPMENT | INVOICE | UNCLASSIFIED

fun entity_type_value :: "entity_type \<Rightarrow> string" where
  "entity_type_value SHIPMENT = ''SHIPMENT''"
| "entity_type_value INVOICE = ''INVOICE''"
| "entity_type_value UNCLASSIFIED = ''UNCLASSIFIED''"

definition EntityType_values :: "string list" where
  "EntityType_values = map entity_type_value [SHIPMENT, INVOICE, UNCLASSIFIED]"

datatype shipment_status = PICKED_UP | IN_TRANSIT | OUT_FOR_DELIVERY | DELIVERED

fun shipment_status_value :: "shipment_status \<Rightarrow> string" where
  "shipment_status_value PICKED_UP = ''PICKED_UP''"
| "shipment_status_value IN_TRANSIT = ''IN_TRANSIT''"
| "shipment_status_value OUT_FOR_DELIVERY = ''OUT_FOR_DELIVERY''"
| "shipment_status_value DELIVERED = ''DELIVERED''"

definition ShipmentStatus_values :: "string list" where
  "ShipmentStatus_values = map shipment_status_value [PICKED_UP, IN_TRANSIT, OUT_FOR_DELIVERY, DELIVERED]"

datatype invoice_status = ISSUED | PAID | VOIDED | REFUNDED

fun invoice_status_value :: "invoice_status \<Rightarrow> string" where
  "invoice_status_value ISSUED = ''ISSUED''"
| "invoice_status_value PAID = ''PAID''"
| "invoice_status_value VOIDED = ''VOIDED''"
| "invoice_status_value REFUNDED = ''REFUNDED''"

definition InvoiceStatus_values :: "string list" where
  "InvoiceStatus_values = map invoice_status_value [ISSUED, PAID, VOIDED, REFUNDED]"

datatype review_decision = APPROVE_DECISION | REJECT_DECISION

fun review_decision_value :: "review_decision \<Rightarrow> string" where
  "review_decision_value APPROVE_DECISION = ''approve''"
| "review_decision_value REJECT_DECISION = ''reject''"

datatype profile_source = MANUAL | DISCOVERED

fun profile_source_value :: "profile_source \<Rightarrow> string" where
  "profile_source_value MANUAL = ''MANUAL''"
| "profile_source_value DISCOVERED = ''DISCOVERED''"

section \<open>Rows\<close>

record raw_webhook =
  rw_id :: nat
  rw_vendor :: string
  rw_external_event_id :: "string option"
  rw_idempotency_key :: string
  rw_raw_payload :: json
  rw_processing_status :: processing_status
  rw_retry_count :: nat
  rw_error_message :: string
  rw_received_at :: instant

record normalized_event =
  ev_id :: nat
  ev_webhook :: nat
  ev_entity_type :: string
  ev_entity_id :: string
  ev_canonical_status :: string
  ev_event_time :: instant
  ev_normalized_payload :: json
  ev_confidence_score :: pyfloat
  ev_llm_model :: string
  ev_prompt_version :: string
  ev_created_at :: instant
  ev_requires_review :: bool
  ev_review_reason :: string
  ev_reviewed_at :: "instant option"
  ev_review_decision :: string

record vendor_profile =
  vp_vendor :: string
  vp_entity_type :: string
  vp_id_paths :: "string list"
  vp_status_paths :: "string list"
  vp_time_paths :: "string list"
  vp_status_map :: "(string, string option) dict"
  vp_source :: string
  vp_sample_count :: nat
  vp_notes :: string

record entity_state =
  es_entity_type :: string
  es_entity_id :: string
  es_latest_status :: string
  es_latest_event_time :: instant
  es_latest_event :: nat
  es_updated_at :: instant

text \<open>The tables.\<close>

record db =
  db_webhooks :: "raw_webhook list"
  db_events :: "normalized_event list"
  db_states :: "entity_state list"
  db_profiles :: "vendor_profile list"

section \<open>Table constraints\<close>

text \<open>\<open>uq_vendor_idempotency_key\<close>, and \<open>uq_vendor_external_event\<close> where the event id is not null.\<close>

definition webhook_constraints :: "raw_webhook list \<Rightarrow> bool" where
  "webhook_constraints ws \<longleftrightarrow>
     distinct (map rw_id ws) \<and>
     distinct (map (\<lambda>w. (rw_vendor w, rw_idempotency_key w)) ws) \<and>
     distinct (map (\<lambda>w. (rw_vendor w, rw_external_event_id w))
       (filter (\<lambda>w. rw_external_event_id w \<noteq> None) ws))"

text \<open>The primary key and the one-to-one link to the webhook.\<close>

definition event_constraints :: "normalized_event list \<Rightarrow> bool" where
  "event_constraints es \<longleftrightarrow> distinct (map ev_id es) \<and> distinct (map ev_webhook es)"

text \<open>\<open>uq_entity_type_id\<close>\<close>

definition state_key :: "entity_state \<Rightarrow> string \<times> string" where
  "state_key s = (es_entity_type s, es_entity_id s)"

definition state_constraints :: "entity_state list \<Rightarrow> bool" where
  "state_constraints ss \<longleftrightarrow> distinct (map state_key ss)"

end
