(* ===== verification/Columns.thy ===== *)
theory Columns
  imports Models
begin

text \<open>
  What the columns of the tables accept.  PostgreSQL raises where a text is longer than its
  \<open>max_length\<close> (it never truncates), where a text or a JSON document holds a NUL, and where a JSON
  document holds NaN or an infinity; the driver reports each as \<open>DataError\<close>.  One predicate per
  model says when a row is accepted.
\<close>

section \<open>Column types\<close>

definition storable_text :: "string \<Rightarrow> bool" where
  "storable_text s \<longleftrightarrow> CHR 0x00 \<notin> set s"

definition varchar :: "nat \<Rightarrow> string \<Rightarrow> bool" where
  "varchar n s \<longleftrightarrow> length s \<le> n \<and> storable_text s"

fun storable_json :: "json \<Rightarrow> bool" where
  "storable_json JNaN = False"
| "storable_json (JInf b) = False"
| "storable_json (JStr s) = storable_text s"
| "storable_json (JArr xs) = (\<forall>x \<in> set xs. storable_json x)"
| "storable_json (JObj kvs) = (\<forall>(k, v) \<in> set kvs. storable_text k \<and> storable_json v)"
| "storable_json _ = True"

definition too_long :: exn where
  "too_long = DataError ''value too long for type character varying''"

section \<open>The rows of the models\<close>

definition webhook_columns :: "raw_webhook \<Rightarrow> bool" where
  "webhook_columns w \<longleftrightarrow>
     varchar 128 (rw_vendor w) \<and>
     (case rw_external_event_id w of None \<Rightarrow> True | Some e \<Rightarrow> varchar 255 e) \<and>
     varchar 255 (rw_idempotency_key w) \<and> storable_json (rw_raw_payload w)"

definition event_columns :: "normalized_event \<Rightarrow> bool" where
  "event_columns e \<longleftrightarrow>
     varchar 32 (ev_entity_type e) \<and> varchar 255 (ev_entity_id e) \<and>
     varchar 64 (ev_canonical_status e) \<and> storable_json (ev_normalized_payload e) \<and>
     varchar 128 (ev_llm_model e) \<and> varchar 32 (ev_prompt_version e) \<and>
     length (ev_review_reason e) \<le> 255 \<and> length (ev_review_decision e) \<le> 16"

definition state_columns :: "entity_state \<Rightarrow> bool" where
  "state_columns s \<longleftrightarrow>
     varchar 32 (es_entity_type s) \<and> varchar 255 (es_entity_id s) \<and> varchar 64 (es_latest_status s)"

definition profile_columns :: "vendor_profile \<Rightarrow> bool" where
  "profile_columns p \<longleftrightarrow>
     varchar 128 (vp_vendor p) \<and> varchar 32 (vp_entity_type p) \<and>
     list_all storable_text (vp_id_paths p @ vp_status_paths p @ vp_time_paths p) \<and>
     list_all (\<lambda>(token, status). storable_text token \<and> (case status of None \<Rightarrow> True | Some st \<Rightarrow> storable_text st))
       (vp_status_map p) \<and>
     varchar 16 (vp_source p) \<and> storable_text (vp_notes p)"

section \<open>Texts without NUL\<close>

named_theorems storable

lemma storable_text_simps [simp]:
  "storable_text []" "storable_text (c # s) \<longleftrightarrow> c \<noteq> CHR 0x00 \<and> storable_text s"
  "storable_text (s @ t) \<longleftrightarrow> storable_text s \<and> storable_text t"
  by (auto simp: storable_text_def)

lemma storable_subset: "storable_text s \<Longrightarrow> set t \<subseteq> set s \<Longrightarrow> storable_text t"
  by (auto simp: storable_text_def)

lemma storable_take [storable]: "storable_text s \<Longrightarrow> storable_text (take n s)"
  by (erule storable_subset) (rule set_take_subset)

lemma storable_drop [storable]: "storable_text s \<Longrightarrow> storable_text (drop n s)"
  by (erule storable_subset) (rule set_drop_subset)

lemma storable_replicate [storable]: "c \<noteq> CHR 0x00 \<Longrightarrow> storable_text (replicate n c)"
  by (auto simp: storable_text_def)

lemma storable_strip [storable]: "storable_text s \<Longrightarrow> storable_text (strip s)"
  by (erule storable_subset) (auto simp: strip_def strip_by_def dest!: set_dropWhileD)

lemma storable_nat_str [storable]: "storable_text (nat_str n)"
  using nat_str_digits [of "CHR 0x00" n] by (auto simp: storable_text_def is_ascii_digit_def)

lemma storable_int_str [storable]: "storable_text (int_str i)"
  by (simp add: int_str_def storable)

lemma storable_join [storable]: "storable_text sep \<Longrightarrow> \<forall>s \<in> set ss. storable_text s \<Longrightarrow> storable_text (join sep ss)"
  by (induction sep ss rule: join.induct) auto

lemma storable_isoformat [storable]: "storable_text (isoformat t)"
  by (simp add: isoformat_def iso_clock_def iso_offset_def pad_def Let_def storable split: option.split)

lemma storable_strip_zeros [storable]: "storable_text s \<Longrightarrow> storable_text (strip_zeros s)"
  by (erule storable_subset) (auto simp: strip_zeros_def dest!: set_dropWhileD)

lemma storable_float_repr [storable]: "storable_text (float_repr m e)"
  by (simp add: float_repr_def Let_def pad_def storable)

lemma hex_digit_not_null: "d < 16 \<Longrightarrow> hex_digit d \<noteq> CHR 0x00"
proof
  assume "d < 16" "hex_digit d = CHR 0x00"
  then have "of_char (hex_digit d) = (0 :: nat)" by simp
  then show False using \<open>d < 16\<close> by (simp add: hex_digit_def split: if_splits)
qed

lemma storable_repr_char: "q \<noteq> CHR 0x00 \<Longrightarrow> storable_text (repr_char q c)"
proof -
  have "code c div 16 < 16" by (rule less_mult_imp_div_less) simp
  then have "storable_text (hex2 (code c))" by (simp add: hex2_def hex_digit_not_null)
  moreover have "\<not> printable (CHR 0x00)" by (simp add: printable_def)
  ultimately show "q \<noteq> CHR 0x00 \<Longrightarrow> storable_text (repr_char q c)"
    by (auto simp: repr_char_def)
qed

lemma storable_str_repr [storable]: "storable_text (str_repr s)"
proof -
  have "storable_text (concat (map (repr_char q) s))" if "q \<noteq> CHR 0x00" for q
    by (induction s) (simp_all add: storable_repr_char that)
  then show ?thesis by (simp add: str_repr_def Let_def)
qed

text \<open>\<open>repr\<close> escapes what is not printable, so only a string that is printed as it is can hold a NUL.\<close>

lemma storable_py_repr [storable]: "storable_text (py_repr v)"
  by (induction v) (auto simp: storable intro!: storable_join split: prod.splits)

lemma storable_py_str [storable]: "storable_json v \<Longrightarrow> storable_text (py_str v)"
  by (cases v) (simp_all add: storable del: py_repr.simps)

end
