(* ===== verification/Schemas.thy ===== *)
theory Schemas
  imports Models
begin

text \<open>
  \<open>apps/normalization/schemas.py\<close>, \<open>backends/base.py\<close>, \<open>utils.py\<close> and \<open>exceptions.py\<close>: the
  canonical vocabulary, the validated reading of a payload, and the contract of a normaliser.
\<close>

section \<open>The canonical vocabulary\<close>

definition ALLOWED_STATUSES :: "(string, string list) dict" where
  "ALLOWED_STATUSES =
     [(entity_type_value SHIPMENT, ShipmentStatus_values),
      (entity_type_value INVOICE, InvoiceStatus_values),
      (entity_type_value UNCLASSIFIED, [''UNKNOWN''])]"

definition allowed_statuses :: "string \<Rightarrow> string list" where
  "allowed_statuses et =
     (case dict_get ALLOWED_STATUSES (upper et) of None \<Rightarrow> [] | Some ss \<Rightarrow> ss)"

section \<open>NormalizationResult.from_dict\<close>

record normalization_result =
  nr_entity_type :: string
  nr_entity_id :: string
  nr_canonical_status :: string
  nr_event_time :: datetime
  nr_confidence_score :: pyfloat
  nr_normalized_payload :: json

text \<open>\<open>data[key]\<close>: KeyError for a missing key, TypeError on anything but a dict.\<close>

fun item :: "json \<Rightarrow> string \<Rightarrow> json result" where
  "item (JObj kvs) k = (case dict_get kvs k of None \<Rightarrow> Inl (KeyError (str_repr k)) | Some v \<Rightarrow> Inr v)"
| "item _ k = Inl (TypeError ''object is not subscriptable'')"

definition parse_event_time :: "string \<Rightarrow> datetime option" where
  "parse_event_time raw = fromisoformat (replace_char (CHR ''Z'') ''+00:00'' (strip raw))"

definition from_dict :: "json \<Rightarrow> normalization_result result" where
  "from_dict data =
     and_then (item data ''entity_type'') (\<lambda>et_raw.
     let et = upper (py_str et_raw) in
     if et \<notin> set EntityType_values then Inl (ValueError ''Invalid entity_type'') else
     and_then (item data ''canonical_status'') (\<lambda>cs_raw.
     let cs = upper (py_str cs_raw) in
     if cs \<notin> set (the (dict_get ALLOWED_STATUSES et))
     then Inl (ValueError ''Invalid canonical_status for entity_type'') else
     and_then (item data ''entity_id'') (\<lambda>id_raw.
     let eid = strip (py_str id_raw) in
     if eid = [] then Inl (ValueError ''entity_id is required'') else
     and_then (item data ''event_time'') (\<lambda>t_raw.
     case parse_event_time (py_str t_raw) of
       None \<Rightarrow> Inl (ValueError ''Invalid isoformat string'')
     | Some t \<Rightarrow>
         if \<not> aware t then Inl (ValueError ''event_time must include timezone'') else
         and_then (item data ''confidence_score'') (\<lambda>c_raw.
         and_then (py_float c_raw) (\<lambda>c.
         if flt_less c (Fin 0) \<or> flt_less (Fin 1) c
         then Inl (ValueError ''confidence_score must be between 0 and 1'') else
         let raw = obj_get data ''normalized_payload'';
             np = (if truthy raw then raw else JObj []) in
         if \<not> is_object np then Inl (ValueError ''normalized_payload must be an object'') else
         Inr \<lparr> nr_entity_type = et, nr_entity_id = eid, nr_canonical_status = cs,
               nr_event_time = t, nr_confidence_score = c, nr_normalized_payload = np \<rparr>))))))"

section \<open>Normalisers\<close>

record normalization_response =
  resp_normalized :: normalization_result
  resp_llm_model :: string
  resp_prompt_version :: string

text \<open>
  \<open>Normalizer.normalize(payload, vendor=\<dots>)\<close>, over the state it reads profiles from.
\<close>

type_synonym 's normalizer = "json \<Rightarrow> string \<Rightarrow> 's \<Rightarrow> normalization_response result \<times> 's"

definition is_low_confidence :: "pyfloat \<Rightarrow> rat \<Rightarrow> bool" where
  "is_low_confidence confidence_score threshold = flt_less confidence_score (Fin threshold)"

section \<open>Well-formed readings\<close>

text \<open>
  What \<open>from_dict\<close> promises: a canonical type and status, a trimmed identifier, an aware and
  valid time, a score in the unit interval (or NaN, which both comparisons let through), and an
  object as payload.
\<close>

definition unit_score :: "pyfloat \<Rightarrow> bool" where
  "unit_score c = (case c of Fin r \<Rightarrow> 0 \<le> r \<and> r \<le> 1 | _ \<Rightarrow> False)"

definition canonical_pair :: "string \<Rightarrow> string \<Rightarrow> bool" where
  "canonical_pair et cs \<longleftrightarrow>
     (\<exists>ss. dict_get ALLOWED_STATUSES et = Some ss \<and> cs \<in> set ss)"

definition wf_result :: "normalization_result \<Rightarrow> bool" where
  "wf_result r \<longleftrightarrow>
     canonical_pair (nr_entity_type r) (nr_canonical_status r) \<and>
     nr_entity_id r \<noteq> [] \<and> strip (nr_entity_id r) = nr_entity_id r \<and>
     datetime_ok (nr_event_time r) \<and> aware (nr_event_time r) \<and>
     (unit_score (nr_confidence_score r) \<or> nr_confidence_score r = NaN) \<and>
     is_object (nr_normalized_payload r)"

lemma EntityType_values_allowed:
  "et \<in> set EntityType_values \<longleftrightarrow> dict_get ALLOWED_STATUSES et \<noteq> None"
  by (auto simp: EntityType_values_def ALLOWED_STATUSES_def)

lemma score_checked:
  "\<not> flt_less c (Fin 0) \<Longrightarrow> \<not> flt_less (Fin 1) c \<Longrightarrow> unit_score c \<or> c = NaN"
  by (cases c) (auto simp: unit_score_def)

lemma from_dict_InrE:
  assumes "from_dict data = Inr r"
  obtains et_raw cs_raw id_raw t_raw c_raw where
    "item data ''entity_type'' = Inr et_raw" "nr_entity_type r = upper (py_str et_raw)"
    "item data ''canonical_status'' = Inr cs_raw" "nr_canonical_status r = upper (py_str cs_raw)"
    "item data ''entity_id'' = Inr id_raw" "nr_entity_id r = strip (py_str id_raw)"
    "item data ''event_time'' = Inr t_raw" "parse_event_time (py_str t_raw) = Some (nr_event_time r)"
    "item data ''confidence_score'' = Inr c_raw" "py_float c_raw = Inr (nr_confidence_score r)"
    "nr_entity_type r \<in> set EntityType_values"
    "nr_canonical_status r \<in> set (the (dict_get ALLOWED_STATUSES (nr_entity_type r)))"
    "nr_entity_id r \<noteq> []" "aware (nr_event_time r)"
    "\<not> flt_less (nr_confidence_score r) (Fin 0)" "\<not> flt_less (Fin 1) (nr_confidence_score r)"
    "is_object (nr_normalized_payload r)"
proof -
  note d = assms [unfolded from_dict_def Let_def]
  show ?thesis
    by (rule d [elim_format], elim checks_InrE, drule Inr_inject, hypsubst)
       (rule that, (assumption | simp)+)
qed

lemma from_dict_wf:
  assumes "from_dict data = Inr r"
  shows "wf_result r"
  using assms
proof (rule from_dict_InrE)
  assume "nr_entity_type r \<in> set EntityType_values"
    and "nr_canonical_status r \<in> set (the (dict_get ALLOWED_STATUSES (nr_entity_type r)))"
  then have "canonical_pair (nr_entity_type r) (nr_canonical_status r)"
    by (auto simp: canonical_pair_def EntityType_values_allowed)
  moreover fix id_raw t_raw
  assume "nr_entity_id r = strip (py_str id_raw)"
  then have "strip (nr_entity_id r) = nr_entity_id r" by simp
  moreover assume "parse_event_time (py_str t_raw) = Some (nr_event_time r)"
  then have "datetime_ok (nr_event_time r)"
    unfolding parse_event_time_def by (rule fromisoformat_ok)
  moreover assume "\<not> flt_less (nr_confidence_score r) (Fin 0)"
    and "\<not> flt_less (Fin 1) (nr_confidence_score r)"
  then have "unit_score (nr_confidence_score r) \<or> nr_confidence_score r = NaN"
    by (rule score_checked)
  moreover assume "nr_entity_id r \<noteq> []" "aware (nr_event_time r)" "is_object (nr_normalized_payload r)"
  ultimately show ?thesis by (simp add: wf_result_def)
qed

lemma canonical_pair_value: "canonical_pair et cs \<Longrightarrow> upper et = et \<and> upper cs = cs"
  by (auto simp: canonical_pair_def ALLOWED_STATUSES_def ShipmentStatus_values_def
      InvoiceStatus_values_def upper_def char_upper_def split: if_splits)

section \<open>Writing a reading and reading it back\<close>

lemma parse_event_time_isoformat [simp]: "datetime_ok t \<Longrightarrow> parse_event_time (isoformat t) = Some t"
  by (simp add: parse_event_time_def fromisoformat_isoformat)

text \<open>A reading as the dictionary a backend builds for \<open>from_dict\<close>, with the score as JSON.\<close>

definition reading_dict ::
  "string \<Rightarrow> string \<Rightarrow> string \<Rightarrow> string \<Rightarrow> json \<Rightarrow> json \<Rightarrow> json" where
  "reading_dict et eid cs t score np = JObj
     [(''entity_type'', JStr et), (''entity_id'', JStr eid), (''canonical_status'', JStr cs),
      (''event_time'', JStr t), (''confidence_score'', score), (''normalized_payload'', np)]"

lemma from_dict_reading:
  assumes "canonical_pair et cs" "eid \<noteq> []" "strip eid = eid" "datetime_ok t" "aware t"
    and "py_float score = Inr c" "\<not> flt_less c (Fin 0)" "\<not> flt_less (Fin 1) c" "is_object np"
  shows "from_dict (reading_dict et eid cs (isoformat t) score np) = Inr
     \<lparr> nr_entity_type = et, nr_entity_id = eid, nr_canonical_status = cs, nr_event_time = t,
       nr_confidence_score = c, nr_normalized_payload = np \<rparr>"
proof -
  have "(if truthy np then np else JObj []) = np"
    using assms(9) by (cases np) auto
  moreover have "upper et = et" "upper cs = cs" "et \<in> set EntityType_values"
    "cs \<in> set (the (dict_get ALLOWED_STATUSES et))"
    using assms(1) canonical_pair_value [OF assms(1)] EntityType_values_allowed [of et]
    by (auto simp: canonical_pair_def)
  ultimately show ?thesis using assms
    by (simp add: from_dict_def reading_dict_def Let_def)
qed

text \<open>C33. Whatever \<open>from_dict\<close> accepts is canonical: its status belongs to its entity type, its
  identifier is trimmed and not empty, its time is valid and carries an offset, its payload is
  an object, and its score lies in the unit interval or is NaN.  Written out again with its time
  in ISO format it is read back unchanged.\<close>

theorem reading_roundtrip:
  assumes "from_dict data = Inr r" "py_float score = Inr (nr_confidence_score r)"
  shows "wf_result r \<and>
    from_dict (reading_dict (nr_entity_type r) (nr_entity_id r) (nr_canonical_status r)
      (isoformat (nr_event_time r)) score (nr_normalized_payload r)) = Inr r"
proof
  show wf: "wf_result r" using assms(1) by (rule from_dict_wf)
  have "\<not> flt_less (nr_confidence_score r) (Fin 0)" "\<not> flt_less (Fin 1) (nr_confidence_score r)"
    using wf by (auto simp: wf_result_def unit_score_def split: pyfloat.splits)
  then show "from_dict (reading_dict (nr_entity_type r) (nr_entity_id r) (nr_canonical_status r)
      (isoformat (nr_event_time r)) score (nr_normalized_payload r)) = Inr r"
    using wf assms(2) by (subst from_dict_reading) (auto simp: wf_result_def)
qed

definition sample_time :: datetime where
  "sample_time = \<lparr> dt_year = 2024, dt_month = 5, dt_day = 1, dt_hour = 10, dt_minute = 0,
                   dt_second = 0, dt_micro = 0, dt_offset = Some 0 \<rparr>"

lemma sample_time_ok: "datetime_ok sample_time" "aware sample_time"
  by (simp_all add: sample_time_def datetime_ok_def aware_def days_in_month_def day_micros_def)

lemma canonical_pair_examples:
  "canonical_pair ''SHIPMENT'' ''DELIVERED''" "canonical_pair ''UNCLASSIFIED'' ''UNKNOWN''"
  by (auto simp: canonical_pair_def ALLOWED_STATUSES_def ShipmentStatus_values_def)

lemma strip_examples: "strip ''S-1'' = ''S-1''"
  by code_simp

theorem reading_roundtrip_witness:
  "\<exists>r. from_dict (reading_dict ''SHIPMENT'' ''S-1'' ''DELIVERED'' (isoformat sample_time)
           (JFloat 97 (-2)) (JObj [])) = Inr r \<and> wf_result r"
proof -
  let ?d = "reading_dict ''SHIPMENT'' ''S-1'' ''DELIVERED'' (isoformat sample_time) (JFloat 97 (-2)) (JObj [])"
  obtain r where r: "from_dict ?d = Inr r" "nr_confidence_score r = Fin (97/100)"
    using from_dict_reading [OF canonical_pair_examples(1) _ strip_examples sample_time_ok,
        of "JFloat 97 (-2)" "Fin (97/100)" "JObj []"]
    by (auto simp: scale10_def)
  then show ?thesis using reading_roundtrip [of ?d r "JFloat 97 (-2)"] by (auto simp: scale10_def)
qed

end
