(* ===== verification/Py_Hash.thy ===== *)
theory Py_Hash
  imports Py_Json "HOL-Library.Word"
begin

text \<open>
  \<open>str.encode("utf-8")\<close> and the parts of \<open>hashlib\<close> and \<open>hmac\<close> the gateway calls: SHA-256, SHA-1 and
  HMAC-SHA256, with their hexadecimal digests (FIPS 180-4 and RFC 2104, on 32-bit words).  The
  component theories use only the shape of a digest (its length and its characters) and that
  it is a function of the bytes; that no two inputs collide is never assumed.
\<close>

unbundle bit_operations_syntax

section \<open>Bytes\<close>

type_synonym u8 = "8 word"
type_synonym u32 = "32 word"
type_synonym bytes = "u8 list"

definition utf8_char :: "char \<Rightarrow> bytes" where
  "utf8_char c =
     (let n = code c in
      if n < 128 then [of_nat n] else [of_nat (192 + n div 64), of_nat (128 + n mod 64)])"

definition utf8 :: "string \<Rightarrow> bytes" where
  "utf8 s = concat (map utf8_char s)"

lemma u8_of_nat_eq: "n < 256 \<Longrightarrow> m < 256 \<Longrightarrow> (of_nat n :: u8) = of_nat m \<longleftrightarrow> n = m"
  by (auto simp: word_of_nat_eq_iff take_bit_nat_eq_self)

lemma utf8_char_prefix:
  assumes "utf8_char a @ xs = utf8_char b @ ys"
  shows "a = b \<and> xs = ys"
proof -
  have bound: "code a < 256" "code b < 256" by (rule nat_of_char_less_256)+
  have dm: "n < 256 \<Longrightarrow> 192 + n div 64 < 256" "128 + n mod (64 :: nat) < 256" for n :: nat
    by (simp_all add: less_mult_imp_div_less trans_less_add1)
  have "(code a div 64, code a mod 64) = (code b div 64, code b mod 64) \<and> xs = ys"
    using assms bound dm [of "code a"] dm [of "code b"]
    by (auto simp: utf8_char_def Let_def u8_of_nat_eq simp del: of_nat_add split: if_splits)
  then have "code a = code b \<and> xs = ys" by (metis div_mult_mod_eq prod.inject)
  then show ?thesis by simp
qed

lemma utf8_Cons: "utf8 (c # s) = utf8_char c @ utf8 s"
  by (simp add: utf8_def)

lemma utf8_inject [simp]: "utf8 s = utf8 t \<longleftrightarrow> s = t"
proof
  have ne: "utf8 (c # s) \<noteq> []" for c s
    by (simp add: utf8_Cons utf8_char_def Let_def)
  show "utf8 s = utf8 t \<Longrightarrow> s = t"
  proof (induction s arbitrary: t)
    case Nil
    then show ?case using ne by (cases t) (auto simp: utf8_def)
  next
    case (Cons c s)
    then obtain d t' where t: "t = d # t'" using ne by (cases t) (auto simp: utf8_def)
    then have "utf8_char c @ utf8 s = utf8_char d @ utf8 t'" using Cons.prems by (simp add: utf8_Cons)
    then show ?case using Cons.IH t utf8_char_prefix by blast
  qed
qed simp

text \<open>Big-endian words.\<close>

definition word_of_bytes :: "u8 \<Rightarrow> u8 \<Rightarrow> u8 \<Rightarrow> u8 \<Rightarrow> u32" where
  "word_of_bytes a b c d =
     (push_bit 24 (ucast a) OR push_bit 16 (ucast b) OR push_bit 8 (ucast c) OR ucast d)"

definition bytes_of_word :: "u32 \<Rightarrow> bytes" where
  "bytes_of_word w =
     [ucast (drop_bit 24 w), ucast (drop_bit 16 w), ucast (drop_bit 8 w), ucast w]"

fun words_of_bytes :: "bytes \<Rightarrow> u32 list" where
  "words_of_bytes (a # b # c # d # bs) = word_of_bytes a b c d # words_of_bytes bs"
| "words_of_bytes _ = []"

text \<open>The message, a one bit, zeros up to 56 modulo 64 bytes, and the bit length in 64 bits.\<close>

definition md_pad :: "bytes \<Rightarrow> bytes" where
  "md_pad msg =
     (let n = length msg; bits = 8 * n; z = (119 - n mod 64) mod 64
      in msg @ [0x80] @ replicate z 0
         @ bytes_of_word (of_nat (bits div 2 ^ 32)) @ bytes_of_word (of_nat bits))"

function blocks :: "'a list \<Rightarrow> 'a list list" where
  "blocks ws = (if ws = [] then [] else take 16 ws # blocks (drop 16 ws))"
  by pat_completeness auto
termination
  by (relation "measure length") auto

declare blocks.simps [simp del]

section \<open>SHA-256\<close>

definition rotr :: "nat \<Rightarrow> u32 \<Rightarrow> u32" where
  "rotr n w = (drop_bit n w OR push_bit (32 - n) w)"

definition rotl :: "nat \<Rightarrow> u32 \<Rightarrow> u32" where
  "rotl n w = (push_bit n w OR drop_bit (32 - n) w)"

definition sha256_k :: "u32 list" where
  "sha256_k =
     [1116352408, 1899447441, 3049323471, 3921009573, 961987163, 1508970993,
      2453635748, 2870763221, 3624381080, 310598401, 607225278, 1426881987,
      1925078388, 2162078206, 2614888103, 3248222580, 3835390401, 4022224774,
      264347078, 604807628, 770255983, 1249150122, 1555081692, 1996064986,
      2554220882, 2821834349, 2952996808, 3210313671, 3336571891, 3584528711,
      113926993, 338241895, 666307205, 773529912, 1294757372, 1396182291,
      1695183700, 1986661051, 2177026350, 2456956037, 2730485921, 2820302411,
      3259730800, 3345764771, 3516065817, 3600352804, 4094571909, 275423344,
      430227734, 506948616, 659060556, 883997877, 958139571, 1322822218,
      1537002063, 1747873779, 1955562222, 2024104815, 2227730452, 2361852424,
      2428436474, 2756734187, 3204031479, 3329325298]"

type_synonym digest8 = "u32 \<times> u32 \<times> u32 \<times> u32 \<times> u32 \<times> u32 \<times> u32 \<times> u32"

definition sha256_init :: digest8 where
  "sha256_init =
     (0x6a09e667, 0xbb67ae85, 0x3c6ef372, 0xa54ff53a,
      0x510e527f, 0x9b05688c, 0x1f83d9ab, 0x5be0cd19)"

text \<open>The message schedule, latest word first.\<close>

fun sha256_schedule :: "nat \<Rightarrow> u32 list \<Rightarrow> u32 list" where
  "sha256_schedule 0 ws = ws"
| "sha256_schedule (Suc n) ws =
     (let x = ws ! 14; y = ws ! 1;
          s0 = rotr 7 x XOR rotr 18 x XOR drop_bit 3 x;
          s1 = rotr 17 y XOR rotr 19 y XOR drop_bit 10 y
      in sha256_schedule n ((ws ! 15 + s0 + ws ! 6 + s1) # ws))"

fun sha256_round :: "digest8 \<Rightarrow> u32 \<times> u32 \<Rightarrow> digest8" where
  "sha256_round (a, b, c, d, e, f, g, h) (k, w) =
     (let s1 = rotr 6 e XOR rotr 11 e XOR rotr 25 e;
          ch = (e AND f) XOR (NOT e AND g);
          t1 = h + s1 + ch + k + w;
          s0 = rotr 2 a XOR rotr 13 a XOR rotr 22 a;
          maj = (a AND b) XOR (a AND c) XOR (b AND c);
          t2 = s0 + maj
      in (t1 + t2, a, b, c, d + t1, e, f, g))"

fun add8 :: "digest8 \<Rightarrow> digest8 \<Rightarrow> digest8" where
  "add8 (a, b, c, d, e, f, g, h) (a', b', c', d', e', f', g', h') =
     (a + a', b + b', c + c', d + d', e + e', f + f', g + g', h + h')"

definition sha256_block :: "digest8 \<Rightarrow> u32 list \<Rightarrow> digest8" where
  "sha256_block s ws =
     add8 s (foldl sha256_round s (zip sha256_k (rev (sha256_schedule 48 (rev ws)))))"

fun bytes8 :: "digest8 \<Rightarrow> bytes" where
  "bytes8 (a, b, c, d, e, f, g, h) = concat (map bytes_of_word [a, b, c, d, e, f, g, h])"

definition sha256 :: "bytes \<Rightarrow> bytes" where
  "sha256 msg = bytes8 (foldl sha256_block sha256_init (blocks (words_of_bytes (md_pad msg))))"

section \<open>SHA-1\<close>

type_synonym digest5 = "u32 \<times> u32 \<times> u32 \<times> u32 \<times> u32"

definition sha1_init :: digest5 where
  "sha1_init = (0x67452301, 0xefcdab89, 0x98badcfe, 0x10325476, 0xc3d2e1f0)"

fun sha1_schedule :: "nat \<Rightarrow> u32 list \<Rightarrow> u32 list" where
  "sha1_schedule 0 ws = ws"
| "sha1_schedule (Suc n) ws =
     sha1_schedule n (rotl 1 (ws ! 2 XOR ws ! 7 XOR ws ! 13 XOR ws ! 15) # ws)"

fun sha1_round :: "digest5 \<Rightarrow> nat \<times> u32 \<Rightarrow> digest5" where
  "sha1_round (a, b, c, d, e) (t, w) =
     (let (f, k) =
        (if t < 20 then ((b AND c) OR (NOT b AND d), 0x5a827999)
         else if t < 40 then (b XOR c XOR d, 0x6ed9eba1)
         else if t < 60 then ((b AND c) OR (b AND d) OR (c AND d), 0x8f1bbcdc)
         else (b XOR c XOR d, 0xca62c1d6))
      in (rotl 5 a + f + e + k + w, a, rotl 30 b, c, d))"

fun add5 :: "digest5 \<Rightarrow> digest5 \<Rightarrow> digest5" where
  "add5 (a, b, c, d, e) (a', b', c', d', e') = (a + a', b + b', c + c', d + d', e + e')"

definition sha1_block :: "digest5 \<Rightarrow> u32 list \<Rightarrow> digest5" where
  "sha1_block s ws = add5 s (foldl sha1_round s (zip [0..<80] (rev (sha1_schedule 64 (rev ws)))))"

fun bytes5 :: "digest5 \<Rightarrow> bytes" where
  "bytes5 (a, b, c, d, e) = concat (map bytes_of_word [a, b, c, d, e])"

definition sha1 :: "bytes \<Rightarrow> bytes" where
  "sha1 msg = bytes5 (foldl sha1_block sha1_init (blocks (words_of_bytes (md_pad msg))))"

section \<open>HMAC and hexadecimal digests\<close>

definition hmac_key :: "bytes \<Rightarrow> bytes" where
  "hmac_key k = (let k' = (if 64 < length k then sha256 k else k)
                 in k' @ replicate (64 - length k') 0)"

definition hmac_sha256 :: "bytes \<Rightarrow> bytes \<Rightarrow> bytes" where
  "hmac_sha256 key msg =
     (let k = hmac_key key
      in sha256 (map (\<lambda>b. b XOR 0x5c) k @ sha256 (map (\<lambda>b. b XOR 0x36) k @ msg)))"

definition hex :: "bytes \<Rightarrow> string" where
  "hex bs = concat (map (\<lambda>b. hex2 (unat b)) bs)"

lemma length_hex [simp]: "length (hex bs) = 2 * length bs"
  by (induction bs) (simp_all add: hex_def hex2_def)

lemma length_bytes_of_word [simp]: "length (bytes_of_word w) = 4"
  by (simp add: bytes_of_word_def)

lemma length_bytes8 [simp]: "length (bytes8 s) = 32"
proof -
  obtain a b c d e f g h where "s = (a, b, c, d, e, f, g, h)" by (metis surj_pair)
  then show ?thesis by simp
qed

lemma length_sha256 [simp]: "length (sha256 msg) = 32"
  by (simp add: sha256_def)

lemma length_sha1 [simp]: "length (sha1 msg) = 20"
  unfolding sha1_def
  by (cases "foldl sha1_block sha1_init (blocks (words_of_bytes (md_pad msg)))"
        rule: prod_cases5) simp

lemma length_hmac_sha256 [simp]: "length (hmac_sha256 k msg) = 32"
  by (simp add: hmac_sha256_def Let_def)

lemma hex_digit_inj: "a < 16 \<Longrightarrow> b < 16 \<Longrightarrow> hex_digit a = hex_digit b \<Longrightarrow> a = b"
  by (auto simp: hex_digit_def split: if_splits)

lemma hex2_inj: "n < 256 \<Longrightarrow> m < 256 \<Longrightarrow> hex2 n = hex2 m \<Longrightarrow> n = m"
proof -
  assume "n < 256" "m < 256" "hex2 n = hex2 m"
  then have "n div 16 = m div 16 \<and> n mod 16 = m mod 16"
    by (auto simp: hex2_def less_mult_imp_div_less intro!: hex_digit_inj)
  then show "n = m" by (metis div_mult_mod_eq)
qed

lemma hex_inject [simp]: "hex xs = hex ys \<longleftrightarrow> xs = ys"
proof
  have l: "unat (b :: u8) < 256" for b
  proof -
    have "unat b < 2 ^ LENGTH(8)" by (rule unsigned_less)
    then show ?thesis by simp
  qed
  show "hex xs = hex ys \<Longrightarrow> xs = ys"
  proof (induction xs arbitrary: ys)
    case Nil
    then show ?case by (cases ys) (auto simp: hex_def hex2_def)
  next
    case (Cons b xs)
    then obtain d ds where ys: "ys = d # ds" by (cases ys) (auto simp: hex_def hex2_def)
    then have "hex2 (unat b) @ hex xs = hex2 (unat d) @ hex ds"
      using Cons.prems by (simp add: hex_def)
    moreover have "length (hex2 (unat b)) = length (hex2 (unat d))" by (simp add: hex2_def)
    ultimately have "hex2 (unat b) = hex2 (unat d)" "hex xs = hex ds" by simp_all
    moreover have "unat b = unat d" using \<open>hex2 (unat b) = hex2 (unat d)\<close> by (rule hex2_inj [OF l l])
    ultimately show ?case using Cons.IH ys by (simp add: word_unat_eq_iff)
  qed
qed simp

definition is_hex :: "char \<Rightarrow> bool" where
  "is_hex c \<longleftrightarrow> is_ascii_digit c \<or> (97 \<le> code c \<and> code c \<le> 102)"

lemma is_hex_digit: "d < 16 \<Longrightarrow> is_hex (hex_digit d)"
  by (auto simp: is_hex_def hex_digit_def is_ascii_digit_def of_char_of)

lemma hex_chars: "c \<in> set (hex bs) \<Longrightarrow> is_hex c"
proof -
  have "unat (b :: u8) div 16 < 16" for b
  proof -
    have "unat b < 2 ^ LENGTH(8)" by (rule unsigned_less)
    then show ?thesis by (simp add: less_mult_imp_div_less)
  qed
  then show "c \<in> set (hex bs) \<Longrightarrow> is_hex c"
    by (auto simp: hex_def hex2_def intro!: is_hex_digit)
qed

lemma is_hex_not_space: "is_hex c \<Longrightarrow> \<not> is_space c"
  by (auto simp: is_hex_def is_ascii_digit_def is_space_def py_whitespace_def)

lemma is_hex_lower: "is_hex c \<Longrightarrow> char_lower c = c"
  by (auto simp: is_hex_def is_ascii_digit_def char_lower_def)

lemma lower_hex [simp]: "lower (hex bs) = hex bs"
  unfolding lower_def by (rule map_idI) (auto dest: hex_chars intro: is_hex_lower)

lemma strip_hex [simp]: "strip (hex bs) = hex bs"
  by (rule strip_no_space) (auto dest: hex_chars is_hex_not_space)

end
