(* ===== verification/Settings.thy ===== *)
theory Settings
  imports Py_Hash
begin

text \<open>
  The part of \<open>config/settings.py\<close> the modelled code reads, with the values it has when no
  environment variable is set, and the parser of \<open>WEBHOOK_SIGNING_SECRETS\<close>.
\<close>

record settings =
  OPENAI_API_KEY :: string
  NORMALIZATION_BACKEND :: string
  NORMALIZATION_PROMPT_VERSION :: string
  LOW_CONFIDENCE_THRESHOLD :: rat
  DEFAULT_PAGE_SIZE :: int
  MAX_PAGE_SIZE :: int
  WEBHOOK_SIGNING_SECRETS :: "(string, string) dict"
  WEBHOOK_REQUIRE_SIGNATURE :: bool
  NORMALIZATION_QUEUE :: string
  NORMALIZATION_BULK_QUEUE :: string
  NOISY_VENDOR_BURST :: int
  NOISY_VENDOR_WINDOW_SECONDS :: int

text \<open>One pair of \<open>vendor=secret,other=secret\<close>, split at its first equals sign.\<close>

definition parse_secret_pair :: "string \<Rightarrow> (string \<times> string) option" where
  "parse_secret_pair raw =
     (let pair = strip raw in
      if pair = [] then None
      else (case split_once (CHR ''='') pair of
              None \<Rightarrow> None
            | Some (vendor, secret) \<Rightarrow>
                (let v = lower (strip vendor); s = strip secret in
                 if v \<noteq> [] \<and> s \<noteq> [] then Some (v, s) else None)))"

definition parse_signing_secrets :: "string \<Rightarrow> (string, string) dict" where
  "parse_signing_secrets raw =
     fold (\<lambda>piece secrets. case parse_secret_pair piece of
                             None \<Rightarrow> secrets
                           | Some (v, s) \<Rightarrow> dict_set v s secrets)
       (split_on (CHR '','') raw) []"

definition default_settings :: settings where
  "default_settings =
     \<lparr> OPENAI_API_KEY = '''',
       NORMALIZATION_BACKEND = ''auto'',
       NORMALIZATION_PROMPT_VERSION = ''v1'',
       LOW_CONFIDENCE_THRESHOLD = 7 / 10,
       DEFAULT_PAGE_SIZE = 50,
       MAX_PAGE_SIZE = 200,
       WEBHOOK_SIGNING_SECRETS = parse_signing_secrets '''',
       WEBHOOK_REQUIRE_SIGNATURE = False,
       NORMALIZATION_QUEUE = ''normalization'',
       NORMALIZATION_BULK_QUEUE = ''normalization.bulk'',
       NOISY_VENDOR_BURST = 200,
       NOISY_VENDOR_WINDOW_SECONDS = 60 \<rparr>"

lemma default_settings_simps [simp]:
  "OPENAI_API_KEY default_settings = []" "NORMALIZATION_BACKEND default_settings = ''auto''"
  "LOW_CONFIDENCE_THRESHOLD default_settings = 7 / 10"
  "DEFAULT_PAGE_SIZE default_settings = 50" "MAX_PAGE_SIZE default_settings = 200"
  "WEBHOOK_REQUIRE_SIGNATURE default_settings = False"
  "NORMALIZATION_QUEUE default_settings = ''normalization''"
  "NORMALIZATION_BULK_QUEUE default_settings = ''normalization.bulk''"
  "NOISY_VENDOR_BURST default_settings = 200" "NOISY_VENDOR_WINDOW_SECONDS default_settings = 60"
  by (simp_all add: default_settings_def)

section \<open>The secrets setting is parsed back as it was written\<close>

text \<open>
  How an operator writes one pair, and when a table can be written at all: vendors in lower
  case without the separators, secrets without a comma (an equals sign is allowed).
\<close>

definition show_secret_pair :: "string \<times> string \<Rightarrow> string" where
  "show_secret_pair p = fst p @ ''='' @ snd p"

definition trimmed :: "string \<Rightarrow> bool" where
  "trimmed s \<longleftrightarrow> s \<noteq> [] \<and> \<not> is_space (hd s) \<and> \<not> is_space (last s)"

definition writable_pair :: "string \<times> string \<Rightarrow> bool" where
  "writable_pair p \<longleftrightarrow>
     trimmed (fst p) \<and> trimmed (snd p) \<and> lower (fst p) = fst p
     \<and> CHR ''='' \<notin> set (fst p) \<and> CHR '','' \<notin> set (fst p) \<and> CHR '','' \<notin> set (snd p)"

lemma trimmed_strip [simp]: "trimmed s \<Longrightarrow> strip s = s"
  unfolding strip_def by (rule strip_by_fixed) (auto simp: trimmed_def)

lemma parse_show_secret_pair:
  assumes "writable_pair p"
  shows "parse_secret_pair (show_secret_pair p) = Some p"
proof -
  obtain v s where p: "p = (v, s)" by (cases p)
  have w: "trimmed v" "trimmed s" "lower v = v" "CHR ''='' \<notin> set v"
    using assms by (auto simp: writable_pair_def p)
  have "trimmed (v @ ''='' @ s)"
    using w(1,2) by (cases v; cases s) (auto simp: trimmed_def)
  moreover have "split_once (CHR ''='') (v @ ''='' @ s) = Some (v, s)"
    using w(4) by (simp add: split_once_Some)
  ultimately show ?thesis
    using w by (simp add: parse_secret_pair_def show_secret_pair_def p trimmed_def)
qed

lemma split_on_append_sep:
  "c \<notin> set p \<Longrightarrow> split_on c (p @ c # s) = p # split_on c s"
  by (induction p) auto

lemma split_on_single: "c \<notin> set p \<Longrightarrow> split_on c p = [p]"
  by (induction p) auto

lemma split_on_join:
  "ps \<noteq> [] \<Longrightarrow> (\<And>p. p \<in> set ps \<Longrightarrow> c \<notin> set p) \<Longrightarrow> split_on c (join [c] ps) = ps"
proof (induction "[c]" ps rule: join.induct)
  case (2 s)
  then show ?case by (simp add: split_on_single)
next
  case (3 s t ss)
  then show ?case by (simp add: split_on_append_sep)
qed simp

lemma fold_dict_set_new:
  "distinct (map fst acc @ map fst ps) \<Longrightarrow>
     fold (\<lambda>(v, s) secrets. dict_set v s secrets) ps acc = acc @ ps"
proof (induction ps arbitrary: acc)
  case (Cons p ps)
  obtain v s where p: "p = (v, s)" by (cases p)
  have "v \<notin> set (map fst acc)" using Cons.prems p by auto
  then have "dict_set v s acc = acc @ [(v, s)]" by (induction acc) auto
  then show ?case using Cons.IH [of "acc @ [(v, s)]"] Cons.prems p by simp
qed simp

lemma parse_signing_secrets_wf: "dict_wf (parse_signing_secrets raw)"
proof -
  have "dict_wf acc \<Longrightarrow> dict_wf (fold (\<lambda>piece secrets. case parse_secret_pair piece of
      None \<Rightarrow> secrets | Some (v, s) \<Rightarrow> dict_set v s secrets) pieces acc)" for pieces acc
    by (induction pieces arbitrary: acc) (auto split: option.split)
  then show ?thesis by (simp add: parse_signing_secrets_def)
qed

text \<open>Round trip of the signing-secret setting: a table of vendors and secrets, written as
  \<open>vendor=secret\<close> pairs joined by commas, is parsed back to exactly that table; in particular a
  secret containing an equals sign survives.
\<close>

theorem signing_secrets_roundtrip:
  assumes "table \<noteq> []" and "\<forall>p \<in> set table. writable_pair p" and "distinct (map fst table)"
  shows "parse_signing_secrets (join '','' (map show_secret_pair table)) = table"
proof -
  have nocomma: "CHR '','' \<notin> set q" if "q \<in> set (map show_secret_pair table)" for q
    using that assms(2) by (auto simp: show_secret_pair_def writable_pair_def)
  have split: "split_on (CHR '','') (join '','' (map show_secret_pair table)) = map show_secret_pair table"
    using assms(1) nocomma by (intro split_on_join) auto
  have "fold (\<lambda>piece secrets. case parse_secret_pair piece of
      None \<Rightarrow> secrets | Some (v, s) \<Rightarrow> dict_set v s secrets) (map show_secret_pair ps) acc
      = fold (\<lambda>(v, s) secrets. dict_set v s secrets) ps acc"
    if "\<forall>p \<in> set ps. writable_pair p" for ps acc
    using that by (induction ps arbitrary: acc) (auto simp: parse_show_secret_pair split: prod.split)
  then show ?thesis
    using assms split by (simp add: parse_signing_secrets_def fold_dict_set_new)
qed

theorem signing_secrets_roundtrip_witness:
  "parse_signing_secrets (join '','' (map show_secret_pair [(''maersk'', ''a=b=''), (''*'', ''s'')]))
     = [(''maersk'', ''a=b=''), (''*'', ''s'')]"
  by (rule signing_secrets_roundtrip)
     (simp_all add: writable_pair_def trimmed_def is_space_def py_whitespace_def lower_def
        char_lower_def)

end
