(* ===== verification/Routing.thy ===== *)
theory Routing
  imports Settings
begin

text \<open>
  \<open>apps/ingestion/routing.py\<close>: counting a vendor's arrivals in a fixed window and choosing the
  queue, over the state of Django's cache.  The cache is a map from keys to a value and its
  expiry; the operations below are the documented effects of \<open>add\<close>, \<open>incr\<close>, \<open>set\<close>, \<open>get\<close> and
  \<open>delete\<close>.  Times are seconds.  A cache that cannot be reached is the argument \<open>up = False\<close>.
  The warning the code logs has no effect on the result and is left out.
\<close>

section \<open>The cache\<close>

type_synonym 'v cache = "string \<rightharpoonup> 'v \<times> rat"

definition cache_get :: "'v cache \<Rightarrow> rat \<Rightarrow> string \<Rightarrow> 'v option" where
  "cache_get c now k =
     (case c k of None \<Rightarrow> None | Some (v, expiry) \<Rightarrow> if now < expiry then Some v else None)"

definition cache_set :: "'v cache \<Rightarrow> rat \<Rightarrow> string \<Rightarrow> 'v \<Rightarrow> int \<Rightarrow> 'v cache" where
  "cache_set c now k v timeout = c(k \<mapsto> (v, now + of_int timeout))"

definition cache_add :: "'v cache \<Rightarrow> rat \<Rightarrow> string \<Rightarrow> 'v \<Rightarrow> int \<Rightarrow> 'v cache" where
  "cache_add c now k v timeout =
     (if cache_get c now k = None then cache_set c now k v timeout else c)"

definition cache_incr :: "int cache \<Rightarrow> rat \<Rightarrow> string \<Rightarrow> (int \<times> int cache) result" where
  "cache_incr c now k =
     (case c k of
        None \<Rightarrow> Inl (ValueError ''Key not found'')
      | Some (v, expiry) \<Rightarrow>
          if now < expiry then Inr (v + 1, c(k \<mapsto> (v + 1, expiry)))
          else Inl (ValueError ''Key not found''))"

definition cache_delete :: "'v cache \<Rightarrow> string \<Rightarrow> 'v cache" where
  "cache_delete c k = c(k := None)"

section \<open>Counting and routing\<close>

definition rate_prefix :: string where
  "rate_prefix = ''vendor-rate:v1:''"

definition digest :: "string \<Rightarrow> string" where
  "digest vendor =
     take 20 (hex (sha1 (utf8 (lower (strip (if vendor = [] then ''unknown'' else vendor))))))"

definition window_bucket :: "int \<Rightarrow> rat \<Rightarrow> int" where
  "window_bucket window_seconds now = \<lfloor>now / of_int window_seconds\<rfloor>"

definition window_key :: "string \<Rightarrow> int \<Rightarrow> rat \<Rightarrow> string" where
  "window_key vendor window_seconds now =
     rate_prefix @ digest vendor @ '':'' @ int_str window_seconds @ '':''
     @ int_str (window_bucket window_seconds now)"

definition window_of :: "settings \<Rightarrow> int" where
  "window_of cfg = (if NOISY_VENDOR_WINDOW_SECONDS cfg = 0 then 60
                    else NOISY_VENDOR_WINDOW_SECONDS cfg)"

definition record_arrival ::
  "settings \<Rightarrow> bool \<Rightarrow> string \<Rightarrow> rat \<Rightarrow> int cache \<Rightarrow> int \<times> int cache" where
  "record_arrival cfg up vendor now c =
     (let window = window_of cfg; key = window_key vendor window now in
      if \<not> up then (0, c)
      else let c' = cache_add c now key 0 (window * 2) in
           (case cache_incr c' now key of Inr (n, c'') \<Rightarrow> (n, c'') | Inl _ \<Rightarrow> (0, c')))"

definition queue_for_vendor :: "settings \<Rightarrow> string \<Rightarrow> int \<Rightarrow> string" where
  "queue_for_vendor cfg vendor arrivals =
     (let burst = NOISY_VENDOR_BURST cfg in
      if burst \<le> 0 \<or> arrivals \<le> burst then NORMALIZATION_QUEUE cfg
      else NORMALIZATION_BULK_QUEUE cfg)"

definition route_for ::
  "settings \<Rightarrow> bool \<Rightarrow> string \<Rightarrow> rat \<Rightarrow> int cache \<Rightarrow> string \<times> int cache" where
  "route_for cfg up vendor now c =
     (let (n, c') = record_arrival cfg up vendor now c in (queue_for_vendor cfg vendor n, c'))"

text \<open>One vendor's arrivals, one after the other: the queues they are sent to.\<close>

fun route_all :: "settings \<Rightarrow> string \<Rightarrow> rat list \<Rightarrow> int cache \<Rightarrow> string list \<times> int cache" where
  "route_all cfg vendor [] c = ([], c)"
| "route_all cfg vendor (t # ts) c =
     (let (q, c') = route_for cfg True vendor t c; (qs, c'') = route_all cfg vendor ts c'
      in (q # qs, c''))"

section \<open>Window keys\<close>

lemma length_digest [simp]: "length (digest vendor) = 20"
  by (simp add: digest_def)

lemma int_str_inject [simp]: "int_str a = int_str b \<longleftrightarrow> a = b"
  by (metis option.inject py_int_int_str)

lemma window_key_eq:
  "window_key v w t = window_key v' w t' \<longleftrightarrow>
     digest v = digest v' \<and> window_bucket w t = window_bucket w t'"
  by (auto simp: window_key_def)

lemma window_bucket_diff:
  assumes "0 < w" "window_bucket w s = window_bucket w t"
  shows "t < s + of_int w"
proof -
  have w: "(0 :: rat) < of_int w" using assms(1) by simp
  have "t / of_int w < of_int (window_bucket w t) + 1"
    unfolding window_bucket_def by linarith
  moreover have "of_int (window_bucket w s) \<le> s / of_int w"
    unfolding window_bucket_def by linarith
  ultimately have "t / of_int w < s / of_int w + 1" using assms(2) by simp
  then have "t < (s / of_int w + 1) * of_int w" using w by (simp add: pos_divide_less_eq)
  then show ?thesis using w by (simp add: distrib_right)
qed

section \<open>Counting one window\<close>

text \<open>Invariant of a window: the counter is live for the whole window and holds the arrivals.\<close>

definition counter_at :: "int cache \<Rightarrow> string \<Rightarrow> int \<Rightarrow> int \<Rightarrow> int \<Rightarrow> bool" where
  "counter_at c vendor w b n \<longleftrightarrow>
     (\<exists>expiry. (\<forall>t. window_bucket w t = b \<longrightarrow> c (window_key vendor w t) = Some (n, expiry) \<and> t < expiry))"

lemma record_arrival_counts:
  assumes "counter_at c vendor (window_of cfg) b n" "window_bucket (window_of cfg) t = b"
  shows "fst (record_arrival cfg True vendor t c) = n + 1"
    and "counter_at (snd (record_arrival cfg True vendor t c)) vendor (window_of cfg) b (n + 1)"
proof -
  let ?w = "window_of cfg" and ?k = "window_key vendor (window_of cfg) t"
  obtain x where x: "\<And>s. window_bucket ?w s = b \<Longrightarrow> c (window_key vendor ?w s) = Some (n, x) \<and> s < x"
    using assms(1) by (auto simp: counter_at_def)
  have key: "c ?k = Some (n, x)" "t < x" using x assms(2) by auto
  then have r: "record_arrival cfg True vendor t c = (n + 1, c(?k \<mapsto> (n + 1, x)))"
    by (simp add: record_arrival_def cache_add_def cache_incr_def cache_get_def)
  then show "fst (record_arrival cfg True vendor t c) = n + 1" by simp
  have "window_key vendor ?w s = ?k" if "window_bucket ?w s = b" for s
    using that assms(2) by (simp add: window_key_eq)
  then show "counter_at (snd (record_arrival cfg True vendor t c)) vendor ?w b (n + 1)"
    using x r by (auto simp: counter_at_def)
qed

lemma record_arrival_first:
  assumes "0 < window_of cfg" "c (window_key vendor (window_of cfg) t) = None"
  shows "fst (record_arrival cfg True vendor t c) = 1"
    and "counter_at (snd (record_arrival cfg True vendor t c)) vendor (window_of cfg)
           (window_bucket (window_of cfg) t) 1"
proof -
  let ?w = "window_of cfg" and ?k = "window_key vendor (window_of cfg) t"
  have r: "record_arrival cfg True vendor t c = (1, c(?k \<mapsto> (1, t + of_int (?w * 2))))"
    using assms by (simp add: record_arrival_def cache_add_def cache_incr_def cache_get_def cache_set_def
      Let_def)
  then show "fst (record_arrival cfg True vendor t c) = 1" by simp
  have "s < t + of_int (?w * 2) \<and> window_key vendor ?w s = ?k"
    if "window_bucket ?w s = window_bucket ?w t" for s
  proof -
    have "s < t + of_int ?w" using window_bucket_diff [OF assms(1)] that by metis
    moreover have "(of_int ?w :: rat) \<le> of_int (?w * 2)" using assms(1) by simp
    ultimately show ?thesis using that by (simp add: window_key_eq)
  qed
  note live = this
  show "counter_at (snd (record_arrival cfg True vendor t c)) vendor ?w (window_bucket ?w t) 1"
    unfolding counter_at_def
  proof (intro exI allI impI)
    fix s
    assume "window_bucket ?w s = window_bucket ?w t"
    from live [OF this] r
    show "snd (record_arrival cfg True vendor t c) (window_key vendor ?w s)
        = Some (1, t + of_int (?w * 2)) \<and> s < t + of_int (?w * 2)"
      by simp
  qed
qed

lemma record_arrival_other_keys:
  "k \<noteq> window_key vendor (window_of cfg) t \<Longrightarrow> snd (record_arrival cfg up vendor t c) k = c k"
  by (auto simp: record_arrival_def cache_add_def cache_set_def cache_incr_def Let_def
      split: option.splits prod.splits)

text \<open>The queue of the arrival that makes the count \<open>n\<close>.\<close>

abbreviation queue_of_count :: "settings \<Rightarrow> int \<Rightarrow> string" where
  "queue_of_count cfg n \<equiv>
     (if 0 < NOISY_VENDOR_BURST cfg \<and> NOISY_VENDOR_BURST cfg < n
      then NORMALIZATION_BULK_QUEUE cfg else NORMALIZATION_QUEUE cfg)"

lemma queue_for_vendor_eq: "queue_for_vendor cfg vendor n = queue_of_count cfg n"
  by (auto simp: queue_for_vendor_def Let_def)

lemma route_all_counting:
  assumes "counter_at c vendor (window_of cfg) b n"
    and "\<forall>t \<in> set ts. window_bucket (window_of cfg) t = b"
  shows "fst (route_all cfg vendor ts c) =
    map (\<lambda>i. queue_of_count cfg (n + 1 + int i)) [0..<length ts]"
  using assms
proof (induction ts arbitrary: c n)
  case (Cons t ts)
  obtain k c' where r: "record_arrival cfg True vendor t c = (k, c')"
    by (cases "record_arrival cfg True vendor t c")
  then have k: "k = n + 1" and c': "counter_at c' vendor (window_of cfg) b (n + 1)"
    using record_arrival_counts [of c vendor cfg b n t] Cons.prems by auto
  have "fst (route_all cfg vendor ts c') =
      map (\<lambda>i. queue_of_count cfg (n + 1 + 1 + int i)) [0..<length ts]"
    using Cons.IH [OF c'] Cons.prems by simp
  moreover have "[0..<length (t # ts)] = 0 # map Suc [0..<length ts]"
    by (simp add: upt_0_Suc del: upt_Suc)
  ultimately show ?case
    using k by (simp add: route_for_def r queue_for_vendor_eq split_beta comp_def add_ac)
qed simp

lemma route_all_fresh:
  assumes "0 < window_of cfg"
    and "\<forall>t \<in> set ts. window_bucket (window_of cfg) t = b"
    and "\<forall>t \<in> set ts. c (window_key vendor (window_of cfg) t) = None"
  shows "fst (route_all cfg vendor ts c) = map (\<lambda>i. queue_of_count cfg (1 + int i)) [0..<length ts]"
proof (cases ts)
  case (Cons t us)
  obtain k c' where r: "record_arrival cfg True vendor t c = (k, c')"
    by (cases "record_arrival cfg True vendor t c")
  then have k: "k = 1" and c': "counter_at c' vendor (window_of cfg) b 1"
    using record_arrival_first [of cfg c vendor t] assms Cons by auto
  have "fst (route_all cfg vendor us c') =
      map (\<lambda>i. queue_of_count cfg (1 + 1 + int i)) [0..<length us]"
    using route_all_counting [OF c'] assms(2) Cons by simp
  moreover have "[0..<length ts] = 0 # map Suc [0..<length us]"
    by (simp add: Cons upt_0_Suc del: upt_Suc)
  ultimately show ?thesis
    using k Cons by (simp add: route_for_def r queue_for_vendor_eq split_beta comp_def add_ac)
qed simp

section \<open>Properties\<close>



text \<open>Routing fails open: with the cache unreachable a webhook goes to the default queue and no
  counter changes, for every vendor, time and burst setting.
\<close>

theorem routing_fails_open:
  "route_for cfg False vendor now c = (NORMALIZATION_QUEUE cfg, c)"
  by (auto simp: route_for_def record_arrival_def queue_for_vendor_def Let_def)

end
