(* ===== verification/Vendors.thy ===== *)
theory Vendors
  imports Columns Schemas Routing
begin

text \<open>
  \<open>apps/normalization/vendors.py\<close>, \<open>VendorProfileRepository\<close>, the profile endpoints, the write
  serializer and the profile admin: what is known about a vendor, where it is stored, and the
  cache in front of it.  The cache keeps a profile or the marker \<open>_MISS\<close>; here that is a
  profile option.
\<close>

section \<open>Profiles\<close>

record vendor_profile_spec =
  vs_vendor :: string
  vs_entity_type :: string
  vs_id_paths :: "string list"
  vs_status_paths :: "string list"
  vs_time_paths :: "string list"
  vs_status_map :: "(string, string) dict"
  vs_source :: string
  vs_sample_count :: nat
  vs_notes :: string

type_synonym pinned = "(string, vendor_profile_spec) dict"

type_synonym profile_cache = "vendor_profile_spec option cache"

definition PROFILE_CACHE_SECONDS :: int where
  "PROFILE_CACHE_SECONDS = 60"

definition cache_prefix :: string where
  "cache_prefix = ''vendor-profile:v1:''"

definition vendor_key :: "string \<Rightarrow> string" where
  "vendor_key vendor = lower (strip vendor)"

definition cache_key :: "string \<Rightarrow> string" where
  "cache_key k = cache_prefix @ take 20 (hex (sha1 (utf8 k)))"

definition register_profile :: "vendor_profile_spec \<Rightarrow> pinned \<Rightarrow> pinned" where
  "register_profile spec = dict_set (vendor_key (vs_vendor spec)) spec"

definition registered_profiles :: "pinned \<Rightarrow> vendor_profile_spec list" where
  "registered_profiles p = map snd p"

text \<open>Tokens mapped to null, or to an empty string, are dropped.\<close>

definition drop_unmapped :: "(string, string option) dict \<Rightarrow> (string, string) dict" where
  "drop_unmapped m =
     map (\<lambda>(t, c). (t, the c)) (filter (\<lambda>(t, c). c \<noteq> None \<and> c \<noteq> Some []) m)"

definition spec_from_model :: "vendor_profile \<Rightarrow> vendor_profile_spec" where
  "spec_from_model row =
     \<lparr> vs_vendor = vp_vendor row, vs_entity_type = vp_entity_type row,
       vs_id_paths = vp_id_paths row, vs_status_paths = vp_status_paths row,
       vs_time_paths = vp_time_paths row, vs_status_map = drop_unmapped (vp_status_map row),
       vs_source = vp_source row, vs_sample_count = vp_sample_count row, vs_notes = vp_notes row \<rparr>"

text \<open>\<open>VendorProfile.objects.filter(vendor__iexact=key).first()\<close>: rows are ordered by vendor.\<close>

definition stored_profile :: "vendor_profile list \<Rightarrow> string \<Rightarrow> vendor_profile_spec option" where
  "stored_profile rows k =
     map_option spec_from_model (first_row (\<lambda>r. iexact (vp_vendor r) k) (sort_key vp_vendor rows))"

definition cached_profile ::
  "rat \<Rightarrow> string \<Rightarrow> vendor_profile list \<times> profile_cache \<Rightarrow>
     vendor_profile_spec option \<times> vendor_profile list \<times> profile_cache" where
  "cached_profile now k = (\<lambda>(rows, c).
     case cache_get c now (cache_key k) of
       Some cached \<Rightarrow> (cached, rows, c)
     | None \<Rightarrow>
         (let spec = stored_profile rows k
          in (spec, rows, cache_set c now (cache_key k) spec PROFILE_CACHE_SECONDS)))"

definition profile_for ::
  "pinned \<Rightarrow> rat \<Rightarrow> string \<Rightarrow> vendor_profile list \<times> profile_cache \<Rightarrow>
     vendor_profile_spec option \<times> vendor_profile list \<times> profile_cache" where
  "profile_for pins now vendor st =
     (let k = vendor_key vendor in
      if k = [] then (None, st)
      else case dict_get pins k of
             Some spec \<Rightarrow> (Some spec, st)
           | None \<Rightarrow> cached_profile now k st)"

definition invalidate :: "string \<Rightarrow> profile_cache \<Rightarrow> profile_cache" where
  "invalidate vendor c = cache_delete c (cache_key (vendor_key vendor))"

section \<open>VendorProfileRepository\<close>

definition row_of_spec :: "vendor_profile_spec \<Rightarrow> vendor_profile" where
  "row_of_spec spec =
     \<lparr> vp_vendor = vs_vendor spec, vp_entity_type = vs_entity_type spec,
       vp_id_paths = vs_id_paths spec, vp_status_paths = vs_status_paths spec,
       vp_time_paths = vs_time_paths spec,
       vp_status_map = map (\<lambda>(t, c). (t, Some c)) (vs_status_map spec),
       vp_source = (if vs_source spec = [] then profile_source_value MANUAL else vs_source spec),
       vp_sample_count = vs_sample_count spec, vp_notes = vs_notes spec \<rparr>"

definition save_profile_row :: "vendor_profile_spec \<Rightarrow> vendor_profile list \<Rightarrow> vendor_profile list" where
  "save_profile_row spec rows =
     (let r = row_of_spec spec in
      if \<exists>r' \<in> set rows. vp_vendor r' = vs_vendor spec then save_row vp_vendor r rows
      else rows @ [r])"

definition save_profile ::
  "vendor_profile_spec \<Rightarrow> vendor_profile list \<times> profile_cache \<Rightarrow> vendor_profile list \<times> profile_cache" where
  "save_profile spec = (\<lambda>(rows, c). (save_profile_row spec rows, invalidate (vs_vendor spec) c))"

text \<open>The whole method: what the columns cannot hold is refused, and then nothing is invalidated either.\<close>

definition store_profile ::
  "vendor_profile_spec \<Rightarrow> vendor_profile list \<times> profile_cache \<Rightarrow> (vendor_profile list \<times> profile_cache) result" where
  "store_profile spec st = (if profile_columns (row_of_spec spec) then Inr (save_profile spec st) else Inl too_long)"

definition all_specs :: "vendor_profile list \<Rightarrow> vendor_profile_spec list" where
  "all_specs rows = map spec_from_model (sort_key vp_vendor rows)"

definition delete_profile ::
  "string \<Rightarrow> vendor_profile list \<times> profile_cache \<Rightarrow> nat \<times> vendor_profile list \<times> profile_cache" where
  "delete_profile vendor = (\<lambda>(rows, c).
     (length (filter (\<lambda>r. iexact (vp_vendor r) vendor) rows),
      filter (\<lambda>r. \<not> iexact (vp_vendor r) vendor) rows, invalidate vendor c))"

section \<open>The profile endpoints and the admin\<close>

text \<open>The body of a PUT once its fields have the types the serializer declares.\<close>

record profile_write =
  pw_entity_type :: string
  pw_id_paths :: "string list"
  pw_status_paths :: "string list"
  pw_time_paths :: "string list"
  pw_status_map :: "(string, string) dict"
  pw_notes :: string

definition offending :: "profile_write \<Rightarrow> string list" where
  "offending attrs =
     map fst (filter (\<lambda>(t, v). upper v \<notin> set (allowed_statuses (pw_entity_type attrs)))
                (pw_status_map attrs))"

definition canonical_map :: "(string, string) dict \<Rightarrow> (string, string) dict" where
  "canonical_map m = fold (\<lambda>(t, v). dict_set (lower t) (upper v)) m []"

definition list_repr :: "string list \<Rightarrow> string" where
  "list_repr xs = ''['' @ join '', '' (map str_repr xs) @ '']''"

definition validate_profile_write :: "profile_write \<Rightarrow> profile_write result" where
  "validate_profile_write attrs =
     (if pw_entity_type attrs \<notin> set EntityType_values \<and> pw_entity_type attrs \<noteq> []
      then Inl (ValidationError (str_repr (pw_entity_type attrs) @ '' is not a valid choice.''))
      else if offending attrs \<noteq> []
      then Inl (ValidationError (list_repr (sort (offending attrs)) @ '' do not map to a canonical ''
             @ (if pw_entity_type attrs = [] then ''entity'' else pw_entity_type attrs)
             @ '' status. Allowed: '' @ list_repr (sort (allowed_statuses (pw_entity_type attrs))) @ ''.''))
      else Inr (attrs \<lparr> pw_status_map := canonical_map (pw_status_map attrs) \<rparr>))"

definition spec_of_write :: "string \<Rightarrow> profile_write \<Rightarrow> vendor_profile_spec" where
  "spec_of_write vendor data =
     \<lparr> vs_vendor = vendor, vs_entity_type = pw_entity_type data,
       vs_id_paths = pw_id_paths data, vs_status_paths = pw_status_paths data,
       vs_time_paths = pw_time_paths data, vs_status_map = pw_status_map data,
       vs_source = ''MANUAL'', vs_sample_count = 0, vs_notes = pw_notes data \<rparr>"

definition VendorProfileListView_get ::
  "vendor_profile list \<Rightarrow> (nat \<times> vendor_profile_spec list) response" where
  "VendorProfileListView_get rows = (let specs = all_specs rows in (200, Body (length specs, specs)))"

definition VendorProfileDetailView_get ::
  "pinned \<Rightarrow> rat \<Rightarrow> string \<Rightarrow> vendor_profile list \<times> profile_cache \<Rightarrow>
     vendor_profile_spec response \<times> vendor_profile list \<times> profile_cache" where
  "VendorProfileDetailView_get pins now vendor st =
     (case profile_for pins now vendor st of
        (None, st') \<Rightarrow> ((404, Detail ''No profile for that vendor.''), st')
      | (Some spec, st') \<Rightarrow> ((200, Body spec), st'))"

definition VendorProfileDetailView_put ::
  "string \<Rightarrow> profile_write \<Rightarrow> vendor_profile list \<times> profile_cache \<Rightarrow>
     (vendor_profile_spec response \<times> vendor_profile list \<times> profile_cache) result" where
  "VendorProfileDetailView_put vendor body st =
     (case validate_profile_write body of
        Inl e \<Rightarrow> Inr ((400, Detail (exn_str e)), st)
      | Inr data \<Rightarrow>
          (let spec = spec_of_write vendor data in
           and_then (store_profile spec st) (\<lambda>st'. Inr ((200, Body spec), st'))))"

definition VendorProfileDetailView_delete ::
  "string \<Rightarrow> vendor_profile list \<times> profile_cache \<Rightarrow> unit response \<times> vendor_profile list \<times> profile_cache" where
  "VendorProfileDetailView_delete vendor st =
     (case delete_profile vendor st of
        (n, st') \<Rightarrow> if n = 0 then ((404, Detail ''No profile for that vendor.''), st')
                   else ((204, Body ()), st'))"

text \<open>
  The admin form: it rewrites the row it was opened on, under a possibly new vendor name, and
  then drops the cached profile of the new name.
\<close>

text \<open>The admin's form has been validated when a model is saved: the fields fit and the vendor is unique.
  The object is new, or it replaces the row that has the old vendor.\<close>

definition admin_form_valid :: "string option \<Rightarrow> vendor_profile \<Rightarrow> vendor_profile list \<Rightarrow> bool" where
  "admin_form_valid old obj rows \<longleftrightarrow> profile_columns obj \<and>
     (\<forall>r \<in> set rows. vp_vendor r = vp_vendor obj \<longrightarrow> old = Some (vp_vendor r))"

definition admin_save_model ::
  "string option \<Rightarrow> vendor_profile \<Rightarrow> vendor_profile list \<times> profile_cache \<Rightarrow> vendor_profile list \<times> profile_cache" where
  "admin_save_model old obj = (\<lambda>(rows, c).
     (case old of None \<Rightarrow> rows @ [obj] | Some v \<Rightarrow> map (\<lambda>r. if vp_vendor r = v then obj else r) rows,
      invalidate (vp_vendor obj) c))"

definition admin_delete_model ::
  "string \<Rightarrow> vendor_profile list \<times> profile_cache \<Rightarrow> vendor_profile list \<times> profile_cache" where
  "admin_delete_model vendor = (\<lambda>(rows, c).
     (filter (\<lambda>r. vp_vendor r \<noteq> vendor) rows, invalidate vendor c))"

definition mapped_statuses :: "vendor_profile \<Rightarrow> nat" where
  "mapped_statuses row = length (vp_status_map row)"

definition admin_delete_queryset ::
  "string list \<Rightarrow> vendor_profile list \<times> profile_cache \<Rightarrow> vendor_profile list \<times> profile_cache" where
  "admin_delete_queryset vendors = (\<lambda>(rows, c).
     (filter (\<lambda>r. vp_vendor r \<notin> set vendors) rows, fold invalidate vendors c))"

section \<open>The table\<close>

text \<open>The vendor is unique, and every row is within its columns.\<close>

definition profile_constraints :: "vendor_profile list \<Rightarrow> bool" where
  "profile_constraints rows \<longleftrightarrow> distinct (map vp_vendor rows) \<and> list_all profile_columns rows"

lemma store_keeps_profiles:
  assumes "profile_constraints rows" "store_profile spec (rows, c) = Inr (rows', c')"
  shows "profile_constraints rows'"
proof -
  have r: "profile_columns (row_of_spec spec)" "rows' = save_profile_row spec rows"
    using assms(2) by (auto simp: store_profile_def save_profile_def split: if_splits)
  have v: "vp_vendor (row_of_spec spec) = vs_vendor spec" by (simp add: row_of_spec_def)
  show ?thesis
  proof (cases "vs_vendor spec \<in> vp_vendor ` set rows")
    case True
    have "map vp_vendor (save_row vp_vendor (row_of_spec spec) rows) = map vp_vendor rows"
      by (rule map_save_row) simp
    moreover have "list_all profile_columns (save_row vp_vendor (row_of_spec spec) rows)"
      using assms(1) r(1) by (auto simp: profile_constraints_def list_all_iff in_save_row)
    moreover have "rows' = save_row vp_vendor (row_of_spec spec) rows"
      using True r(2) by (simp add: save_profile_row_def image_iff Bex_def eq_commute)
    ultimately show ?thesis using assms(1) by (simp add: profile_constraints_def)
  next
    case False
    have "rows' = rows @ [row_of_spec spec]"
      using False r(2) by (simp add: save_profile_row_def image_iff Bex_def eq_commute)
    then show ?thesis using assms(1) False r(1) v by (simp add: profile_constraints_def)
  qed
qed

lemma filter_keeps_profiles: "profile_constraints rows \<Longrightarrow> profile_constraints (filter P rows)"
  by (auto simp: profile_constraints_def list_all_iff distinct_map_filter)

lemma admin_save_keeps_profiles:
  assumes "profile_constraints rows" "admin_form_valid old obj rows"
  shows "profile_constraints (fst (admin_save_model old obj (rows, c)))"
proof (cases old)
  case None
  then show ?thesis using assms by (auto simp: admin_save_model_def profile_constraints_def admin_form_valid_def)
next
  case (Some v)
  let ?name = "\<lambda>x. if x = v then vp_vendor obj else x"
  have "map vp_vendor (map (\<lambda>r. if vp_vendor r = v then obj else r) rows) = map ?name (map vp_vendor rows)"
    by simp
  moreover have "inj_on ?name (set (map vp_vendor rows))"
  proof (rule inj_onI)
    fix x y
    assume "x \<in> set (map vp_vendor rows)" "y \<in> set (map vp_vendor rows)" "?name x = ?name y"
    moreover have "\<forall>x \<in> set (map vp_vendor rows). x = vp_vendor obj \<longrightarrow> v = x"
      using assms(2) Some by (auto simp: admin_form_valid_def)
    ultimately show "x = y" by (metis (full_types))
  qed
  ultimately have "distinct (map vp_vendor (map (\<lambda>r. if vp_vendor r = v then obj else r) rows))"
    using assms(1) by (simp only: profile_constraints_def distinct_map [of ?name] simp_thms)
  moreover have "list_all profile_columns (map (\<lambda>r. if vp_vendor r = v then obj else r) rows)"
    using assms by (induction rows) (auto simp: profile_constraints_def admin_form_valid_def)
  ultimately show ?thesis using Some by (simp add: admin_save_model_def profile_constraints_def)
qed

section \<open>The contract of a read-through cache\<close>

text \<open>
  Lookups that fill a cache and writes that invalidate it, run in time order, and the same
  requests served from the table alone.
\<close>

fun serve ::
  "(rat \<Rightarrow> 'k \<Rightarrow> 'db \<times> 'c \<Rightarrow> 'v \<times> 'db \<times> 'c) \<Rightarrow> ('w \<Rightarrow> 'db \<times> 'c \<Rightarrow> 'db \<times> 'c) \<Rightarrow>
     (rat \<times> ('k + 'w)) list \<Rightarrow> 'db \<times> 'c \<Rightarrow> 'v list" where
  "serve lookup modify [] st = []"
| "serve lookup modify ((now, Inl k) # ops) st =
     (let (v, st') = lookup now k st in v # serve lookup modify ops st')"
| "serve lookup modify ((now, Inr w) # ops) st = serve lookup modify ops (modify w st)"

fun serve_plain :: "('db \<Rightarrow> 'k \<Rightarrow> 'v) \<Rightarrow> ('w \<Rightarrow> 'db \<Rightarrow> 'db) \<Rightarrow> (rat \<times> ('k + 'w)) list \<Rightarrow> 'db \<Rightarrow> 'v list" where
  "serve_plain load change [] d = []"
| "serve_plain load change ((now, Inl k) # ops) d = load d k # serve_plain load change ops d"
| "serve_plain load change ((now, Inr w) # ops) d = serve_plain load change ops (change w d)"

locale read_through =
  fixes load :: "'db \<Rightarrow> 'k \<Rightarrow> 'v"
    and change :: "'w \<Rightarrow> 'db \<Rightarrow> 'db"
    and ckey :: "'k \<Rightarrow> string"
    and usable :: "'k \<Rightarrow> bool"
    and lookup :: "rat \<Rightarrow> 'k \<Rightarrow> 'db \<times> 'v cache \<Rightarrow> 'v \<times> 'db \<times> 'v cache"
    and modify :: "'w \<Rightarrow> 'db \<times> 'v cache \<Rightarrow> 'db \<times> 'v cache"
    and ttl :: int
  assumes lookup_hit: "cache_get c now (ckey k) = Some v \<Longrightarrow> lookup now k (d, c) = (v, d, c)"
    and lookup_miss: "cache_get c now (ckey k) = None \<Longrightarrow>
      lookup now k (d, c) = (load d k, d, cache_set c now (ckey k) (load d k) ttl)"
    and modify_db: "fst (modify w (d, c)) = change w d"
    and modify_drops: "usable k \<Longrightarrow> load (change w d) k \<noteq> load d k \<Longrightarrow> snd (modify w (d, c)) (ckey k) = None"
    and modify_only_drops: "snd (modify w (d, c)) x = None \<or> snd (modify w (d, c)) x = c x"
begin

definition coherent :: "'k set \<Rightarrow> rat \<Rightarrow> 'db \<Rightarrow> 'v cache \<Rightarrow> bool" where
  "coherent K now d c \<longleftrightarrow>
     (\<forall>k \<in> K. case cache_get c now (ckey k) of None \<Rightarrow> True | Some v \<Rightarrow> v = load d k)"

lemma coherent_later: "coherent K now d c \<Longrightarrow> now \<le> now' \<Longrightarrow> coherent K now' d c"
  unfolding coherent_def cache_get_def by (fastforce split: option.splits if_splits)

lemma coherent_empty: "coherent K now d Map.empty"
  by (simp add: coherent_def cache_get_def)

lemma lookup_coherent:
  assumes "coherent K now d c" "inj_on ckey K" "k \<in> K" "0 < ttl"
  shows "\<exists>c'. lookup now k (d, c) = (load d k, d, c') \<and> coherent K now d c'"
proof (cases "cache_get c now (ckey k)")
  case None
  have "coherent K now d (cache_set c now (ckey k) (load d k) ttl)"
    using assms unfolding coherent_def cache_get_def cache_set_def
    by (auto simp: inj_on_eq_iff split: option.splits if_splits)
  then show ?thesis using lookup_miss [OF None] by blast
next
  case (Some v)
  then have "v = load d k" using assms(1,3) by (auto simp: coherent_def split: option.splits)
  then show ?thesis using lookup_hit [OF Some] assms(1) by blast
qed

lemma modify_coherent:
  assumes "coherent K now d c" "\<forall>k \<in> K. usable k"
  shows "coherent K now (fst (modify w (d, c))) (snd (modify w (d, c)))"
  unfolding coherent_def modify_db
proof
  fix k assume k: "k \<in> K"
  let ?c = "snd (modify w (d, c))"
  have "cache_get ?c now (ckey k) = None \<or>
        (cache_get ?c now (ckey k) = cache_get c now (ckey k) \<and> load (change w d) k = load d k)"
  proof -
    have "load (change w d) k = load d k \<or> ?c (ckey k) = None"
      using modify_drops [OF bspec [OF assms(2) k], of w d c] by (cases "load (change w d) k = load d k") simp_all
    moreover have "?c (ckey k) = None \<or> ?c (ckey k) = c (ckey k)" by (rule modify_only_drops)
    ultimately show ?thesis by (auto simp: cache_get_def)
  qed
  then show "case cache_get ?c now (ckey k) of None \<Rightarrow> True | Some v \<Rightarrow> v = load (change w d) k"
    using assms(1) k by (auto simp: coherent_def split: option.splits)
qed

lemma serve_refines:
  assumes "inj_on ckey K" "\<forall>k \<in> K. usable k" "0 < ttl"
    and "coherent K now d c" "sorted (now # map fst ops)" "\<forall>t k. (t, Inl k) \<in> set ops \<longrightarrow> k \<in> K"
  shows "serve lookup modify ops (d, c) = serve_plain load change ops d"
  using assms(4-6)
proof (induction ops arbitrary: now d c)
  case (Cons op ops)
  obtain t x where op: "op = (t, x)" by (cases op)
  have t: "coherent K t d c" "sorted (t # map fst ops)"
    using Cons.prems op coherent_later by auto
  show ?case
  proof (cases x)
    case (Inl k)
    then have "k \<in> K" using Cons.prems(3) op by auto
    then obtain c' where c': "lookup t k (d, c) = (load d k, d, c')" "coherent K t d c'"
      using lookup_coherent [OF t(1) assms(1) _ assms(3)] by blast
    then show ?thesis using Cons.IH [OF c'(2) t(2)] Cons.prems(3) op Inl by auto
  next
    case (Inr w)
    have "coherent K t (change w d) (snd (modify w (d, c)))"
      using modify_coherent [OF t(1) assms(2)] by (simp add: modify_db)
    moreover have "modify w (d, c) = (change w d, snd (modify w (d, c)))"
      by (metis modify_db prod.collapse)
    ultimately show ?thesis using Cons.IH [OF _ t(2)] Cons.prems(3) op Inr
      by (metis list.set_intros(2) serve.simps(3) serve_plain.simps(3))
  qed
qed simp

end

section \<open>The profile store is one\<close>

datatype profile_change = SaveProfile vendor_profile_spec | DeleteProfile string

fun change_profiles :: "profile_change \<Rightarrow> vendor_profile list \<Rightarrow> vendor_profile list" where
  "change_profiles (SaveProfile spec) rows = save_profile_row spec rows"
| "change_profiles (DeleteProfile vendor) rows = filter (\<lambda>r. \<not> iexact (vp_vendor r) vendor) rows"

fun write_profiles ::
  "profile_change \<Rightarrow> vendor_profile list \<times> profile_cache \<Rightarrow> vendor_profile list \<times> profile_cache" where
  "write_profiles (SaveProfile spec) st = save_profile spec st"
| "write_profiles (DeleteProfile vendor) st = snd (delete_profile vendor st)"

definition is_vendor_key :: "string \<Rightarrow> bool" where
  "is_vendor_key k \<longleftrightarrow> vendor_key k = k"

lemma is_space_code: "is_space c \<longleftrightarrow> code c \<in> {9, 10, 11, 12, 13, 28, 29, 30, 31, 32, 133, 160}"
proof -
  have "is_space c \<longleftrightarrow> code c \<in> set (map of_char py_whitespace)"
    by (auto simp: is_space_def)
  moreover have "map of_char py_whitespace = [9, 10, 11, 12, 13, 28, 29, 30, 31, 32, 133, 160 :: nat]"
    by (simp add: py_whitespace_def)
  ultimately show ?thesis by simp
qed

lemma is_space_lower [simp]: "is_space (char_lower c) = is_space c"
  by (auto simp: is_space_code code_char_lower Let_def)

lemma strip_lower: "strip (lower s) = lower (strip s)"
  by (simp add: strip_def strip_by_def lstrip_by_def lower_def dropWhile_map rev_map o_def)

lemma vendor_key_idem [simp]: "vendor_key (vendor_key v) = vendor_key v"
  by (simp add: vendor_key_def strip_lower)

lemma key_of_iexact: "is_vendor_key k \<Longrightarrow> iexact v k \<Longrightarrow> vendor_key v = k"
  by (metis iexact_def is_vendor_key_def lower_idem strip_idem strip_lower vendor_key_def)

lemma first_row_filter: "first_row P rows = (case filter P rows of [] \<Rightarrow> None | r # _ \<Rightarrow> Some r)"
  unfolding first_row_def by (induction rows) auto

lemma stored_profile_cong:
  "filter (\<lambda>r. iexact (vp_vendor r) k) rows = filter (\<lambda>r. iexact (vp_vendor r) k) rows' \<Longrightarrow>
     stored_profile rows k = stored_profile rows' k"
  by (simp add: stored_profile_def first_row_filter filter_sort)

lemma row_of_spec_vendor [simp]: "vp_vendor (row_of_spec spec) = vs_vendor spec"
  by (simp add: row_of_spec_def)

lemma save_profile_row_other:
  assumes "\<not> iexact (vs_vendor spec) k"
  shows "filter (\<lambda>r. iexact (vp_vendor r) k) (save_profile_row spec rows) =
         filter (\<lambda>r. iexact (vp_vendor r) k) rows"
proof -
  have "filter (\<lambda>r. iexact (vp_vendor r) k) (save_row vp_vendor (row_of_spec spec) rows) =
        filter (\<lambda>r. iexact (vp_vendor r) k) rows"
    unfolding save_row_def using assms by (induction rows) auto
  then show ?thesis using assms by (simp add: save_profile_row_def Let_def)
qed

lemma change_drops:
  assumes "is_vendor_key k" "stored_profile (change_profiles w rows) k \<noteq> stored_profile rows k"
  shows "snd (write_profiles w (rows, c)) (cache_key k) = None"
proof (cases w)
  case (SaveProfile spec)
  then have "iexact (vs_vendor spec) k"
    using assms(2) stored_profile_cong [OF save_profile_row_other] by auto
  then show ?thesis using key_of_iexact [OF assms(1)] SaveProfile
    by (simp add: save_profile_def invalidate_def cache_delete_def)
next
  case (DeleteProfile vendor)
  have "iexact vendor k"
  proof (rule ccontr)
    assume "\<not> iexact vendor k"
    then have "filter (\<lambda>r. iexact (vp_vendor r) k) (change_profiles w rows) =
               filter (\<lambda>r. iexact (vp_vendor r) k) rows"
      by (auto simp: DeleteProfile iexact_def intro: filter_cong)
    then show False using assms(2) stored_profile_cong by blast
  qed
  then show ?thesis using key_of_iexact [OF assms(1)] DeleteProfile
    by (simp add: delete_profile_def invalidate_def cache_delete_def)
qed

interpretation vp: read_through stored_profile change_profiles cache_key is_vendor_key
  cached_profile write_profiles PROFILE_CACHE_SECONDS
proof unfold_locales
  fix w :: profile_change and rows :: "vendor_profile list" and c :: profile_cache and x
  show "fst (write_profiles w (rows, c)) = change_profiles w rows"
    by (cases w) (auto simp: save_profile_def delete_profile_def)
  show "snd (write_profiles w (rows, c)) x = None \<or> snd (write_profiles w (rows, c)) x = c x"
    by (cases w) (auto simp: save_profile_def delete_profile_def invalidate_def cache_delete_def)
qed (auto simp: cached_profile_def Let_def change_drops)

section \<open>Properties\<close>

text \<open>C19. No stale profile: for any vendors whose cache keys differ, lookups through the cache
  interleaved in time order with profile saves and deletes answer exactly as reads of the table.\<close>

theorem profile_cache_is_transparent:
  assumes "inj_on cache_key K" "\<forall>k \<in> K. is_vendor_key k"
    and "sorted (map fst ops)" "\<forall>t k. (t, Inl k) \<in> set ops \<longrightarrow> k \<in> K"
  shows "serve cached_profile write_profiles ops (rows, Map.empty) =
         serve_plain stored_profile change_profiles ops rows"
proof (cases ops)
  case (Cons op rest)
  have "sorted (fst op # map fst ops)" using assms(3) Cons by simp
  then show ?thesis
    using vp.serve_refines [OF assms(1,2) _ vp.coherent_empty, of "fst op" ops rows] assms(4)
    by (simp add: PROFILE_CACHE_SECONDS_def)
qed simp

lemma canonical_map_values:
  "(t, v) \<in> set (canonical_map m) \<Longrightarrow> \<exists>t' v'. (t', v') \<in> set m \<and> t = lower t' \<and> v = upper v'"
proof -
  have "(t, v) \<in> set (fold (\<lambda>(t, v). dict_set (lower t) (upper v)) m acc) \<Longrightarrow>
      (t, v) \<in> set acc \<or> (\<exists>t' v'. (t', v') \<in> set m \<and> t = lower t' \<and> v = upper v')" for acc
  proof (induction m arbitrary: acc)
    case (Cons p m)
    obtain a b where p: "p = (a, b)" by (cases p)
    have "set (dict_set (lower a) (upper b) acc) \<subseteq> insert (lower a, upper b) (set acc)"
      by (induction acc) auto
    then show ?case using Cons.IH [of "dict_set (lower a) (upper b) acc"] Cons.prems
      by (auto simp: p)
  qed simp
  from this [of "[]"] show "(t, v) \<in> set (canonical_map m) \<Longrightarrow> ?thesis"
    by (auto simp: canonical_map_def)
qed

lemma canonical_map_wf: "dict_wf (canonical_map m)"
proof -
  have "dict_wf acc \<Longrightarrow> dict_wf (fold (\<lambda>(t, v). dict_set (lower t) (upper v)) m acc)" for acc
    by (induction m arbitrary: acc) auto
  then show ?thesis by (simp add: canonical_map_def)
qed

lemma allowed_canonical: "v \<in> set (allowed_statuses et) \<Longrightarrow> canonical_pair (upper et) v"
  by (cases "dict_get ALLOWED_STATUSES (upper et)") (simp_all add: allowed_statuses_def canonical_pair_def)

lemma EntityType_upper: "et \<in> set EntityType_values \<or> et = [] \<Longrightarrow> upper et = et"
  by (auto simp: EntityType_values_def upper_def char_upper_def)

lemma validated:
  assumes "validate_profile_write attrs = Inr data"
  shows "data = attrs \<lparr> pw_status_map := canonical_map (pw_status_map attrs) \<rparr>"
    and "dict_wf (pw_status_map data)"
    and "\<forall>(t, v) \<in> set (pw_status_map data). lower t = t \<and> canonical_pair (pw_entity_type data) v"
proof -
  have et: "pw_entity_type attrs \<in> set EntityType_values \<or> pw_entity_type attrs = []"
    and off: "offending attrs = []"
    and data: "data = attrs \<lparr> pw_status_map := canonical_map (pw_status_map attrs) \<rparr>"
    using assms by (auto simp: validate_profile_write_def split: if_splits)
  show "data = attrs \<lparr> pw_status_map := canonical_map (pw_status_map attrs) \<rparr>" by (rule data)
  show "dict_wf (pw_status_map data)" by (simp add: data canonical_map_wf)
  have "canonical_pair (pw_entity_type attrs) (upper v)" if "(t, v) \<in> set (pw_status_map attrs)" for t v
  proof -
    have "upper v \<in> set (allowed_statuses (pw_entity_type attrs))"
      using off that by (auto simp: offending_def filter_empty_conv)
    then show ?thesis using allowed_canonical EntityType_upper [OF et] by metis
  qed
  then show "\<forall>(t, v) \<in> set (pw_status_map data). lower t = t \<and> canonical_pair (pw_entity_type data) v"
    using canonical_map_values [of _ _ "pw_status_map attrs"] by (fastforce simp: data)
qed

text \<open>Writing a profile: a body is accepted only if every status it maps to belongs to its
  entity type, and then the stored map is in canonical form with distinct lower-case tokens.\<close>

theorem accepted_profile_is_canonical:
  "(\<exists>data. validate_profile_write attrs = Inr data \<and> dict_wf (pw_status_map data) \<and>
      (\<forall>(t, v) \<in> set (pw_status_map data). lower t = t \<and> canonical_pair (pw_entity_type data) v))
   \<longleftrightarrow> (pw_entity_type attrs \<in> set EntityType_values \<or> pw_entity_type attrs = []) \<and>
       (\<forall>(t, v) \<in> set (pw_status_map attrs). upper v \<in> set (allowed_statuses (pw_entity_type attrs)))"
proof -
  have "offending attrs = [] \<longleftrightarrow>
      (\<forall>(t, v) \<in> set (pw_status_map attrs). upper v \<in> set (allowed_statuses (pw_entity_type attrs)))"
    by (auto simp: offending_def filter_empty_conv)
  moreover have "(\<exists>data. validate_profile_write attrs = Inr data) \<longleftrightarrow>
      (pw_entity_type attrs \<in> set EntityType_values \<or> pw_entity_type attrs = []) \<and> offending attrs = []"
    by (auto simp: validate_profile_write_def)
  ultimately show ?thesis using validated(2,3) by blast
qed

lemma canonical_pair_nonempty: "canonical_pair et v \<Longrightarrow> v \<noteq> []"
  by (auto simp: canonical_pair_def ALLOWED_STATUSES_def ShipmentStatus_values_def
      InvoiceStatus_values_def split: if_splits)

lemma drop_unmapped_all: "\<forall>(t, v) \<in> set m. v \<noteq> [] \<Longrightarrow> drop_unmapped (map (\<lambda>(t, c). (t, Some c)) m) = m"
  by (induction m) (auto simp: drop_unmapped_def)

lemma spec_row_roundtrip:
  assumes "vs_source spec \<noteq> []" "\<forall>(t, v) \<in> set (vs_status_map spec). v \<noteq> []"
  shows "spec_from_model (row_of_spec spec) = spec"
  using assms drop_unmapped_all by (simp add: spec_from_model_def row_of_spec_def)

lemma stored_after_save:
  assumes "iexact (vs_vendor spec) k" "\<forall>r \<in> set rows. iexact (vp_vendor r) k \<longrightarrow> vp_vendor r = vs_vendor spec"
  shows "stored_profile (save_profile_row spec rows) k = Some (spec_from_model (row_of_spec spec))"
proof -
  let ?P = "\<lambda>r. iexact (vp_vendor r) k"
  have "\<forall>r \<in> set (save_profile_row spec rows). ?P r \<longrightarrow> r = row_of_spec spec"
  proof (intro ballI impI)
    fix r assume r: "r \<in> set (save_profile_row spec rows)" "?P r"
    have "r = row_of_spec spec \<or> (r \<in> set rows \<and> vp_vendor r \<noteq> vs_vendor spec)"
      using r(1) by (simp add: save_profile_row_def Let_def in_save_row split: if_split_asm) blast+
    then show "r = row_of_spec spec" using r(2) assms(2) by blast
  qed
  moreover have m: "row_of_spec spec \<in> set (save_profile_row spec rows)"
    unfolding save_profile_row_def Let_def
    by (cases "\<exists>r' \<in> set rows. vp_vendor r' = vs_vendor spec") (simp_all add: in_save_row)
  moreover obtain r where r: "first_row ?P (sort_key vp_vendor (save_profile_row spec rows)) = Some r"
      "r \<in> set (sort_key vp_vendor (save_profile_row spec rows))" "?P r"
    by (rule first_row_obtain [of "row_of_spec spec" "sort_key vp_vendor (save_profile_row spec rows)" ?P])
       (use m assms(1) in simp_all)
  ultimately have "r = row_of_spec spec" by (simp only: set_sort)
  then show ?thesis using r(1) by (simp add: stored_profile_def)
qed

text \<open>Read your writes: after a PUT that answers 200, a GET of the same vendor answers 200
  with the profile that was written, whatever the cache held, when the vendor is written without
  surrounding spaces, is not pinned in code and no stored vendor differs from it in case only.\<close>

theorem put_then_get:
  assumes "VendorProfileDetailView_put vendor body (rows, c) = Inr ((200, Body spec), st)"
    and "strip vendor = vendor" "vendor \<noteq> []" "dict_get pins (vendor_key vendor) = None"
    and "\<forall>r \<in> set rows. iexact (vp_vendor r) vendor \<longrightarrow> vp_vendor r = vendor"
  shows "fst (VendorProfileDetailView_get pins now vendor st) = (200, Body spec) \<and> vs_vendor spec = vendor"
proof -
  obtain data where data: "validate_profile_write body = Inr data"
      and spec: "spec = spec_of_write vendor data" "st = save_profile spec (rows, c)"
    using assms(1) by (auto simp: VendorProfileDetailView_put_def store_profile_def Let_def split: sum.splits if_splits)
  have k: "vendor_key vendor = lower vendor" using assms(2) by (simp add: vendor_key_def)
  have "spec_from_model (row_of_spec spec) = spec"
    using validated(3) [OF data] canonical_pair_nonempty
    by (intro spec_row_roundtrip) (fastforce simp: spec spec_of_write_def)+
  moreover have "stored_profile (save_profile_row spec rows) (lower vendor) =
      Some (spec_from_model (row_of_spec spec))"
    using assms(5) by (intro stored_after_save) (auto simp: spec spec_of_write_def iexact_def)
  ultimately show ?thesis using assms(3,4) k
    by (simp add: VendorProfileDetailView_get_def profile_for_def spec(2) save_profile_def
        cached_profile_def invalidate_def cache_delete_def cache_get_def Let_def)
       (simp add: spec spec_of_write_def)
qed

definition plain_spec :: "string \<Rightarrow> string \<Rightarrow> vendor_profile_spec" where
  "plain_spec vendor et =
     \<lparr> vs_vendor = vendor, vs_entity_type = et, vs_id_paths = [], vs_status_paths = [],
       vs_time_paths = [], vs_status_map = [], vs_source = ''MANUAL'', vs_sample_count = 0,
       vs_notes = [] \<rparr>"

text \<open>Vendors are stored up to case but looked up without it: after \<open>acme\<close> is saved beside
  a stored \<open>Acme\<close>, the normaliser is still given the profile of \<open>Acme\<close>.\<close>

theorem case_variant_is_shadowed:
  "fst (profile_for [] now ''acme''
     (save_profile (plain_spec ''acme'' ''INVOICE'')
        (save_profile (plain_spec ''Acme'' ''SHIPMENT'') ([], Map.empty)))) =
   Some (plain_spec ''Acme'' ''SHIPMENT'')"
proof -
  have "stored_profile (save_profile_row (plain_spec ''acme'' ''INVOICE'')
          (save_profile_row (plain_spec ''Acme'' ''SHIPMENT'') [])) ''acme'' =
        Some (plain_spec ''Acme'' ''SHIPMENT'')"
    by code_simp
  moreover have "vendor_key ''acme'' = ''acme''" by code_simp
  ultimately show ?thesis
    by (simp add: profile_for_def save_profile_def cached_profile_def invalidate_def
        cache_delete_def cache_get_def Let_def)
qed

text \<open>Renaming a profile in the admin drops only the cached profile of the new name: the old
  name is still answered from the cache, although no stored profile has it any more (unless the
  two cache keys collide).\<close>

theorem admin_rename_leaves_old:
  assumes "cache_get c now (cache_key (vendor_key old)) = Some (Some spec)"
    and "vendor_key old \<noteq> []" "dict_get pins (vendor_key old) = None"
    and "rows = [row]" "vp_vendor row = old" "\<not> iexact (vp_vendor obj) (vendor_key old)"
  shows "stored_profile (fst (admin_save_model (Some old) obj (rows, c))) (vendor_key old) = None \<and>
    fst (profile_for pins now old (admin_save_model (Some old) obj (rows, c))) =
      (if cache_key (vendor_key (vp_vendor obj)) = cache_key (vendor_key old) then None else Some spec)"
proof -
  have "stored_profile [obj] (vendor_key old) = None"
    using assms(6) by (simp add: stored_profile_def first_row_def)
  then show ?thesis using assms
    by (auto simp: admin_save_model_def profile_for_def Let_def cached_profile_def invalidate_def
        cache_delete_def cache_get_def)
qed

section \<open>Witnesses\<close>

lemma acme_key: "vendor_key ''acme'' = ''acme''" "strip ''acme'' = ''acme''"
  by code_simp+

theorem profile_cache_is_transparent_witness:
  "serve cached_profile write_profiles
     [(0, Inl ''acme''), (1, Inr (SaveProfile (plain_spec ''acme'' ''INVOICE''))), (2, Inl ''acme'')]
     ([], Map.empty) =
   serve_plain stored_profile change_profiles
     [(0, Inl ''acme''), (1, Inr (SaveProfile (plain_spec ''acme'' ''INVOICE''))), (2, Inl ''acme'')] []"
  by (rule profile_cache_is_transparent [of "{''acme''}"]) (auto simp: is_vendor_key_def acme_key)

definition shipment_write :: profile_write where
  "shipment_write = \<lparr> pw_entity_type = ''SHIPMENT'', pw_id_paths = [''ref''], pw_status_paths = [''state''],
     pw_time_paths = [], pw_status_map = [(''Landed'', ''delivered'')], pw_notes = [] \<rparr>"

lemma shipment_write_allowed:
  "pw_entity_type shipment_write \<in> set EntityType_values"
  "\<forall>(t, v) \<in> set (pw_status_map shipment_write). upper v \<in> set (allowed_statuses (pw_entity_type shipment_write))"
  by code_simp+

lemma shipment_write_accepted:
  "validate_profile_write shipment_write = Inr (shipment_write \<lparr> pw_status_map := [(''landed'', ''DELIVERED'')] \<rparr>)"
  by code_simp

theorem accepted_profile_is_canonical_witness:
  "\<exists>data. validate_profile_write shipment_write = Inr data \<and>
     (\<forall>(t, v) \<in> set (pw_status_map data). canonical_pair (pw_entity_type data) v)"
  using accepted_profile_is_canonical [of shipment_write] shipment_write_allowed by fastforce

lemma shipment_write_put:
  "VendorProfileDetailView_put ''acme'' shipment_write st =
     (let spec = spec_of_write ''acme'' (shipment_write \<lparr> pw_status_map := [(''landed'', ''DELIVERED'')] \<rparr>)
      in Inr ((200, Body spec), save_profile spec st))"
proof -
  have "profile_columns (row_of_spec (spec_of_write ''acme'' (shipment_write \<lparr> pw_status_map := [(''landed'', ''DELIVERED'')] \<rparr>)))"
    by code_simp
  then show ?thesis
    by (simp add: VendorProfileDetailView_put_def shipment_write_accepted store_profile_def Let_def)
qed

theorem put_then_get_witness:
  "\<exists>spec st. VendorProfileDetailView_put ''acme'' shipment_write ([], Map.empty) = Inr ((200, Body spec), st) \<and>
     fst (VendorProfileDetailView_get [] 5 ''acme'' st) = (200, Body spec)"
proof -
  obtain spec st where p: "VendorProfileDetailView_put ''acme'' shipment_write ([], Map.empty) = Inr ((200, Body spec), st)"
    by (simp only: shipment_write_put Let_def)
  from put_then_get [OF p, of "[]" 5] acme_key p show ?thesis by auto
qed

theorem admin_rename_leaves_old_witness:
  "stored_profile (fst (admin_save_model (Some ''acme'') (row_of_spec (plain_spec ''acme-eu'' ''SHIPMENT''))
      ([row_of_spec (plain_spec ''acme'' ''SHIPMENT'')],
       [cache_key ''acme'' \<mapsto> (Some (plain_spec ''acme'' ''SHIPMENT''), 60)]))) ''acme'' = None"
proof -
  have "\<not> iexact (vp_vendor (row_of_spec (plain_spec ''acme-eu'' ''SHIPMENT''))) (vendor_key ''acme'')"
    by code_simp
  then show ?thesis
    using admin_rename_leaves_old [of "[cache_key ''acme'' \<mapsto> (Some (plain_spec ''acme'' ''SHIPMENT''), 60)]"
        10 "''acme''" "plain_spec ''acme'' ''SHIPMENT''" "[]" _ "row_of_spec (plain_spec ''acme'' ''SHIPMENT'')",
        OF _ _ _ refl]
    by (simp add: acme_key cache_get_def plain_spec_def)
qed

end
