(* ===== verification/Rules_Backend.thy ===== *)
theory Rules_Backend
  imports Vendors
begin

text \<open>
  \<open>apps/normalization/backends/rules_backend.py\<close>: reading a payload with explicit rules.  The
  profile of the vendor is an argument (it is what \<open>profile_for\<close> returned) and so is the clock.
  Scores are exact decimals; the code computes them in binary floating point and rounds the
  result to three places.
\<close>

section \<open>Tables\<close>

definition rules_PROMPT_VERSION :: string where
  "rules_PROMPT_VERSION = ''rules-v1''"

definition MODEL_NAME :: string where
  "MODEL_NAME = ''rules-based-normalizer''"

definition ID_KEYS :: "string list" where
  "ID_KEYS =
     [''shipment_id'', ''shipmentId'', ''tracking_number'', ''trackingNumber'', ''tracking_id'',
      ''shipment_reference'', ''shipmentReference'', ''container_no'', ''containerNo'',
      ''container_number'', ''containerNumber'',
      ''invoice_id'', ''invoiceId'', ''invoice_number'', ''invoiceNumber'',
      ''reference'', ''ref'', ''order_id'', ''orderId'', ''id'', ''uuid'']"

definition TIME_KEYS :: "string list" where
  "TIME_KEYS =
     [''event_time'', ''eventTime'', ''occurred_at'', ''occurredAt'', ''timestamp'', ''ts'',
      ''created_at'', ''createdAt'', ''updated_at'', ''updatedAt'', ''date'']"

definition STATUS_KEYS :: "string list" where
  "STATUS_KEYS =
     [''status'', ''state'', ''status_text'', ''statusText'',
      ''event'', ''event_type'', ''eventType'', ''phase'', ''lifecycle'',
      ''event_description'', ''eventDescription'', ''code'', ''type'',
      ''message'', ''description'']"

definition SHIPMENT_STATUS :: "(string, string) dict" where
  "SHIPMENT_STATUS =
     [(''picked_up'', ''PICKED_UP''), (''pickup'', ''PICKED_UP''), (''collected'', ''PICKED_UP''),
      (''in_transit'', ''IN_TRANSIT''), (''intransit'', ''IN_TRANSIT''), (''transit'', ''IN_TRANSIT''),
      (''shipped'', ''IN_TRANSIT''), (''dispatched'', ''IN_TRANSIT''), (''departed'', ''IN_TRANSIT''),
      (''out_for_delivery'', ''OUT_FOR_DELIVERY''), (''outfordelivery'', ''OUT_FOR_DELIVERY''),
      (''delivered'', ''DELIVERED''), (''completed'', ''DELIVERED''), (''arrived'', ''DELIVERED'')]"

definition INVOICE_STATUS :: "(string, string) dict" where
  "INVOICE_STATUS =
     [(''issued'', ''ISSUED''), (''open'', ''ISSUED''), (''sent'', ''ISSUED''), (''pending'', ''ISSUED''),
      (''created'', ''ISSUED''), (''draft'', ''ISSUED''),
      (''paid'', ''PAID''), (''settled'', ''PAID''), (''payment_succeeded'', ''PAID''),
      (''voided'', ''VOIDED''), (''void'', ''VOIDED''), (''cancelled'', ''VOIDED''), (''canceled'', ''VOIDED''),
      (''refunded'', ''REFUNDED''), (''refund'', ''REFUNDED''), (''chargeback'', ''REFUNDED'')]"

definition SHIPMENT_ID_KEYS :: "string list" where
  "SHIPMENT_ID_KEYS =
     [''shipment_id'', ''shipmentid'', ''tracking_number'', ''trackingnumber'', ''tracking_id'',
      ''shipment_reference'', ''shipmentreference'', ''container_no'', ''containerno'',
      ''container_number'', ''containernumber'']"

definition INVOICE_ID_KEYS :: "string list" where
  "INVOICE_ID_KEYS = [''invoice_id'', ''invoiceid'', ''invoice_number'', ''invoicenumber'']"

definition ID_KEY_CONFIDENCE :: rat where
  "ID_KEY_CONFIDENCE = 9 / 10"

definition SHIPMENT_HINTS :: "string list" where
  "SHIPMENT_HINTS =
     [''shipment'', ''tracking'', ''carrier'', ''parcel'', ''delivery'', ''freight'',
      ''container'', ''vessel'', ''voyage'', ''cargo'', ''consignment'', ''waybill'', ''courier'']"

definition INVOICE_HINTS :: "string list" where
  "INVOICE_HINTS =
     [''invoice'', ''billing'', ''payment'', ''amount_due'', ''charge'', ''remittance'', ''payable'']"

definition VENDOR_NAMING_KEYS :: "string list" where
  "VENDOR_NAMING_KEYS = [''vendor'', ''source'', ''provider'', ''carrier'']"

definition PROFILE_CONFIDENCE :: rat where
  "PROFILE_CONFIDENCE = 97 / 100"

section \<open>Flattening and looking up\<close>

type_synonym flat = "(string, json) dict"

definition member_path :: "string \<Rightarrow> string \<Rightarrow> string" where
  "member_path prefix key = (if prefix \<noteq> [] then prefix @ ''.'' @ key else key)"

definition item_path :: "string \<Rightarrow> nat \<Rightarrow> string" where
  "item_path prefix i = prefix @ ''['' @ nat_str i @ '']''"

text \<open>The two loops, with the dictionary built so far as their last argument.\<close>

fun flatten_payload :: "json \<Rightarrow> string \<Rightarrow> flat"
  and flatten_members :: "(string \<times> json) list \<Rightarrow> string \<Rightarrow> flat \<Rightarrow> flat"
  and flatten_items :: "json list \<Rightarrow> string \<Rightarrow> nat \<Rightarrow> flat \<Rightarrow> flat" where
  "flatten_payload (JObj kvs) prefix = flatten_members kvs prefix []"
| "flatten_payload (JArr xs) prefix = flatten_items xs prefix 0 []"
| "flatten_payload _ prefix = []"
| "flatten_members [] prefix out = out"
| "flatten_members ((key, value) # kvs) prefix out =
     (let path = member_path prefix key in
      flatten_members kvs prefix
        (if is_container value then dict_update out (flatten_payload value path)
         else dict_setdefault key value (dict_set path value out)))"
| "flatten_items [] prefix i out = out"
| "flatten_items (x # xs) prefix i out =
     flatten_items xs prefix (i + 1) (dict_update out (flatten_payload x (item_path prefix i)))"

definition last_segment :: "string \<Rightarrow> string" where
  "last_segment path = last (split_on (CHR ''.'') path)"

definition first_entry :: "flat \<Rightarrow> string list \<Rightarrow> (string \<times> json) option" where
  "first_entry flat keys =
     (case find (\<lambda>k. case dict_get flat k of None \<Rightarrow> False | Some v \<Rightarrow> \<not> none_or_empty v) keys of
        Some k \<Rightarrow> Some (k, the (dict_get flat k))
      | None \<Rightarrow>
          (let hit = (\<lambda>k. find (\<lambda>(fk, v). last_segment fk = k \<and> \<not> none_or_empty v) flat) in
           case find (\<lambda>k. hit k \<noteq> None) keys of
             Some k \<Rightarrow> Some (k, snd (the (hit k)))
           | None \<Rightarrow> None))"

definition first_value :: "flat \<Rightarrow> string list \<Rightarrow> json option" where
  "first_value flat keys = map_option snd (first_entry flat keys)"

text \<open>
  \<open>parse_timestamp\<close>: the conversion to float stands outside the \<open>try\<close>, so an integer too large
  for a float raises.
\<close>

definition from_number :: "pyfloat \<Rightarrow> datetime option" where
  "from_number x =
     fromtimestamp (if flt_less (Fin 100000000000) x
                    then (case x of Fin r \<Rightarrow> Fin (r / 1000) | y \<Rightarrow> y) else x)"

definition as_utc :: "datetime \<Rightarrow> datetime" where
  "as_utc t = (if aware t then t else t \<lparr> dt_offset := Some 0 \<rparr>)"

fun parse_timestamp :: "json \<Rightarrow> datetime option result" where
  "parse_timestamp JNull = Inr None"
| "parse_timestamp (JStr s) = Inr (map_option as_utc (fromisoformat (replace_char (CHR ''Z'') ''+00:00'' (strip s))))"
| "parse_timestamp (JArr xs) =
     Inr (map_option as_utc (fromisoformat (replace_char (CHR ''Z'') ''+00:00'' (strip (py_str (JArr xs))))))"
| "parse_timestamp (JObj kvs) =
     Inr (map_option as_utc (fromisoformat (replace_char (CHR ''Z'') ''+00:00'' (strip (py_str (JObj kvs))))))"
| "parse_timestamp number = and_then (py_float number) (\<lambda>x. Inr (from_number x))"

definition is_token_char :: "char \<Rightarrow> bool" where
  "is_token_char c \<longleftrightarrow> (97 \<le> code c \<and> code c \<le> 122) \<or> is_ascii_digit c"

text \<open>\<open>re.sub(r"[^a-z0-9]+", "_", s)\<close>; the flag says that a run is being replaced.\<close>

fun squash :: "bool \<Rightarrow> string \<Rightarrow> string" where
  "squash inrun [] = []"
| "squash inrun (c # s) =
     (if is_token_char c then c # squash False s
      else if inrun then squash True s else CHR ''_'' # squash True s)"

definition status_token :: "json \<Rightarrow> string" where
  "status_token raw = strip_by (\<lambda>c. c = CHR ''_'') (squash False (lower (strip (py_str raw))))"

section \<open>RuleBasedNormalizer\<close>

type_synonym profile = "vendor_profile_spec option"

definition id_keys :: "profile \<Rightarrow> string list" where
  "id_keys profile = (case profile of None \<Rightarrow> ID_KEYS | Some p \<Rightarrow> vs_id_paths p @ ID_KEYS)"

definition status_keys :: "profile \<Rightarrow> string list" where
  "status_keys profile = (case profile of None \<Rightarrow> STATUS_KEYS | Some p \<Rightarrow> vs_status_paths p @ STATUS_KEYS)"

definition time_keys :: "profile \<Rightarrow> string list" where
  "time_keys profile = (case profile of None \<Rightarrow> TIME_KEYS | Some p \<Rightarrow> vs_time_paths p @ TIME_KEYS)"

definition hint_blob :: "flat \<Rightarrow> string" where
  "hint_blob flat =
     lower (join '' '' (map (\<lambda>(k, v). k @ '' '' @ py_str v)
       (filter (\<lambda>(k, v). lower (last_segment k) \<notin> set VENDOR_NAMING_KEYS) flat)))"

definition count_hints :: "string list \<Rightarrow> string \<Rightarrow> nat" where
  "count_hints hints blob = length (filter (\<lambda>h. contains h blob) hints)"

definition forced_type :: "profile \<Rightarrow> string" where
  "forced_type profile = (case profile of None \<Rightarrow> [] | Some p \<Rightarrow> vs_entity_type p)"

definition classify :: "flat \<Rightarrow> string option \<Rightarrow> profile \<Rightarrow> string \<times> rat" where
  "classify flat id_key profile =
     (if forced_type profile \<noteq> [] then (forced_type profile, PROFILE_CONFIDENCE) else
      let leaf = lower (last_segment (case id_key of None \<Rightarrow> [] | Some k \<Rightarrow> k)) in
      if leaf \<in> set SHIPMENT_ID_KEYS then (entity_type_value SHIPMENT, ID_KEY_CONFIDENCE)
      else if leaf \<in> set INVOICE_ID_KEYS then (entity_type_value INVOICE, ID_KEY_CONFIDENCE)
      else
        let blob = hint_blob flat;
            shipment = count_hints SHIPMENT_HINTS blob;
            invoice = count_hints INVOICE_HINTS blob in
        if invoice < shipment \<and> 0 < shipment
        then (entity_type_value SHIPMENT, min (95/100) (6/10 + of_nat shipment / 10))
        else if shipment < invoice \<and> 0 < invoice
        then (entity_type_value INVOICE, min (95/100) (6/10 + of_nat invoice / 10))
        else (entity_type_value UNCLASSIFIED, 2/10))"

definition entity_id_of :: "flat \<Rightarrow> profile \<Rightarrow> string option \<times> string" where
  "entity_id_of flat profile =
     (case first_entry flat (id_keys profile) of
        None \<Rightarrow> (None, [])
      | Some (k, v) \<Rightarrow> (Some k, strip (py_str v)))"

definition profile_map :: "profile \<Rightarrow> (string, string) dict" where
  "profile_map profile = (case profile of None \<Rightarrow> [] | Some p \<Rightarrow> vs_status_map p)"

text \<open>The suffixes of a token at its underscores, longest first.\<close>

definition token_suffixes :: "string \<Rightarrow> string list" where
  "token_suffixes token =
     (let parts = split_on (CHR ''_'') token
      in map (\<lambda>i. join ''_'' (drop i parts)) [1 ..< length parts])"

fun match_suffix ::
  "(string, string) dict \<Rightarrow> (string, string) dict \<Rightarrow> string list \<Rightarrow> (string \<times> rat) option" where
  "match_suffix pmap tab [] = None"
| "match_suffix pmap tab (s # ss) =
     (case dict_get pmap s of
        Some st \<Rightarrow> Some (st, PROFILE_CONFIDENCE)
      | None \<Rightarrow>
          (case dict_get tab s of Some st \<Rightarrow> Some (st, 75/100) | None \<Rightarrow> match_suffix pmap tab ss))"

definition status_of :: "string \<Rightarrow> json option \<Rightarrow> profile \<Rightarrow> string \<times> rat" where
  "status_of et raw profile =
     (if et = entity_type_value UNCLASSIFIED then (''UNKNOWN'', 2/10) else
      let tab = (if et = entity_type_value SHIPMENT then SHIPMENT_STATUS else INVOICE_STATUS);
          dflt = (if et = entity_type_value SHIPMENT then shipment_status_value IN_TRANSIT
                  else invoice_status_value ISSUED) in
      case raw of
        None \<Rightarrow> (dflt, 25/100)
      | Some v \<Rightarrow>
          (let key = status_token v in
           case dict_get (profile_map profile) key of
             Some st \<Rightarrow> (st, PROFILE_CONFIDENCE)
           | None \<Rightarrow>
               (case dict_get tab key of
                  Some st \<Rightarrow> (st, 9/10)
                | None \<Rightarrow>
                    (case match_suffix (profile_map profile) tab (token_suffixes key) of
                       Some r \<Rightarrow> r
                     | None \<Rightarrow> (dflt, 3/10)))))"

definition parse_option :: "json option \<Rightarrow> datetime option result" where
  "parse_option raw = (case raw of None \<Rightarrow> Inr None | Some v \<Rightarrow> parse_timestamp v)"

definition generic_event_time :: "flat \<Rightarrow> profile \<Rightarrow> datetime \<Rightarrow> (datetime \<times> rat \<times> bool) result" where
  "generic_event_time flat profile now =
     and_then (parse_option (first_value flat (time_keys profile))) (\<lambda>parsed.
       case parsed of Some t \<Rightarrow> Inr (t, 95/100, True) | None \<Rightarrow> Inr (now, 4/10, False))"

definition event_time_of :: "flat \<Rightarrow> profile \<Rightarrow> datetime \<Rightarrow> (datetime \<times> rat \<times> bool) result" where
  "event_time_of flat profile now =
     (case profile of
        None \<Rightarrow> generic_event_time flat profile now
      | Some p \<Rightarrow>
          if vs_time_paths p = [] then generic_event_time flat profile now
          else and_then (parse_option (first_value flat (vs_time_paths p))) (\<lambda>parsed.
                 case parsed of
                   Some t \<Rightarrow> Inr (t, PROFILE_CONFIDENCE, True)
                 | None \<Rightarrow> generic_event_time flat profile now))"

definition json_of_score :: "rat \<Rightarrow> json" where
  "json_of_score c = JFloat (round_half_even (c * 1000)) (-3)"

definition fields_found :: "bool \<Rightarrow> bool \<Rightarrow> string list" where
  "fields_found status_found time_found =
     ''entity_id'' # (if time_found then [''event_time''] else [])
                   @ (if status_found then [''status''] else [])"

definition rules_payload :: "json option \<Rightarrow> bool \<Rightarrow> profile \<Rightarrow> json" where
  "rules_payload raw_status time_found profile =
     JObj [(''source_status'', case raw_status of None \<Rightarrow> JNull | Some v \<Rightarrow> v),
           (''fields_found'', JArr (map JStr (fields_found (raw_status \<noteq> None) time_found))),
           (''normalizer'', JStr ''rules''),
           (''vendor_profile'', case profile of None \<Rightarrow> JNull | Some p \<Rightarrow> JStr (vs_vendor p))]"

definition rules_normalize :: "profile \<Rightarrow> datetime \<Rightarrow> json \<Rightarrow> normalization_response result" where
  "rules_normalize profile now payload =
     (let flat = flatten_payload payload [];
          (id_key, entity_id) = entity_id_of flat profile;
          (et, type_confidence) = classify flat id_key profile;
          raw_status = first_value flat (status_keys profile);
          (cs, status_confidence) = status_of et raw_status profile
      in and_then (event_time_of flat profile now) (\<lambda>(t, time_confidence, time_found).
         if entity_id = []
         then Inl (NormalizationError ''No identifier found in payload; cannot normalise without one'')
         else and_then (from_dict (reading_dict et entity_id cs (isoformat t)
                  (json_of_score (min type_confidence (min status_confidence time_confidence)))
                  (rules_payload raw_status time_found profile))) (\<lambda>result.
              Inr \<lparr> resp_normalized = result, resp_llm_model = MODEL_NAME,
                    resp_prompt_version = rules_PROMPT_VERSION \<rparr>)))"

section \<open>Flattening invents nothing\<close>

text \<open>The scalars of a payload, each with its full path and its own key.\<close>

fun leaves :: "json \<Rightarrow> string \<Rightarrow> (string \<times> string \<times> json) list"
  and member_leaves :: "(string \<times> json) list \<Rightarrow> string \<Rightarrow> (string \<times> string \<times> json) list"
  and item_leaves :: "json list \<Rightarrow> string \<Rightarrow> nat \<Rightarrow> (string \<times> string \<times> json) list" where
  "leaves (JObj kvs) prefix = member_leaves kvs prefix"
| "leaves (JArr xs) prefix = item_leaves xs prefix 0"
| "leaves _ prefix = []"
| "member_leaves [] prefix = []"
| "member_leaves ((key, value) # kvs) prefix =
     (if is_container value then leaves value (member_path prefix key)
      else [(member_path prefix key, key, value)]) @ member_leaves kvs prefix"
| "item_leaves [] prefix i = []"
| "item_leaves (x # xs) prefix i = leaves x (item_path prefix i) @ item_leaves xs prefix (i + 1)"

lemma flatten_wf:
  "dict_wf (flatten_payload j prefix)"
  "dict_wf out \<Longrightarrow> dict_wf (flatten_members kvs prefix out)"
  "dict_wf out \<Longrightarrow> dict_wf (flatten_items xs prefix i out)"
  by (induction j prefix and kvs prefix out and xs prefix i out
      rule: flatten_payload_flatten_members_flatten_items.induct) (auto simp: Let_def)

definition from_leaf :: "(string \<times> string \<times> json) list \<Rightarrow> string \<Rightarrow> json \<Rightarrow> bool" where
  "from_leaf ls k v \<longleftrightarrow> (\<exists>path key. (path, key, v) \<in> set ls \<and> (k = path \<or> k = key))"

lemma from_leaf_append [simp]: "from_leaf (xs @ ys) k v \<longleftrightarrow> from_leaf xs k v \<or> from_leaf ys k v"
  by (auto simp: from_leaf_def)

lemma from_leaf_single: "from_leaf [(p, key, w)] k v \<longleftrightarrow> v = w \<and> (k = p \<or> k = key)"
  by (auto simp: from_leaf_def)

lemma flatten_sound:
  "dict_get (flatten_payload j prefix) k = Some v \<Longrightarrow> from_leaf (leaves j prefix) k v"
  "dict_get (flatten_members kvs prefix out) k = Some v \<Longrightarrow>
     dict_get out k = Some v \<or> from_leaf (member_leaves kvs prefix) k v"
  "dict_get (flatten_items xs prefix i out) k = Some v \<Longrightarrow>
     dict_get out k = Some v \<or> from_leaf (item_leaves xs prefix i) k v"
proof (induction j prefix and kvs prefix out and xs prefix i out arbitrary: k v and k v and k v
    rule: flatten_payload_flatten_members_flatten_items.induct)
  case (5 key "value" kvs prefix out)
  let ?e = "flatten_payload value (member_path prefix key)"
  let ?out = "if is_container value then dict_update out ?e
              else dict_setdefault key value (dict_set (member_path prefix key) value out)"
  have "dict_get ?out k = Some v \<or> from_leaf (member_leaves kvs prefix) k v"
    using 5 by (simp only: flatten_members.simps Let_def)
  moreover have "dict_get ?out k = Some v \<Longrightarrow> dict_get out k = Some v \<or>
      from_leaf (if is_container value then leaves value (member_path prefix key)
                 else [(member_path prefix key, key, value)]) k v"
    using 5(1) flatten_wf(1) [of "value" "member_path prefix key"]
    by (cases "is_container value")
       (simp_all add: dict_get_update dict_get_setdefault from_leaf_single split: option.split_asm if_split_asm)
  ultimately show ?case by auto
next
  case (7 x xs prefix i out)
  let ?e = "flatten_payload x (item_path prefix i)"
  have "dict_get (dict_update out ?e) k = Some v \<or> from_leaf (item_leaves xs prefix (i + 1)) k v"
    using 7 by (simp only: flatten_items.simps)
  then show ?case using 7(1) flatten_wf(1) [of x "item_path prefix i"]
    by (auto simp: dict_get_update split: option.split_asm)
qed auto

lemma first_entry_sound:
  assumes "first_entry flat keys = Some (k, v)" "dict_wf flat"
  shows "k \<in> set keys \<and> \<not> none_or_empty v \<and>
    (\<exists>fk. dict_get flat fk = Some v \<and> (fk = k \<or> last_segment fk = k))"
proof (cases "find (\<lambda>k. case dict_get flat k of None \<Rightarrow> False | Some v \<Rightarrow> \<not> none_or_empty v) keys")
  case (Some k')
  then show ?thesis using assms(1) find_SomeD [OF Some]
    by (auto simp: first_entry_def split: option.splits)
next
  case None
  let ?hit = "\<lambda>k. find (\<lambda>(fk, v). last_segment fk = k \<and> \<not> none_or_empty v) flat"
  obtain k' where k': "find (\<lambda>k. ?hit k \<noteq> None) keys = Some k'" "k = k'" "v = snd (the (?hit k'))"
    using assms(1) None by (auto simp: first_entry_def Let_def split: option.splits)
  have "k \<in> set keys" "?hit k \<noteq> None" using find_SomeD [OF k'(1)] k'(2) by blast+
  then obtain fk w where hit: "?hit k = Some (fk, w)" by auto
  then have w: "(fk, w) \<in> set flat" "last_segment fk = k" "\<not> none_or_empty w"
    using find_SomeD [OF hit] by auto
  then have "dict_get flat fk = Some w" using assms(2) by (simp add: dict_wf_def)
  then show ?thesis using w k' hit \<open>k \<in> set keys\<close> by auto
qed

section \<open>Statuses and scores\<close>

text \<open>
  A profile the write serializer and statistical discovery accept: a known entity type, or none
  and then no statuses, and only statuses of that type.
\<close>

definition canonical_profile :: "profile \<Rightarrow> bool" where
  "canonical_profile profile \<longleftrightarrow>
     (forced_type profile \<in> set EntityType_values \<or> forced_type profile = []) \<and>
     (\<forall>(t, st) \<in> set (profile_map profile). canonical_pair (forced_type profile) st)"

lemma table_statuses:
  "dict_get SHIPMENT_STATUS k = Some st \<Longrightarrow> canonical_pair ''SHIPMENT'' st"
  "dict_get INVOICE_STATUS k = Some st \<Longrightarrow> canonical_pair ''INVOICE'' st"
  by (auto simp: SHIPMENT_STATUS_def INVOICE_STATUS_def canonical_pair_def ALLOWED_STATUSES_def
      ShipmentStatus_values_def InvoiceStatus_values_def split: if_splits)

lemma classify_type:
  "canonical_profile profile \<Longrightarrow> fst (classify flat k profile) \<in> set EntityType_values"
  by (auto simp: classify_def canonical_profile_def Let_def EntityType_values_def)

lemma classify_forced:
  "fst (classify flat k profile) = forced_type profile \<or> forced_type profile = []"
  by (auto simp: classify_def)

lemma match_suffix_from:
  "match_suffix pmap tab ss = Some (st, c) \<Longrightarrow>
     \<exists>s \<in> set ss. (dict_get pmap s = Some st \<and> c = PROFILE_CONFIDENCE) \<or>
       (dict_get pmap s = None \<and> dict_get tab s = Some st \<and> c = 75/100)"
  by (induction ss) (auto split: option.splits)

text \<open>What a status can come from, with the score each source gets.\<close>

lemma status_of_cases:
  assumes "status_of et raw profile = (st, c)"
  defines "tab \<equiv> (if et = ''SHIPMENT'' then SHIPMENT_STATUS else INVOICE_STATUS)"
  obtains (unclassified) "et = ''UNCLASSIFIED''" "st = ''UNKNOWN''" "c = 2/10"
    | (guess) "et \<noteq> ''UNCLASSIFIED''" "c \<in> {25/100, 3/10}"
        "st = (if et = ''SHIPMENT'' then ''IN_TRANSIT'' else ''ISSUED'')"
    | (by_profile) v s where "et \<noteq> ''UNCLASSIFIED''" "raw = Some v"
        "s \<in> set (status_token v # token_suffixes (status_token v))"
        "dict_get (profile_map profile) s = Some st" "c = PROFILE_CONFIDENCE"
    | (by_table) v s where "et \<noteq> ''UNCLASSIFIED''" "raw = Some v"
        "s \<in> set (status_token v # token_suffixes (status_token v))"
        "dict_get tab s = Some st" "c \<in> {9/10, 75/100}"
proof (cases "et = ''UNCLASSIFIED''")
  case True
  then show ?thesis using assms by (intro unclassified) (auto simp: status_of_def)
next
  case et: False
  show ?thesis
  proof (cases raw)
    case None
    then show ?thesis using et assms by (intro guess) (auto simp: status_of_def Let_def split: if_splits)
  next
    case (Some v)
    let ?k = "status_token v"
    have eq: "(st, c) = (case dict_get (profile_map profile) ?k of
             Some st \<Rightarrow> (st, PROFILE_CONFIDENCE)
           | None \<Rightarrow> (case dict_get tab ?k of
                  Some st \<Rightarrow> (st, 9/10)
                | None \<Rightarrow> (case match_suffix (profile_map profile) tab (token_suffixes ?k) of
                       Some r \<Rightarrow> r
                     | None \<Rightarrow> (if et = ''SHIPMENT'' then ''IN_TRANSIT'' else ''ISSUED'', 3/10))))"
      using assms(1) [symmetric] et Some unfolding status_of_def Let_def tab_def
      by (cases "et = ''SHIPMENT''") (simp_all cong: option.case_cong)
    show ?thesis
    proof (cases "dict_get (profile_map profile) ?k")
      case (Some x)
      then show ?thesis using eq by (intro by_profile [OF et \<open>raw = Some v\<close>, of ?k]) auto
    next
      case p: None
      show ?thesis
      proof (cases "dict_get tab ?k")
        case (Some x)
        then show ?thesis using eq p by (intro by_table [OF et \<open>raw = Some v\<close>, of ?k]) auto
      next
        case t: None
        show ?thesis
        proof (cases "match_suffix (profile_map profile) tab (token_suffixes ?k)")
          case None
          then show ?thesis using eq p t by (intro guess [OF et]) auto
        next
          case (Some r)
          then have "match_suffix (profile_map profile) tab (token_suffixes ?k) = Some (st, c)"
            using eq p t by simp
          then obtain s where "s \<in> set (token_suffixes ?k)"
              "(dict_get (profile_map profile) s = Some st \<and> c = PROFILE_CONFIDENCE) \<or>
               (dict_get tab s = Some st \<and> c = 75/100)"
            using match_suffix_from by blast
          then show ?thesis
            using by_profile [OF et \<open>raw = Some v\<close>, of s] by_table [OF et \<open>raw = Some v\<close>, of s] by auto
        qed
      qed
    qed
  qed
qed

lemma default_pairs: "canonical_pair ''SHIPMENT'' ''IN_TRANSIT''" "canonical_pair ''INVOICE'' ''ISSUED''"
  by (auto simp: canonical_pair_def ALLOWED_STATUSES_def ShipmentStatus_values_def InvoiceStatus_values_def)

lemma status_canonical:
  assumes "canonical_profile profile" "et \<in> set EntityType_values"
    and "et = forced_type profile \<or> forced_type profile = []"
  shows "canonical_pair et (fst (status_of et raw profile))"
proof -
  obtain st c where sc: "status_of et raw profile = (st, c)" by (cases "status_of et raw profile")
  have pmap: "canonical_pair et st" if "dict_get (profile_map profile) s = Some st" for s
  proof -
    have "(s, st) \<in> set (profile_map profile)" using that by (rule map_of_SomeD)
    then have f: "canonical_pair (forced_type profile) st"
      using assms(1) by (auto simp: canonical_profile_def)
    moreover have "forced_type profile \<noteq> []"
      using f by (auto simp: canonical_pair_def ALLOWED_STATUSES_def)
    ultimately show ?thesis using assms(3) by simp
  qed
  have et: "et \<in> {''SHIPMENT'', ''INVOICE'', ''UNCLASSIFIED''}"
    using assms(2) by (simp add: EntityType_values_def)
  from sc have "canonical_pair et st"
  proof (cases rule: status_of_cases)
    case unclassified
    then show ?thesis by (simp add: canonical_pair_examples)
  next
    case guess
    then show ?thesis using et default_pairs by auto
  next
    case by_profile
    then show ?thesis using pmap by blast
  next
    case (by_table v s)
    then show ?thesis using et table_statuses by (cases "et = ''SHIPMENT''") auto
  qed
  then show ?thesis by (simp add: sc)
qed

lemma classify_score: "2/10 \<le> snd (classify flat k profile) \<and> snd (classify flat k profile) \<le> 97/100"
  by (auto simp: classify_def Let_def PROFILE_CONFIDENCE_def ID_KEY_CONFIDENCE_def min_def)

lemma status_score: "2/10 \<le> snd (status_of et raw profile) \<and> snd (status_of et raw profile) \<le> 97/100"
proof -
  obtain st c where sc: "status_of et raw profile = (st, c)" by (cases "status_of et raw profile")
  then have "2/10 \<le> c \<and> c \<le> 97/100" by (cases rule: status_of_cases) (auto simp: PROFILE_CONFIDENCE_def)
  then show ?thesis by (simp add: sc)
qed

section \<open>Times\<close>

lemma as_utc_ok: "datetime_ok t \<Longrightarrow> datetime_ok (as_utc t) \<and> aware (as_utc t)"
  by (auto simp: as_utc_def datetime_ok_def aware_def day_micros_def)

lemma from_number_ok: "from_number x = Some t \<Longrightarrow> datetime_ok t \<and> aware t"
  using fromtimestamp_ok unfolding from_number_def by blast

lemma parse_timestamp_ok: "parse_timestamp v = Inr (Some t) \<Longrightarrow> datetime_ok t \<and> aware t"
  by (cases v rule: parse_timestamp.cases)
     (auto dest!: fromisoformat_ok dest: from_number_ok simp: as_utc_ok)

text \<open>A time is either read from the payload or is the time of arrival, and says which.\<close>

lemma generic_event_time_cases:
  assumes "generic_event_time flat profile now = Inr (t, c, found)"
  shows "(found \<and> c = 95/100 \<and>
            (\<exists>v. first_value flat (time_keys profile) = Some v \<and> parse_timestamp v = Inr (Some t))) \<or>
         (\<not> found \<and> t = now \<and> c = 4/10)"
  using assms by (auto simp: generic_event_time_def parse_option_def split: option.splits)

lemma event_time_cases:
  assumes "event_time_of flat profile now = Inr (t, c, found)"
  shows "(found \<and> c \<in> {95/100, 97/100} \<and>
            (\<exists>keys v. first_value flat keys = Some v \<and> parse_timestamp v = Inr (Some t))) \<or>
         (\<not> found \<and> t = now \<and> c = 4/10)"
proof (cases "generic_event_time flat profile now = Inr (t, c, found)")
  case True
  then show ?thesis using generic_event_time_cases by blast
next
  case False
  then show ?thesis using assms
    by (auto simp: event_time_of_def parse_option_def PROFILE_CONFIDENCE_def split: option.splits if_splits)
qed

lemma event_time_ok:
  assumes "event_time_of flat profile now = Inr (t, c, found)" "datetime_ok now" "aware now"
  shows "datetime_ok t \<and> aware t \<and> 4/10 \<le> c \<and> c \<le> 97/100"
  using event_time_cases [OF assms(1)] assms(2,3) by (auto dest: parse_timestamp_ok)

lemma event_time_total:
  assumes "\<And>keys v. first_value flat keys = Some v \<Longrightarrow> \<exists>t. parse_timestamp v = Inr t"
  shows "\<exists>r. event_time_of flat profile now = Inr r"
proof -
  have p: "parse_option (first_value flat keys) \<noteq> Inl e" for keys e
    by (cases "first_value flat keys") (use assms in \<open>fastforce simp: parse_option_def\<close>)+
  then have g: "generic_event_time flat profile now \<noteq> Inl e" for e
    by (auto simp: generic_event_time_def and_then_Inl_iff split: option.split)
  then have "event_time_of flat profile now \<noteq> Inl e" for e
    using p by (auto simp: event_time_of_def and_then_Inl_iff split: option.split)
  then show ?thesis by (cases "event_time_of flat profile now") auto
qed

lemma py_float_score [simp]: "py_float (json_of_score c) = Inr (Fin (round3 c))"
  by (simp add: json_of_score_def scale10_def round3_def)

lemma round3_bounds: "2/10 \<le> c \<Longrightarrow> c \<le> 97/100 \<Longrightarrow> 2/10 \<le> round3 c \<and> round3 c \<le> 97/100"
  using round_half_even_mono_int [of 200 "c * 1000"] round_half_even_mono_int' [of "c * 1000" 970]
  by (auto simp: round3_def field_simps)

lemma round3_small: "c \<le> 4/10 \<Longrightarrow> round3 c \<le> 4/10"
  using round_half_even_mono_int' [of "c * 1000" 400] by (auto simp: round3_def field_simps)

section \<open>What the rules promise\<close>

lemma item_reading:
  "item (reading_dict et eid cs t score np) ''entity_type'' = Inr (JStr et)"
  "item (reading_dict et eid cs t score np) ''canonical_status'' = Inr (JStr cs)"
  "item (reading_dict et eid cs t score np) ''entity_id'' = Inr (JStr eid)"
  "item (reading_dict et eid cs t score np) ''event_time'' = Inr (JStr t)"
  "item (reading_dict et eid cs t score np) ''confidence_score'' = Inr score"
  by (simp_all add: reading_dict_def)

lemma from_dict_readingD:
  assumes "from_dict (reading_dict et eid cs (isoformat t) score np) = Inr r" "datetime_ok t"
  shows "nr_entity_type r = upper et \<and> nr_entity_id r = strip eid \<and> nr_canonical_status r = upper cs \<and>
    nr_event_time r = t \<and> py_float score = Inr (nr_confidence_score r)"
  using assms(1) by (rule from_dict_InrE) (auto simp: item_reading assms(2))

lemma rules_normalize_Inr:
  assumes "rules_normalize profile now payload = Inr resp" "datetime_ok now" "aware now"
  defines "flat \<equiv> flatten_payload payload []" and "r \<equiv> resp_normalized resp"
  obtains id_key eid et tc cs sc t c found where
    "entity_id_of flat profile = (id_key, eid)" "eid \<noteq> []"
    "classify flat id_key profile = (et, tc)"
    "status_of et (first_value flat (status_keys profile)) profile = (cs, sc)"
    "event_time_of flat profile now = Inr (t, c, found)"
    "wf_result r" "nr_entity_type r = upper et" "nr_entity_id r = strip eid"
    "nr_canonical_status r = upper cs" "nr_event_time r = t"
    "nr_confidence_score r = Fin (round3 (min tc (min sc c)))"
proof -
  obtain id_key eid where i: "entity_id_of flat profile = (id_key, eid)"
    by (cases "entity_id_of flat profile")
  obtain et tc where e: "classify flat id_key profile = (et, tc)"
    by (cases "classify flat id_key profile")
  obtain cs sc where st: "status_of et (first_value flat (status_keys profile)) profile = (cs, sc)"
    by (cases "status_of et (first_value flat (status_keys profile)) profile")
  obtain t c found result where t: "event_time_of flat profile now = Inr (t, c, found)"
      and eid: "eid \<noteq> []"
      and fd: "from_dict (reading_dict et eid cs (isoformat t) (json_of_score (min tc (min sc c)))
                 (rules_payload (first_value flat (status_keys profile)) found profile)) = Inr result"
      and r: "r = result"
    using assms(1) i e st unfolding rules_normalize_def flat_def r_def Let_def
    by (auto split: if_splits)
  have "datetime_ok t" using event_time_ok [OF t assms(2,3)] by simp
  then show ?thesis
    using that [OF i eid e st t] from_dict_wf [OF fd] from_dict_readingD [OF fd] r by simp
qed

lemma first_value_found:
  assumes "first_value (flatten_payload j prefix) keys = Some v"
  shows "\<exists>k. dict_get (flatten_payload j prefix) k = Some v \<and> from_leaf (leaves j prefix) k v"
proof -
  obtain k where "first_entry (flatten_payload j prefix) keys = Some (k, v)"
    using assms by (cases "first_entry (flatten_payload j prefix) keys") (auto simp: first_value_def)
  then obtain fk where "dict_get (flatten_payload j prefix) fk = Some v"
    using first_entry_sound flatten_wf(1) by blast
  then show ?thesis using flatten_sound(1) by blast
qed

lemma rules_reading:
  assumes "canonical_profile profile" "datetime_ok now" "aware now"
    and e: "classify flat id_key profile = (et, tc)" and st: "status_of et raw profile = (cs, sc)"
    and t: "event_time_of flat profile now = Inr (t, c, found)" and eid: "eid \<noteq> []" "strip eid = eid"
  shows "2/10 \<le> min tc (min sc c)" "min tc (min sc c) \<le> 97/100"
    and "from_dict (reading_dict et eid cs (isoformat t) (json_of_score (min tc (min sc c)))
        (rules_payload raw found profile)) = Inr
      \<lparr> nr_entity_type = et, nr_entity_id = eid, nr_canonical_status = cs, nr_event_time = t,
        nr_confidence_score = Fin (round3 (min tc (min sc c))), nr_normalized_payload = rules_payload raw found profile \<rparr>"
proof -
  show cb: "2/10 \<le> min tc (min sc c)" "min tc (min sc c) \<le> 97/100"
    using classify_score [of flat id_key profile] status_score [of et raw profile]
      event_time_ok [OF t assms(2,3)] by (auto simp: e st)
  have et: "et \<in> set EntityType_values" "et = forced_type profile \<or> forced_type profile = []"
    using classify_type [OF assms(1)] classify_forced [of flat id_key profile] e by (auto simp: prod_eq_iff)
  have "canonical_pair et cs" using status_canonical [OF assms(1) et, of raw] st by simp
  then show "from_dict (reading_dict et eid cs (isoformat t) (json_of_score (min tc (min sc c)))
        (rules_payload raw found profile)) = Inr
      \<lparr> nr_entity_type = et, nr_entity_id = eid, nr_canonical_status = cs, nr_event_time = t,
        nr_confidence_score = Fin (round3 (min tc (min sc c))), nr_normalized_payload = rules_payload raw found profile \<rparr>"
    using eid event_time_ok [OF t assms(2,3)] round3_bounds [OF cb]
    by (intro from_dict_reading) (auto simp: rules_payload_def)
qed


lemma first_value_leaf: "first_value (flatten_payload payload []) keys = Some v \<Longrightarrow> \<exists>k. from_leaf (leaves payload []) k v"
  using first_value_found by blast

lemma status_evidence:
  assumes "status_of et (first_value (flatten_payload payload []) keys) profile = (cs, sc)" "4/10 < sc"
  shows "et \<noteq> ''UNCLASSIFIED'' \<and> (\<exists>k v s. from_leaf (leaves payload []) k v \<and>
      s \<in> set (status_token v # token_suffixes (status_token v)) \<and>
      (dict_get (profile_map profile) s = Some cs \<or> dict_get SHIPMENT_STATUS s = Some cs \<or>
       dict_get INVOICE_STATUS s = Some cs))"
  using assms(1)
proof (cases rule: status_of_cases)
  case (by_profile v s)
  then show ?thesis using first_value_leaf by blast
next
  case (by_table v s)
  then obtain k where "from_leaf (leaves payload []) k v" using first_value_leaf by blast
  moreover have "dict_get SHIPMENT_STATUS s = Some cs \<or> dict_get INVOICE_STATUS s = Some cs"
    using by_table(4) by (cases "et = ''SHIPMENT''") simp_all
  ultimately show ?thesis using by_table(1,3) by blast
qed (use assms(2) in auto)

lemma classified_type:
  assumes "forced_type profile \<in> set EntityType_values \<or> forced_type profile = []"
  shows "fst (classify flat id_key profile) \<in> set EntityType_values"
  using assms classify_forced [of flat id_key profile]
  by (auto simp: classify_def Let_def EntityType_values_def split: if_splits)

text \<open>C18. A reading that scores above 0.4, as every trusted one does at the default threshold, has
  evidence in the payload for each of its parts: the identifier and the time are scalars of the
  payload, the type is a shipment or an invoice, and the status is what the vendor's profile or
  the type's own vocabulary says the payload's status word means.\<close>

theorem trusted_reading_has_evidence:
  assumes "rules_normalize profile now payload = Inr resp" "datetime_ok now" "aware now"
    and "nr_confidence_score (resp_normalized resp) = Fin c" "4/10 < c"
  shows "(forced_type profile \<in> set EntityType_values \<or> forced_type profile = [] \<longrightarrow>
       nr_entity_type (resp_normalized resp) \<in> {''SHIPMENT'', ''INVOICE''}) \<and>
    (\<exists>k v. from_leaf (leaves payload []) k v \<and> nr_entity_id (resp_normalized resp) = strip (py_str v)) \<and>
    (\<exists>k v. from_leaf (leaves payload []) k v \<and>
       parse_timestamp v = Inr (Some (nr_event_time (resp_normalized resp)))) \<and>
    (\<exists>k v s st. from_leaf (leaves payload []) k v \<and>
       s \<in> set (status_token v # token_suffixes (status_token v)) \<and>
       (dict_get (profile_map profile) s = Some st \<or> dict_get SHIPMENT_STATUS s = Some st \<or>
        dict_get INVOICE_STATUS s = Some st) \<and>
       nr_canonical_status (resp_normalized resp) = upper st)"
proof -
  let ?flat = "flatten_payload payload []" and ?r = "resp_normalized resp"
  note leaf = first_value_leaf [of payload]
  obtain id_key eid et tc cs sc t tm found where
    i: "entity_id_of ?flat profile = (id_key, eid)" "eid \<noteq> []" and e: "classify ?flat id_key profile = (et, tc)"
    and st: "status_of et (first_value ?flat (status_keys profile)) profile = (cs, sc)"
    and t: "event_time_of ?flat profile now = Inr (t, tm, found)"
    and r: "wf_result ?r" "nr_entity_type ?r = upper et" "nr_entity_id ?r = strip eid"
      "nr_canonical_status ?r = upper cs" "nr_event_time ?r = t"
      "nr_confidence_score ?r = Fin (round3 (min tc (min sc tm)))"
    using rules_normalize_Inr [OF assms(1-3)] by metis
  have "c = round3 (min tc (min sc tm))" using r(6) assms(4) by simp
  then have "4/10 < min tc (min sc tm)"
    using round3_small [of "min tc (min sc tm)"] assms(5) by linarith
  then have big: "4/10 < tc" "4/10 < sc" "4/10 < tm" by (simp_all only: min_less_iff_conj)
  have id: "\<exists>k v. from_leaf (leaves payload []) k v \<and> nr_entity_id ?r = strip (py_str v)"
  proof -
    obtain k v where kv: "first_entry ?flat (id_keys profile) = Some (k, v)" "eid = strip (py_str v)"
      using i by (auto simp: entity_id_of_def split: option.splits)
    then have "nr_entity_id ?r = strip (py_str v)" using r(3) by simp
    then show ?thesis using leaf [of "id_keys profile" v] kv(1) by (auto simp: first_value_def)
  qed
  have time: "\<exists>k v. from_leaf (leaves payload []) k v \<and> parse_timestamp v = Inr (Some (nr_event_time ?r))"
  proof -
    obtain keys v where "first_value ?flat keys = Some v" "parse_timestamp v = Inr (Some t)"
      using event_time_cases [OF t] big(3) by auto
    then show ?thesis using leaf r(5) by blast
  qed
  note status_evidence [OF st big(2)]
  moreover have "nr_entity_type ?r \<in> {''SHIPMENT'', ''INVOICE''}"
    if "forced_type profile \<in> set EntityType_values \<or> forced_type profile = []"
      "et \<noteq> ''UNCLASSIFIED''"
  proof -
    have "et \<in> set EntityType_values" using classified_type [OF that(1)] e by (metis fst_conv)
    then have "et \<in> {''SHIPMENT'', ''INVOICE''}" using that(2) by (auto simp: EntityType_values_def)
    then show ?thesis using r(2) by (auto simp: upper_def char_upper_def)
  qed
  ultimately show ?thesis using id time r(4) by blast
qed

section \<open>Two surprises\<close>

definition order_payload :: json where
  "order_payload =
     JObj [(''id'', JStr ''ORDER-1''), (''customer'', JObj [(''id'', JStr ''CUSTOMER-9'')])]"

text \<open>A scalar deeper in the payload takes the place of a top-level one with the same name:
  the customer's id, not the order's, becomes the identifier.\<close>

theorem nested_scalar_shadows_top_level:
  "dict_get (flatten_payload order_payload []) ''id'' = Some (JStr ''CUSTOMER-9'') \<and>
   first_entry (flatten_payload order_payload []) ID_KEYS = Some (''id'', JStr ''CUSTOMER-9'') \<and>
   from_leaf (leaves order_payload []) ''id'' (JStr ''ORDER-1'')"
proof -
  have "dict_get (flatten_payload order_payload []) ''id'' = Some (JStr ''CUSTOMER-9'')"
    by code_simp
  moreover have "first_entry (flatten_payload order_payload []) ID_KEYS = Some (''id'', JStr ''CUSTOMER-9'')"
    by code_simp
  moreover have "(''id'', ''id'', JStr ''ORDER-1'') \<in> set (leaves order_payload [])"
    by (simp add: order_payload_def member_path_def)
  ultimately show ?thesis by (auto simp: from_leaf_def)
qed

text \<open>The only exception of \<open>parse_timestamp\<close> is OverflowError, raised exactly for the integers
  too large for a float; every other value gives a valid aware time or none.\<close>

theorem parse_timestamp_raises_iff:
  "((\<exists>e. parse_timestamp v = Inl e) \<longleftrightarrow> (\<exists>i. v = JInt i \<and> float_limit \<le> \<bar>of_int i\<bar>)) \<and>
   (\<forall>t. parse_timestamp v = Inr (Some t) \<longrightarrow> datetime_ok t \<and> aware t)"
proof
  show "(\<exists>e. parse_timestamp v = Inl e) \<longleftrightarrow> (\<exists>i. v = JInt i \<and> float_limit \<le> \<bar>of_int i\<bar>)"
    by (cases v) auto
  show "\<forall>t. parse_timestamp v = Inr (Some t) \<longrightarrow> datetime_ok t \<and> aware t"
    using parse_timestamp_ok by blast
qed

section \<open>Witnesses\<close>

definition parcel :: json where
  "parcel = JObj [(''tracking_number'', JStr ''T-1''), (''status'', JStr ''delivered''),
                  (''timestamp'', JStr (isoformat sample_time))]"

lemma parcel_flat:
  "flatten_payload parcel [] =
     [(''tracking_number'', JStr ''T-1''), (''status'', JStr ''delivered''),
      (''timestamp'', JStr (isoformat sample_time))]"
  by (simp add: parcel_def member_path_def dict_setdefault_def)

lemma isoformat_nonempty [simp]: "isoformat t \<noteq> []"
  by (simp add: isoformat_def)

lemma strip_T1: "strip ''T-1'' = ''T-1''"
  by code_simp

lemma parcel_values:
  "entity_id_of (flatten_payload parcel []) None = (Some ''tracking_number'', ''T-1'')"
  "first_value (flatten_payload parcel []) (status_keys None) = Some (JStr ''delivered'')"
  "first_value (flatten_payload parcel []) (time_keys None) = Some (JStr (isoformat sample_time))"
proof -
  have "strip ''T-1'' = ''T-1''" by code_simp
  then show "entity_id_of (flatten_payload parcel []) None = (Some ''tracking_number'', ''T-1'')"
    by (simp add: parcel_flat entity_id_of_def id_keys_def ID_KEYS_def first_entry_def none_or_empty_def)
  show "first_value (flatten_payload parcel []) (status_keys None) = Some (JStr ''delivered'')"
    by (simp add: parcel_flat first_value_def status_keys_def STATUS_KEYS_def first_entry_def none_or_empty_def)
  show "first_value (flatten_payload parcel []) (time_keys None) = Some (JStr (isoformat sample_time))"
    by (simp add: parcel_flat first_value_def time_keys_def TIME_KEYS_def first_entry_def none_or_empty_def)
qed

lemma parcel_classified: "classify flat (Some ''tracking_number'') None = (''SHIPMENT'', 9/10)"
proof -
  have "lower (last_segment ''tracking_number'') = ''tracking_number''" by code_simp
  then show ?thesis
    by (simp add: classify_def forced_type_def SHIPMENT_ID_KEYS_def ID_KEY_CONFIDENCE_def)
qed

lemma delivered_status: "status_of ''SHIPMENT'' (Some (JStr ''delivered'')) None = (''DELIVERED'', 9/10)"
proof -
  have "status_token (JStr ''delivered'') = ''delivered''" by code_simp
  then show ?thesis by (simp add: status_of_def profile_map_def SHIPMENT_STATUS_def)
qed

lemma parcel_time:
  "event_time_of (flatten_payload parcel []) None now = Inr (sample_time, 95/100, True)"
  using parcel_values(3) sample_time_ok
  by (simp add: event_time_of_def generic_event_time_def parse_option_def fromisoformat_isoformat as_utc_def
      del: and_then_Inr_iff)

definition parcel_reading :: normalization_response where
  "parcel_reading = \<lparr> resp_normalized =
       \<lparr> nr_entity_type = ''SHIPMENT'', nr_entity_id = ''T-1'', nr_canonical_status = ''DELIVERED'',
         nr_event_time = sample_time, nr_confidence_score = Fin (9/10),
         nr_normalized_payload = rules_payload (Some (JStr ''delivered'')) True None \<rparr>,
     resp_llm_model = MODEL_NAME, resp_prompt_version = rules_PROMPT_VERSION \<rparr>"

lemma parcel_read_as: "rules_normalize None now parcel = Inr parcel_reading"
proof -
  have "round3 (min (9/10) (min (9/10) (95/100))) = 9/10"
    using round3_thousandths [of 900] by simp
  then have "py_float (json_of_score (min (9/10) (min (9/10) (95/100)))) = Inr (Fin (9/10))" by simp
  then show ?thesis
    using from_dict_reading [OF canonical_pair_examples(1), of "''T-1''" sample_time
        "json_of_score (min (9/10) (min (9/10) (95/100)))" "Fin (9/10)"
        "rules_payload (Some (JStr ''delivered'')) True None"] sample_time_ok strip_examples
    by (simp add: rules_normalize_def Let_def parcel_values parcel_classified delivered_status parcel_time
        rules_payload_def strip_T1 parcel_reading_def)
qed

lemma parcel_read:
  "\<exists>resp. rules_normalize None now parcel = Inr resp \<and>
     nr_confidence_score (resp_normalized resp) = Fin (9/10)"
  by (simp add: parcel_read_as) (simp add: parcel_reading_def)

theorem trusted_reading_has_evidence_witness:
  "\<exists>resp. rules_normalize None sample_time parcel = Inr resp \<and>
     nr_entity_type (resp_normalized resp) \<in> {''SHIPMENT'', ''INVOICE''}"
proof -
  obtain resp where "rules_normalize None sample_time parcel = Inr resp"
      "nr_confidence_score (resp_normalized resp) = Fin (9/10)"
    using parcel_read by blast
  then show ?thesis
    using trusted_reading_has_evidence [of None sample_time parcel resp "9/10"] sample_time_ok
    by (auto simp: forced_type_def)
qed


theorem parse_timestamp_raises_iff_witness:
  "\<not> (\<exists>e. parse_timestamp (JInt 1700000000) = Inl e)"
proof -
  have "\<not> float_limit \<le> \<bar>of_int 1700000000\<bar>" by (simp add: float_limit_def)
  then show ?thesis using parse_timestamp_raises_iff [of "JInt 1700000000"] by blast
qed

end
