(* ===== verification/Entities.thy ===== *)
theory Entities
  imports Models
begin

text \<open>
  \<open>apps/entities\<close>: the projection of the latest status of each entity, protected against
  events that arrive out of order, and the view that reads it.
\<close>

section \<open>The contract of a latest-value store\<close>

text \<open>What a stored value becomes when a value arrives: the later one, the stored one on a tie.\<close>

fun newer :: "('v \<Rightarrow> 't :: linorder) \<Rightarrow> 'v option \<Rightarrow> 'v \<Rightarrow> 'v option" where
  "newer time None v = Some v"
| "newer time (Some w) v = Some (if time w < time v then v else w)"

lemma fold_newer_Some:
  "fold (\<lambda>v st. newer time st v) vs (Some w) = Some v \<Longrightarrow>
     (v = w \<or> (v \<in> set vs \<and> time w < time v)) \<and> (\<forall>u \<in> insert w (set vs). time u \<le> time v)"
proof (induction vs arbitrary: w)
  case (Cons u vs)
  then show ?case by (fastforce split: if_splits)
qed simp

lemma fold_newer_total: "\<exists>v. fold (\<lambda>v st. newer time st v) vs (Some w) = Some v"
proof (induction vs arbitrary: w)
  case (Cons u vs)
  show ?case using Cons.IH [of "if time w < time u then u else w"] by simp
qed simp

text \<open>
  The outcome depends on which values arrived and not on the order or on repetitions, when no
  two different values carry the same time.
\<close>

lemma fold_newer_set:
  assumes "set us = set vs" "inj_on time (set vs)"
  shows "fold (\<lambda>v st. newer time st v) us st = fold (\<lambda>v st. newer time st v) vs st"
proof (cases st)
  case (Some w)
  obtain u v where uv: "fold (\<lambda>v st. newer time st v) us (Some w) = Some u"
      "fold (\<lambda>v st. newer time st v) vs (Some w) = Some v"
    using fold_newer_total [of time] by metis
  note fu = fold_newer_Some [OF uv(1)] and fv = fold_newer_Some [OF uv(2)]
  have "time u \<le> time v" "time v \<le> time u" using fu fv assms(1) by auto
  then have eq: "time u = time v" by simp
  then have "u = v" using fu fv assms by (metis inj_on_eq_iff order_less_irrefl)
  then show ?thesis using uv Some by simp
next
  case None
  show ?thesis
  proof (cases vs)
    case Nil
    then show ?thesis using assms(1) by simp
  next
    case (Cons b bs)
    then obtain a as where us: "us = a # as" using assms(1) by (cases us) auto
    obtain u v where uv: "fold (\<lambda>v st. newer time st v) as (Some a) = Some u"
        "fold (\<lambda>v st. newer time st v) bs (Some b) = Some v"
      using fold_newer_total [of time] by metis
    note fu = fold_newer_Some [OF uv(1)] and fv = fold_newer_Some [OF uv(2)]
    have mem: "u \<in> set vs" "v \<in> set vs" using fu fv assms(1) us Cons by auto
    then have "time u \<le> time v" "time v \<le> time u" using fu fv assms(1) us Cons by auto
    then have "u = v" using mem assms(2) by (simp add: inj_on_eq_iff)
    then show ?thesis using uv us Cons None by simp
  qed
qed

locale latest_state =
  fixes upsert :: "'e \<Rightarrow> 'db \<Rightarrow> 'db"
    and lookup :: "'db \<Rightarrow> 'k \<Rightarrow> 'v option"
    and key :: "'e \<Rightarrow> 'k"
    and snapshot :: "'e \<Rightarrow> 'v"
    and time :: "'v \<Rightarrow> 't :: linorder"
    and inv :: "'db \<Rightarrow> bool"
  assumes inv_upsert: "inv db \<Longrightarrow> inv (upsert e db)"
    and lookup_upsert: "inv db \<Longrightarrow> lookup (upsert e db) k =
      (if k = key e then newer time (lookup db k) (snapshot e) else lookup db k)"
begin

lemma inv_fold: "inv db \<Longrightarrow> inv (fold upsert es db)"
  by (induction es arbitrary: db) (auto intro: inv_upsert)

lemma lookup_fold:
  "inv db \<Longrightarrow> lookup (fold upsert es db) k =
     fold (\<lambda>v st. newer time st v) (map snapshot (filter (\<lambda>e. key e = k) es)) (lookup db k)"
  by (induction es arbitrary: db) (auto simp: lookup_upsert inv_upsert)

lemma never_older:
  assumes "inv db" "lookup db k = Some w"
  shows "\<exists>v. lookup (fold upsert es db) k = Some v \<and> time w \<le> time v"
proof -
  obtain v where v: "fold (\<lambda>v st. newer time st v)
      (map snapshot (filter (\<lambda>e. key e = k) es)) (Some w) = Some v"
    using fold_newer_total [of time] by blast
  then show ?thesis using fold_newer_Some [OF v] assms by (auto simp: lookup_fold)
qed

lemma lookup_untouched:
  "inv db \<Longrightarrow> \<forall>e \<in> set es. key e \<noteq> k \<Longrightarrow> lookup (fold upsert es db) k = lookup db k"
  by (simp add: lookup_fold filter_empty_conv)

lemma lookup_latest:
  assumes "inv db" "lookup db k = None" "e \<in> set es" "key e = k"
  shows "\<exists>e' \<in> set es. key e' = k \<and> lookup (fold upsert es db) k = Some (snapshot e') \<and>
           (\<forall>e'' \<in> set es. key e'' = k \<longrightarrow> time (snapshot e'') \<le> time (snapshot e'))"
proof -
  let ?vs = "map snapshot (filter (\<lambda>e. key e = k) es)"
  obtain a as where vs: "?vs = a # as"
    using assms(3,4) by (cases ?vs) (auto simp: filter_empty_conv)
  obtain v where v: "fold (\<lambda>v st. newer time st v) as (Some a) = Some v"
    using fold_newer_total [of time] by blast
  note f = fold_newer_Some [OF v]
  have "lookup (fold upsert es db) k = Some v" using assms(1,2) v vs by (simp add: lookup_fold)
  moreover have "v \<in> set ?vs" "\<forall>u \<in> set ?vs. time u \<le> time v" unfolding vs using f by auto
  ultimately show ?thesis by auto
qed

lemma order_irrelevant:
  assumes "inv db" "set es = set es'"
    and "\<And>e e'. e \<in> set es \<Longrightarrow> e' \<in> set es \<Longrightarrow> key e = key e' \<Longrightarrow>
           time (snapshot e) = time (snapshot e') \<Longrightarrow> snapshot e = snapshot e'"
  shows "lookup (fold upsert es db) = lookup (fold upsert es' db)"
proof
  fix k
  have "inj_on time (set (map snapshot (filter (\<lambda>e. key e = k) es')))"
    using assms(2,3) by (auto simp: inj_on_def)
  then show "lookup (fold upsert es db) k = lookup (fold upsert es' db) k"
    using fold_newer_set [of "map snapshot (filter (\<lambda>e. key e = k) es)"
        "map snapshot (filter (\<lambda>e. key e = k) es')" time] assms(1,2)
    by (simp add: lookup_fold)
qed

end

section \<open>EntityStateRepository\<close>

definition event_key :: "normalized_event \<Rightarrow> string \<times> string" where
  "event_key e = (ev_entity_type e, ev_entity_id e)"

definition state_of_event :: "normalized_event \<Rightarrow> instant \<Rightarrow> entity_state" where
  "state_of_event e now =
     \<lparr> es_entity_type = ev_entity_type e, es_entity_id = ev_entity_id e,
       es_latest_status = ev_canonical_status e, es_latest_event_time = ev_event_time e,
       es_latest_event = ev_id e, es_updated_at = now \<rparr>"

definition upsert_if_newer ::
  "normalized_event \<Rightarrow> instant \<Rightarrow> entity_state list \<Rightarrow> entity_state \<times> entity_state list" where
  "upsert_if_newer e now states =
     (case first_row (\<lambda>s. state_key s = event_key e) states of
        None \<Rightarrow> let s = state_of_event e now in (s, states @ [s])
      | Some s \<Rightarrow>
          if es_latest_event_time s < ev_event_time e then
            let s' = s \<lparr> es_latest_status := ev_canonical_status e,
                         es_latest_event_time := ev_event_time e,
                         es_latest_event := ev_id e, es_updated_at := now \<rparr>
            in (s', save_row state_key s' states)
          else (s, states))"

definition get_current_state :: "string \<Rightarrow> string \<Rightarrow> entity_state list \<Rightarrow> entity_state option" where
  "get_current_state et eid states = first_row (\<lambda>s. state_key s = (et, eid)) states"

definition log_entity_state_count :: "entity_state list \<Rightarrow> nat" where
  "log_entity_state_count states = length states"

section \<open>EntityStateView\<close>

record entity_state_body =
  esb_entity_type :: string
  esb_entity_id :: string
  esb_latest_status :: string
  esb_latest_event_time :: instant
  esb_latest_event_id :: nat

definition EntityStateSerializer :: "entity_state \<Rightarrow> entity_state_body" where
  "EntityStateSerializer s =
     \<lparr> esb_entity_type = es_entity_type s, esb_entity_id = es_entity_id s,
       esb_latest_status = es_latest_status s, esb_latest_event_time = es_latest_event_time s,
       esb_latest_event_id = es_latest_event s \<rparr>"

definition EntityStateView_get ::
  "query_params \<Rightarrow> entity_state list \<Rightarrow> entity_state_body response" where
  "EntityStateView_get params states =
     (case (query_get params ''entity_type'', query_get params ''entity_id'') of
        (Some et, Some eid) \<Rightarrow>
          if et = [] \<or> eid = [] then (400, Detail ''entity_type and entity_id are required query params.'')
          else (case get_current_state et eid states of
                  None \<Rightarrow> (404, Detail ''Not found.'')
                | Some s \<Rightarrow> (200, Body (EntityStateSerializer s)))
      | _ \<Rightarrow> (400, Detail ''entity_type and entity_id are required query params.''))"

section \<open>The projection is a latest-value store\<close>

text \<open>The part of a state row, and of an event, that says what the latest status is.\<close>

type_synonym latest = "string \<times> instant \<times> nat"

definition state_latest :: "entity_state \<Rightarrow> latest" where
  "state_latest s = (es_latest_status s, es_latest_event_time s, es_latest_event s)"

definition event_latest :: "normalized_event \<Rightarrow> latest" where
  "event_latest e = (ev_canonical_status e, ev_event_time e, ev_id e)"

definition latest_of :: "entity_state list \<Rightarrow> string \<times> string \<Rightarrow> latest option" where
  "latest_of states k = map_option state_latest (first_row (\<lambda>s. state_key s = k) states)"

definition project :: "normalized_event \<times> instant \<Rightarrow> entity_state list \<Rightarrow> entity_state list" where
  "project = (\<lambda>(e, now) states. snd (upsert_if_newer e now states))"

lemma state_key_of_event [simp]: "state_key (state_of_event e now) = event_key e"
  by (simp add: state_key_def state_of_event_def event_key_def)

lemma state_key_update [simp]:
  "state_key (s \<lparr> es_latest_status := a, es_latest_event_time := b, es_latest_event := c,
                 es_updated_at := d \<rparr>) = state_key s"
  by (simp add: state_key_def)

lemma state_latest_of_event [simp]: "state_latest (state_of_event e now) = event_latest e"
  by (simp add: state_latest_def state_of_event_def event_latest_def)

lemma upsert_keeps_constraints:
  "state_constraints states \<Longrightarrow> state_constraints (snd (upsert_if_newer e now states))"
  by (auto simp: state_constraints_def upsert_if_newer_def Let_def first_row_None split: option.split)

lemma latest_upsert:
  "latest_of (snd (upsert_if_newer e now states)) k =
     (if k = event_key e then newer (fst \<circ> snd) (latest_of states k) (event_latest e)
      else latest_of states k)"
proof (cases "first_row (\<lambda>s. state_key s = event_key e) states")
  case None
  then have new: "event_key e \<notin> state_key ` set states" by (auto simp: first_row_None)
  have "snd (upsert_if_newer e now states) = states @ [state_of_event e now]"
    using None by (simp add: upsert_if_newer_def Let_def)
  moreover have "k \<notin> state_key ` set states \<Longrightarrow> first_row (\<lambda>s. state_key s = k) states = None"
    by (auto simp: first_row_None)
  ultimately show ?thesis using None new
    by (auto simp: latest_of_def row_simps)
next
  case (Some s)
  then have s: "s \<in> set states" "state_key s = event_key e" by (auto dest: first_row_Some)
  then have "event_key e \<in> state_key ` set states" by (metis imageI)
  then show ?thesis using Some s(2)
    by (auto simp: upsert_if_newer_def Let_def latest_of_def row_simps state_latest_def
        event_latest_def)
qed

interpretation es: latest_state project latest_of "event_key \<circ> fst" "event_latest \<circ> fst"
  "fst \<circ> snd" state_constraints
  by unfold_locales (auto simp: project_def latest_upsert upsert_keeps_constraints)

text \<open>Out-of-order and repeated delivery are harmless: two runs over the same set of events,
  in any order and with any repetitions, leave the same latest status, time and event for every
  entity, when different events of one entity have different times.\<close>

theorem projection_order_irrelevant:
  assumes "state_constraints states" "fst ` set run = fst ` set run'"
    and "\<forall>e \<in> fst ` set run. \<forall>e' \<in> fst ` set run. event_key e = event_key e' \<and>
           ev_event_time e = ev_event_time e' \<longrightarrow> event_latest e = event_latest e'"
  shows "latest_of (fold project run states) = latest_of (fold project run' states)"
proof
  fix k
  let ?vs = "\<lambda>r. map (event_latest \<circ> fst) (filter (\<lambda>e. (event_key \<circ> fst) e = k) r)"
  have "set (?vs r) = event_latest ` {e \<in> fst ` set r. event_key e = k}" for r :: "(normalized_event \<times> instant) list"
    by force
  then have "set (?vs run) = set (?vs run')" using assms(2) by (simp only:)
  moreover have "inj_on (fst \<circ> snd) (set (?vs run))"
    using assms(3) by (fastforce simp: inj_on_def event_latest_def)
  ultimately show "latest_of (fold project run states) k = latest_of (fold project run' states) k"
    using fold_newer_set [of "?vs run" "?vs run'" "fst \<circ> snd"]
    by (simp add: es.lookup_fold [OF assms(1)])
qed

text \<open>C10. After any run of events an entity's state is that of an event of the run with the
  greatest event time, and an entity that already has a state never goes back in time.\<close>

theorem projection_is_latest:
  assumes "state_constraints states"
  shows "(\<forall>e \<in> fst ` set run. latest_of states (event_key e) = None \<longrightarrow>
            (\<exists>e' \<in> fst ` set run. event_key e' = event_key e \<and>
               latest_of (fold project run states) (event_key e) = Some (event_latest e') \<and>
               (\<forall>e'' \<in> fst ` set run. event_key e'' = event_key e \<longrightarrow>
                  ev_event_time e'' \<le> ev_event_time e'))) \<and>
         (\<forall>k st t i. latest_of states k = Some (st, t, i) \<longrightarrow>
            (\<exists>st' t' i'. latest_of (fold project run states) k = Some (st', t', i') \<and> t \<le> t'))"
proof (intro conjI ballI allI impI)
  fix e assume "e \<in> fst ` set run" "latest_of states (event_key e) = None"
  then show "\<exists>e' \<in> fst ` set run. event_key e' = event_key e \<and>
               latest_of (fold project run states) (event_key e) = Some (event_latest e') \<and>
               (\<forall>e'' \<in> fst ` set run. event_key e'' = event_key e \<longrightarrow>
                  ev_event_time e'' \<le> ev_event_time e')"
    using es.lookup_latest [OF assms, of "event_key e"] by (force simp: event_latest_def)
next
  fix k st t i assume "latest_of states k = Some (st, t, i)"
  then show "\<exists>st' t' i'. latest_of (fold project run states) k = Some (st', t', i') \<and> t \<le> t'"
    using es.never_older [OF assms, of k "(st, t, i)" run] by force
qed

lemma get_current_state_Some:
  "get_current_state et eid states = Some s \<Longrightarrow>
     es_entity_type s = et \<and> es_entity_id s = eid \<and>
     latest_of states (et, eid) = Some (es_latest_status s, es_latest_event_time s, es_latest_event s)"
  by (auto simp: get_current_state_def latest_of_def state_latest_def dest: first_row_Some)
     (auto simp: state_key_def dest: first_row_Some)

lemma get_current_state_None:
  "get_current_state et eid states = None \<longleftrightarrow> latest_of states (et, eid) = None"
  by (simp add: get_current_state_def latest_of_def)

text \<open>The state endpoint answers 400 exactly when a parameter is missing or empty, 404 for an
  entity nothing was projected for, and otherwise 200 with the latest projected state.\<close>

theorem state_view_status:
  "fst (EntityStateView_get params states) =
     (case (query_get params ''entity_type'', query_get params ''entity_id'') of
        (Some et, Some eid) \<Rightarrow>
          if et = [] \<or> eid = [] then 400 else if latest_of states (et, eid) = None then 404 else 200
      | _ \<Rightarrow> 400) \<and>
   (\<forall>b. EntityStateView_get params states = (200, Body b) \<longrightarrow>
      latest_of states (esb_entity_type b, esb_entity_id b) =
        Some (esb_latest_status b, esb_latest_event_time b, esb_latest_event_id b) \<and>
      query_get params ''entity_type'' = Some (esb_entity_type b) \<and>
      query_get params ''entity_id'' = Some (esb_entity_id b))"
  by (auto simp: EntityStateView_get_def EntityStateSerializer_def get_current_state_None
      dest: get_current_state_Some split: option.splits if_splits)

section \<open>Witnesses\<close>

definition sample_event :: "nat \<Rightarrow> string \<Rightarrow> int \<Rightarrow> normalized_event" where
  "sample_event i st t =
     \<lparr> ev_id = i, ev_webhook = i, ev_entity_type = ''SHIPMENT'', ev_entity_id = ''S-1'',
       ev_canonical_status = st, ev_event_time = Instant t, ev_normalized_payload = JObj [],
       ev_confidence_score = Fin (9/10), ev_llm_model = ''rules-based-normalizer'',
       ev_prompt_version = ''rules-v1'', ev_created_at = Instant t, ev_requires_review = False,
       ev_review_reason = [], ev_reviewed_at = None, ev_review_decision = [] \<rparr>"

abbreviation sample_run :: "(normalized_event \<times> instant) list" where
  "sample_run \<equiv> [(sample_event 1 ''PICKED_UP'' 10, Instant 50), (sample_event 2 ''DELIVERED'' 20, Instant 51)]"

lemma no_states_ok: "state_constraints []"
  by (simp add: state_constraints_def)

theorem projection_order_irrelevant_witness:
  "latest_of (fold project sample_run []) = latest_of (fold project (rev sample_run @ sample_run) [])"
  by (rule projection_order_irrelevant [OF no_states_ok])
     (auto simp: sample_event_def event_latest_def)

theorem projection_is_latest_witness:
  "\<exists>e' \<in> fst ` set sample_run. event_key e' = (''SHIPMENT'', ''S-1'') \<and>
     latest_of (fold project sample_run []) (''SHIPMENT'', ''S-1'') = Some (event_latest e')"
  using projection_is_latest [OF no_states_ok, of sample_run, THEN conjunct1, THEN bspec,
      of "sample_event 1 ''PICKED_UP'' 10"]
  by (simp add: latest_of_def first_row_def event_key_def sample_event_def)

theorem state_view_status_witness:
  "fst (EntityStateView_get [(''entity_type'', ''SHIPMENT''), (''entity_id'', ''S-1'')]
     (fold project sample_run [])) = 200"
proof -
  have "latest_of (fold project sample_run []) (''SHIPMENT'', ''S-1'') \<noteq> None"
    by code_simp
  then show ?thesis
    using state_view_status [of "[(''entity_type'', ''SHIPMENT''), (''entity_id'', ''S-1'')]"
        "fold project sample_run []"]
    by (simp add: query_get_def)
qed

end
