(* ===== verification/Paging.thy ===== *)
theory Paging
  imports Gateway_Prelude Settings
begin

text \<open>
  \<open>apps/normalization/paging.py\<close>: limit/offset pages with a true total.  A queryset is the list
  of the rows it selects, in its order.
\<close>

section \<open>Pages\<close>

record 'a page =
  pg_items :: "'a list"
  pg_total :: nat
  pg_limit :: nat
  pg_offset :: nat

definition next_offset :: "'a page \<Rightarrow> nat option" where
  "next_offset p = (let nxt = pg_offset p + pg_limit p in if nxt < pg_total p then Some nxt else None)"

definition previous_offset :: "'a page \<Rightarrow> nat option" where
  "previous_offset p =
     (if pg_offset p \<noteq> 0 then Some (nat (max (int (pg_offset p) - int (pg_limit p)) 0)) else None)"

record 'b page_envelope =
  env_count :: nat
  env_limit :: nat
  env_offset :: nat
  env_next_offset :: "nat option"
  env_previous_offset :: "nat option"
  env_results :: "'b list"

definition envelope :: "'a page \<Rightarrow> 'b list \<Rightarrow> 'b page_envelope" where
  "envelope p results =
     \<lparr> env_count = pg_total p, env_limit = pg_limit p, env_offset = pg_offset p,
       env_next_offset = next_offset p, env_previous_offset = previous_offset p,
       env_results = results \<rparr>"

definition int_param :: "query_params \<Rightarrow> string \<Rightarrow> int \<Rightarrow> int \<Rightarrow> int option \<Rightarrow> int result" where
  "int_param params name dflt lo hi =
     (case query_get params name of
        None \<Rightarrow> Inr dflt
      | Some raw \<Rightarrow>
          (case py_int raw of
             None \<Rightarrow> Inl (PageError (name @ '' must be an integer.''))
           | Some v \<Rightarrow>
               if v < lo \<or> (case hi of None \<Rightarrow> False | Some m \<Rightarrow> m < v)
               then Inl (PageError (name @ '' must be at least '' @ int_str lo @
                      (case hi of None \<Rightarrow> '''' | Some m \<Rightarrow> '' and at most '' @ int_str m) @ ''.''))
               else Inr v))"

definition paginate :: "settings \<Rightarrow> 'a list \<Rightarrow> query_params \<Rightarrow> 'a page result" where
  "paginate cfg queryset params =
     and_then (int_param params ''limit'' (DEFAULT_PAGE_SIZE cfg) 1 (Some (MAX_PAGE_SIZE cfg))) (\<lambda>limit.
     and_then (int_param params ''offset'' 0 0 None) (\<lambda>offset.
     Inr \<lparr> pg_items = take (nat limit) (drop (nat offset) queryset), pg_total = length queryset,
           pg_limit = nat limit, pg_offset = nat offset \<rparr>))"

section \<open>Reading a listing page by page\<close>

text \<open>
  A client that asks for the page at \<open>offset\<close> and follows \<open>next_offset\<close> while there is one.
  The fuel bounds the number of requests.
\<close>

definition page_request :: "nat \<Rightarrow> nat \<Rightarrow> query_params" where
  "page_request limit offset = [(''limit'', nat_str limit), (''offset'', nat_str offset)]"

fun read_pages :: "settings \<Rightarrow> 'a list \<Rightarrow> nat \<Rightarrow> nat \<Rightarrow> nat \<Rightarrow> 'a list result" where
  "read_pages cfg queryset limit 0 offset = Inl (OtherException ''out of fuel'')"
| "read_pages cfg queryset limit (Suc fuel) offset =
     and_then (paginate cfg queryset (page_request limit offset)) (\<lambda>p.
       case next_offset p of
         None \<Rightarrow> Inr (pg_items p)
       | Some nxt \<Rightarrow> and_then (read_pages cfg queryset limit fuel nxt) (\<lambda>rest. Inr (pg_items p @ rest)))"

lemma int_param_bounds:
  "int_param params name dflt lo hi = Inr v \<Longrightarrow>
     v = dflt \<or> (lo \<le> v \<and> (case hi of None \<Rightarrow> True | Some m \<Rightarrow> v \<le> m))"
  by (auto simp: int_param_def split: option.splits if_splits)

lemma int_param_errors:
  "int_param params name dflt lo hi = Inl e \<Longrightarrow> \<exists>m. e = PageError m"
  by (auto simp: int_param_def split: option.splits if_splits)

lemma py_int_nat_str [simp]: "py_int (nat_str n) = Some (int n)"
  using py_int_int_str [of "int n"] by (simp add: int_str_def)

lemma page_request_paginate:
  assumes "1 \<le> limit" "int limit \<le> MAX_PAGE_SIZE cfg"
  shows "paginate cfg queryset (page_request limit offset) =
     Inr \<lparr> pg_items = take limit (drop offset queryset), pg_total = length queryset,
           pg_limit = limit, pg_offset = offset \<rparr>"
  using assms by (simp add: paginate_def int_param_def page_request_def query_get_def)

lemma read_pages_from:
  assumes "1 \<le> limit" "int limit \<le> MAX_PAGE_SIZE cfg" "length queryset < offset + fuel * limit"
    and "0 < fuel"
  shows "read_pages cfg queryset limit fuel offset = Inr (drop offset queryset)"
  using assms(3,4)
proof (induction fuel arbitrary: offset)
  case (Suc fuel)
  show ?case
  proof (cases "offset + limit < length queryset")
    case True
    then have "0 < fuel" using Suc.prems by (cases fuel) auto
    moreover have "length queryset < (offset + limit) + fuel * limit" using Suc.prems by simp
    ultimately have "read_pages cfg queryset limit fuel (offset + limit) = Inr (drop (offset + limit) queryset)"
      by (intro Suc.IH)
    moreover have "take limit (drop offset queryset) @ drop (offset + limit) queryset = drop offset queryset"
      by (metis append_take_drop_id drop_drop add.commute)
    ultimately show ?thesis using True
      by (simp add: page_request_paginate [OF assms(1,2)] next_offset_def Let_def)
  qed (simp add: page_request_paginate [OF assms(1,2)] next_offset_def Let_def)
qed simp

text \<open>Following \<open>next_offset\<close> from the first page reads every row exactly once, in order, in
  a bounded number of requests, for every page size the endpoint accepts.\<close>

theorem pages_cover_listing:
  assumes "1 \<le> limit" "int limit \<le> MAX_PAGE_SIZE cfg"
  shows "read_pages cfg queryset limit (length queryset + 1) 0 = Inr queryset"
proof -
  have "(length queryset + 1) * 1 \<le> (length queryset + 1) * limit"
    using assms(1) by (rule mult_le_mono2)
  then show ?thesis using read_pages_from [OF assms, of queryset 0 "length queryset + 1"] by simp
qed

theorem pages_cover_listing_witness:
  "read_pages default_settings [10, 20, 30 :: nat] 2 (length [10, 20, 30 :: nat] + 1) 0 = Inr [10, 20, 30]"
  by (rule pages_cover_listing) (simp_all add: default_settings_def)

text \<open>A page is never larger than the cap, its count is the size of the whole listing, its
  rows are a contiguous part of it, and bad parameters raise only PageError.\<close>

theorem paginate_bounded:
  assumes "1 \<le> DEFAULT_PAGE_SIZE cfg" "DEFAULT_PAGE_SIZE cfg \<le> MAX_PAGE_SIZE cfg"
  shows "case paginate cfg queryset params of
           Inl e \<Rightarrow> \<exists>m. e = PageError m
         | Inr p \<Rightarrow> pg_total p = length queryset \<and> 1 \<le> pg_limit p \<and> int (pg_limit p) \<le> MAX_PAGE_SIZE cfg \<and>
             length (pg_items p) \<le> pg_limit p \<and>
             (\<exists>before after. queryset = before @ pg_items p @ after \<and>
                length before = min (pg_offset p) (length queryset) \<and>
                (next_offset p = None \<longleftrightarrow> after = [] \<and> pg_offset p + pg_limit p \<ge> length queryset))"
proof (cases "paginate cfg queryset params")
  case (Inl e)
  then show ?thesis by (auto simp: paginate_def and_then_Inl_iff dest: int_param_errors)
next
  case (Inr p)
  then obtain limit offset where lo:
      "int_param params ''limit'' (DEFAULT_PAGE_SIZE cfg) 1 (Some (MAX_PAGE_SIZE cfg)) = Inr limit"
      and p: "p = \<lparr> pg_items = take (nat limit) (drop (nat offset) queryset),
        pg_total = length queryset, pg_limit = nat limit, pg_offset = nat offset \<rparr>"
    by (auto simp: paginate_def)
  have l: "1 \<le> limit" "limit \<le> MAX_PAGE_SIZE cfg" using int_param_bounds [OF lo] assms by auto
  have "queryset = take (nat offset) queryset @ pg_items p @ drop (nat limit) (drop (nat offset) queryset)"
    by (metis append_take_drop_id p page.select_convs(1))
  then have "\<exists>before after. queryset = before @ pg_items p @ after \<and>
      length before = min (pg_offset p) (length queryset) \<and>
      (next_offset p = None \<longleftrightarrow> after = [] \<and> pg_offset p + pg_limit p \<ge> length queryset)"
    by (intro exI [of _ "take (nat offset) queryset"]
        exI [of _ "drop (nat limit) (drop (nat offset) queryset)"])
       (auto simp: p next_offset_def Let_def)
  then show ?thesis using Inr l by (auto simp: p)
qed

theorem paginate_bounded_witness:
  "case paginate default_settings [1, 2, 3 :: nat] [(''limit'', ''0'')] of
     Inl e \<Rightarrow> \<exists>m. e = PageError m | Inr p \<Rightarrow> pg_total p = 3"
  using paginate_bounded [of default_settings "[1, 2, 3 :: nat]" "[(''limit'', ''0'')]"]
  by (simp add: default_settings_def split: sum.splits)

end
