(* ===== verification/Review.thy ===== *)
theory Review
  imports Columns Entities Schemas Paging
begin

text \<open>
  \<open>apps/normalization/review.py\<close>, \<open>NormalizedEventRepository\<close> of \<open>repositories.py\<close>, the three
  review endpoints of \<open>views.py\<close> and the admin actions: recording a reading, deciding whether it
  is trusted, and what a person decides about one that is not.  The clock is an argument; log
  lines have no effect and are left out.
\<close>

section \<open>NormalizedEventRepository\<close>

definition fill_event ::
  "normalization_result \<Rightarrow> string \<Rightarrow> string \<Rightarrow> normalized_event \<Rightarrow> normalized_event" where
  "fill_event r llm_model prompt_version e = e
     \<lparr> ev_entity_type := nr_entity_type r, ev_entity_id := nr_entity_id r,
       ev_canonical_status := nr_canonical_status r,
       ev_event_time := dt_instant (nr_event_time r),
       ev_normalized_payload := nr_normalized_payload r,
       ev_confidence_score := nr_confidence_score r,
       ev_llm_model := llm_model, ev_prompt_version := prompt_version,
       ev_requires_review := False, ev_review_reason := [], ev_reviewed_at := None,
       ev_review_decision := [] \<rparr>"

definition blank_event :: "nat \<Rightarrow> nat \<Rightarrow> instant \<Rightarrow> normalized_event" where
  "blank_event eid wid now =
     \<lparr> ev_id = eid, ev_webhook = wid, ev_entity_type = [], ev_entity_id = [],
       ev_canonical_status = [], ev_event_time = now, ev_normalized_payload = JObj [],
       ev_confidence_score = Fin 0, ev_llm_model = [], ev_prompt_version = [],
       ev_created_at = now, ev_requires_review = False, ev_review_reason = [],
       ev_reviewed_at = None, ev_review_decision = [] \<rparr>"

definition update_or_create_event ::
  "nat \<Rightarrow> normalization_result \<Rightarrow> string \<Rightarrow> string \<Rightarrow> instant \<Rightarrow> db \<Rightarrow> normalized_event \<times> db" where
  "update_or_create_event wid r llm_model prompt_version now d =
     (let fill = fill_event r llm_model prompt_version;
          (e, events) =
            (case first_row (\<lambda>e. ev_webhook e = wid) (db_events d) of
               Some e \<Rightarrow> (fill e, update_row ev_webhook wid fill (db_events d))
             | None \<Rightarrow>
                 (let e = fill (blank_event (fresh_key (map ev_id (db_events d))) wid now)
                  in (e, db_events d @ [e])))
      in (e, d \<lparr> db_events := events,
                 db_webhooks := update_row rw_id wid
                   (\<lambda>w. w \<lparr> rw_processing_status := NORMALIZED, rw_error_message := [] \<rparr>)
                   (db_webhooks d) \<rparr>))"

text \<open>
  The whole method: one transaction, in which a row that the columns cannot hold is refused before
  anything is written.
\<close>

definition reading_fits :: "normalization_result \<Rightarrow> string \<Rightarrow> string \<Rightarrow> bool" where
  "reading_fits r llm_model prompt_version \<longleftrightarrow>
     event_columns (fill_event r llm_model prompt_version (blank_event 0 0 (Instant 0)))"

definition create_for_webhook ::
  "nat \<Rightarrow> normalization_result \<Rightarrow> string \<Rightarrow> string \<Rightarrow> instant \<Rightarrow> db \<Rightarrow> (normalized_event \<times> db) result" where
  "create_for_webhook wid r llm_model prompt_version now d =
     (if reading_fits r llm_model prompt_version
      then Inr (update_or_create_event wid r llm_model prompt_version now d)
      else Inl too_long)"

lemma create_Inr:
  "create_for_webhook wid r m v now d = Inr (e, d') \<longleftrightarrow>
     reading_fits r m v \<and> update_or_create_event wid r m v now d = (e, d')"
  by (simp add: create_for_webhook_def)

lemma create_Inl: "create_for_webhook wid r m v now d = Inl x \<longleftrightarrow> \<not> reading_fits r m v \<and> x = too_long"
  by (auto simp: create_for_webhook_def)

section \<open>The confidence gate\<close>

definition MAX_REVIEW_REASON :: nat where
  "MAX_REVIEW_REASON = 255"

definition APPROVE :: string where
  "APPROVE = review_decision_value APPROVE_DECISION"

definition REJECT :: string where
  "REJECT = review_decision_value REJECT_DECISION"

definition VALID_DECISIONS :: "string list" where
  "VALID_DECISIONS = [APPROVE, REJECT]"

text \<open>The format \<open>:.2f\<close>.\<close>

fun float_2f :: "pyfloat \<Rightarrow> string" where
  "float_2f (Fin r) =
     (let c = nat (round_half_even (\<bar>r\<bar> * 100)) in
      (if r < 0 then ''-'' else '''') @ nat_str (c div 100) @ ''.'' @ pad 2 (c mod 100))"
| "float_2f PInf = ''inf''"
| "float_2f NInf = ''-inf''"
| "float_2f NaN = ''nan''"

record gate_outcome =
  held :: bool
  gate_reason :: string

definition apply_confidence_gate ::
  "settings \<Rightarrow> normalized_event \<Rightarrow> instant \<Rightarrow> db \<Rightarrow> gate_outcome \<times> db" where
  "apply_confidence_gate cfg event now d =
     (let threshold = LOW_CONFIDENCE_THRESHOLD cfg in
      if is_low_confidence (ev_confidence_score event) threshold then
        let reason = ''confidence '' @ float_2f (ev_confidence_score event) @ '' is below the ''
                     @ float_2f (Fin threshold) @ '' threshold''
        in (\<lparr> held = True, gate_reason = reason \<rparr>,
            d \<lparr> db_events := update_row ev_id (ev_id event)
                  (\<lambda>e. e \<lparr> ev_requires_review := True,
                          ev_review_reason := take MAX_REVIEW_REASON reason \<rparr>) (db_events d) \<rparr>)
      else (\<lparr> held = False, gate_reason = [] \<rparr>,
            d \<lparr> db_states := snd (upsert_if_newer event now (db_states d)) \<rparr>))"

section \<open>Review decisions\<close>

definition instant_str :: "instant \<Rightarrow> string" where
  "instant_str t =
     (case fromtimestamp (Fin (of_int (micros t - 719163 * day_micros) / 1000000)) of
        None \<Rightarrow> [] | Some dt \<Rightarrow> replace_char (CHR ''T'') '' '' (isoformat dt))"

definition review_note :: "normalized_event \<Rightarrow> string \<Rightarrow> string \<Rightarrow> string" where
  "review_note event decision actor =
     (let note = decision @ ''d by '' @ actor in
      take MAX_REVIEW_REASON
        (if ev_review_reason event \<noteq> [] then ev_review_reason event @ '' | '' @ note else note))"

definition apply_review_decision ::
  "normalized_event \<Rightarrow> string \<Rightarrow> string \<Rightarrow> instant \<Rightarrow> db \<Rightarrow> (bool \<times> db) result" where
  "apply_review_decision event decision actor now d =
     (if decision \<notin> set VALID_DECISIONS then
        Inl (ValueError (''decision must be one of ('' @ join '', '' (map str_repr VALID_DECISIONS)
               @ ''), got '' @ [CHR 0x22] @ decision @ [CHR 0x22]))
      else case ev_reviewed_at event of
        Some t \<Rightarrow> Inl (AlreadyDecided (''event '' @ nat_str (ev_id event) @ '' was already reviewed at ''
                        @ instant_str t))
      | None \<Rightarrow>
          (let updated = (decision = APPROVE);
               states = (if updated then snd (upsert_if_newer event now (db_states d)) else db_states d)
           in Inr (updated,
                d \<lparr> db_states := states,
                    db_events := update_row ev_id (ev_id event)
                      (\<lambda>e. e \<lparr> ev_reviewed_at := Some now, ev_review_decision := decision,
                              ev_review_reason := review_note event decision actor \<rparr>)
                      (db_events d) \<rparr>)))"

section \<open>The review endpoints and the admin actions\<close>

definition event_vendor :: "db \<Rightarrow> normalized_event \<Rightarrow> string" where
  "event_vendor d e =
     (case first_row (\<lambda>w. rw_id w = ev_webhook e) (db_webhooks d) of
        None \<Rightarrow> [] | Some w \<Rightarrow> rw_vendor w)"

record event_body =
  eb_id :: nat
  eb_webhook_id :: nat
  eb_vendor :: string
  eb_entity_type :: string
  eb_entity_id :: string
  eb_canonical_status :: string
  eb_event_time :: instant
  eb_confidence_score :: pyfloat
  eb_llm_model :: string
  eb_prompt_version :: string
  eb_created_at :: instant
  eb_requires_review :: bool
  eb_review_reason :: string
  eb_review_decision :: string
  eb_reviewed_at :: "instant option"

definition NormalizedEventSerializer :: "db \<Rightarrow> normalized_event \<Rightarrow> event_body" where
  "NormalizedEventSerializer d e =
     \<lparr> eb_id = ev_id e, eb_webhook_id = ev_webhook e, eb_vendor = event_vendor d e,
       eb_entity_type = ev_entity_type e, eb_entity_id = ev_entity_id e,
       eb_canonical_status = ev_canonical_status e, eb_event_time = ev_event_time e,
       eb_confidence_score = ev_confidence_score e, eb_llm_model = ev_llm_model e,
       eb_prompt_version = ev_prompt_version e, eb_created_at = ev_created_at e,
       eb_requires_review = ev_requires_review e, eb_review_reason = ev_review_reason e,
       eb_review_decision = ev_review_decision e, eb_reviewed_at = ev_reviewed_at e \<rparr>"

definition page_response ::
  "settings \<Rightarrow> db \<Rightarrow> normalized_event list \<Rightarrow> query_params \<Rightarrow> event_body page_envelope response" where
  "page_response cfg d events params =
     (case paginate cfg events params of
        Inl e \<Rightarrow> (400, Detail (exn_str e))
      | Inr p \<Rightarrow> (200, Body (envelope p (map (NormalizedEventSerializer d) (pg_items p)))))"

definition low_confidence_threshold :: "settings \<Rightarrow> query_params \<Rightarrow> rat option" where
  "low_confidence_threshold cfg params =
     (case query_get params ''threshold'' of
        None \<Rightarrow> Some (LOW_CONFIDENCE_THRESHOLD cfg)
      | Some raw \<Rightarrow>
          (case py_float_of_str raw of
             Some (Fin t) \<Rightarrow> if 0 \<le> t \<and> t \<le> 1 then Some t else None
           | _ \<Rightarrow> None))"

definition LowConfidenceQueueView_get ::
  "settings \<Rightarrow> query_params \<Rightarrow> db \<Rightarrow> event_body page_envelope response" where
  "LowConfidenceQueueView_get cfg params d =
     (case low_confidence_threshold cfg params of
        None \<Rightarrow> (400, Detail ''threshold must be a number between 0 and 1.'')
      | Some t \<Rightarrow>
          page_response cfg d
            (rev (sort_key ev_created_at
               (filter (\<lambda>e. flt_less (ev_confidence_score e) (Fin t)) (db_events d)))) params)"

definition pending :: "normalized_event \<Rightarrow> bool" where
  "pending e \<longleftrightarrow> ev_requires_review e \<and> ev_reviewed_at e = None"

definition review_queue :: "db \<Rightarrow> string \<Rightarrow> normalized_event list" where
  "review_queue d vendor =
     filter (\<lambda>e. vendor = [] \<or> iexact (event_vendor d e) vendor)
       (sort_key ev_created_at (filter pending (db_events d)))"

definition ReviewQueueView_get ::
  "settings \<Rightarrow> query_params \<Rightarrow> db \<Rightarrow> event_body page_envelope response" where
  "ReviewQueueView_get cfg params d =
     page_response cfg d
       (review_queue d (strip (case query_get params ''vendor'' of None \<Rightarrow> [] | Some v \<Rightarrow> v))) params"

text \<open>The answer to a decision: the event, the decision, and whether entity state was updated.\<close>

type_synonym decision_body = "nat \<times> string \<times> bool"

definition requested_decision :: "json \<Rightarrow> string" where
  "requested_decision data =
     (case data of
        JObj kvs \<Rightarrow> (case dict_get kvs ''decision'' of None \<Rightarrow> [] | Some v \<Rightarrow> lower (py_str v))
      | _ \<Rightarrow> [])"

definition ReviewDecisionView_post ::
  "json \<Rightarrow> nat \<Rightarrow> instant \<Rightarrow> db \<Rightarrow> decision_body response \<times> db" where
  "ReviewDecisionView_post data event_id now d =
     (let decision = requested_decision data in
      if decision \<notin> set VALID_DECISIONS
      then ((400, Detail (''decision must be '' @ [CHR 0x22] @ ''approve'' @ [CHR 0x22] @ '' or ''
                          @ [CHR 0x22] @ ''reject'' @ [CHR 0x22])), d)
      else case first_row (\<lambda>e. ev_id e = event_id \<and> ev_requires_review e) (db_events d) of
        None \<Rightarrow> ((404, Detail ''No held event with that id.''), d)
      | Some event \<Rightarrow>
          (case apply_review_decision event decision ''api'' now d of
             Inl e \<Rightarrow> ((409, Detail (exn_str e)), d)
           | Inr (updated, d') \<Rightarrow> ((200, Body (ev_id event, decision, updated)), d')))"

text \<open>
  The loop of the admin action over the selected rows that await review: how many decisions
  updated entity state.  The rows are the ones the query returned when the loop started.
\<close>

fun decide_all ::
  "normalized_event list \<Rightarrow> string \<Rightarrow> string \<Rightarrow> instant \<Rightarrow> db \<Rightarrow> (nat \<times> db) result" where
  "decide_all [] decision actor now d = Inr (0, d)"
| "decide_all (e # es) decision actor now d =
     and_then (apply_review_decision e decision actor now d) (\<lambda>(updated, d').
     and_then (decide_all es decision actor now d') (\<lambda>(n, d'').
     Inr ((if updated then 1 else 0) + n, d'')))"

definition admin_decide ::
  "nat set \<Rightarrow> string \<Rightarrow> string \<Rightarrow> instant \<Rightarrow> db \<Rightarrow> (string \<times> db) result" where
  "admin_decide selected decision actor now d =
     (let queryset = filter (\<lambda>e. ev_id e \<in> selected) (db_events d);
          pend = filter pending queryset;
          skipped = length queryset - length pend
      in and_then (decide_all pend decision actor now d) (\<lambda>(applied, d').
         Inr (decision @ ''d '' @ nat_str (length pend) @ '' event(s); '' @ nat_str applied
              @ '' updated entity state.''
              @ (if skipped \<noteq> 0 then '' Skipped '' @ nat_str skipped @ '' not awaiting review.'' else ''''),
              d')))"

definition approve_selected :: "nat set \<Rightarrow> string \<Rightarrow> instant \<Rightarrow> db \<Rightarrow> (string \<times> db) result" where
  "approve_selected selected user now d = admin_decide selected APPROVE user now d"

definition reject_selected :: "nat set \<Rightarrow> string \<Rightarrow> instant \<Rightarrow> db \<Rightarrow> (string \<times> db) result" where
  "reject_selected selected user now d = admin_decide selected REJECT user now d"

text \<open>The columns of the console that show the gate's verdict.\<close>

definition coloured :: "string \<Rightarrow> string \<Rightarrow> string \<Rightarrow> string" where
  "coloured tag colour label =
     ''<'' @ tag @ '' style='' @ [CHR 0x22] @ ''color:'' @ colour @ [CHR 0x22] @ ''>'' @ label @ ''</'' @ tag @ ''>''"

definition confidence_column :: "normalized_event \<Rightarrow> string" where
  "confidence_column e =
     coloured ''b'' (if ev_requires_review e then ''#b91c1c'' else ''#15803d'') (float_2f (ev_confidence_score e))"

definition review_state :: "normalized_event \<Rightarrow> string" where
  "review_state e =
     (if \<not> ev_requires_review e then coloured ''span'' ''#15803d'' ''auto-applied''
      else if ev_reviewed_at e \<noteq> None then coloured ''span'' ''#6b7280'' ''decided''
      else coloured ''b'' ''#b45309'' ''awaiting review'')"

section \<open>What the operations do\<close>

lemma is_low_confidence_Fin [simp]: "is_low_confidence (Fin c) t \<longleftrightarrow> c < t"
  by (simp add: is_low_confidence_def)

lemma is_low_confidence_NaN [simp]: "\<not> is_low_confidence NaN t"
  by (simp add: is_low_confidence_def)

lemma fill_event_keeps [simp]:
  "ev_id (fill_event r m v e) = ev_id e" "ev_webhook (fill_event r m v e) = ev_webhook e"
  "ev_created_at (fill_event r m v e) = ev_created_at e"
  by (simp_all add: fill_event_def)

lemma update_or_create_row:
  assumes "event_constraints (db_events d)"
    and "update_or_create_event wid r m v now d = (e, d')"
  shows "event_constraints (db_events d')" and "first_row (\<lambda>e. ev_webhook e = wid) (db_events d') = Some e"
    and "\<exists>e0. e = fill_event r m v e0" and "ev_webhook e = wid" and "db_states d' = db_states d"
    and "e \<in> set (db_events d')"
proof -
  let ?old = "first_row (\<lambda>e. ev_webhook e = wid) (db_events d)"
  have "event_constraints (db_events d') \<and> first_row (\<lambda>e. ev_webhook e = wid) (db_events d') = Some e \<and>
        (\<exists>e0. e = fill_event r m v e0) \<and> ev_webhook e = wid \<and> db_states d' = db_states d"
  proof (cases ?old)
    case (Some e0)
    then have "ev_webhook e0 = wid" by (auto dest: first_row_Some)
    then show ?thesis using Some assms
      by (auto simp: update_or_create_event_def Let_def event_constraints_def row_simps first_row_update)
  next
    case None
    then have "wid \<notin> ev_webhook ` set (db_events d)" by (auto simp: first_row_None)
    moreover have "fresh_key (map ev_id (db_events d)) \<notin> ev_id ` set (db_events d)"
      using fresh_key_notin [of "map ev_id (db_events d)"] by simp
    ultimately show ?thesis using None assms
      by (auto simp: update_or_create_event_def Let_def event_constraints_def row_simps blank_event_def)
  qed
  then show "event_constraints (db_events d')" and "first_row (\<lambda>e. ev_webhook e = wid) (db_events d') = Some e"
    and "\<exists>e0. e = fill_event r m v e0" and "ev_webhook e = wid" and "db_states d' = db_states d"
    and "e \<in> set (db_events d')"
    by (auto dest: first_row_Some)
qed

lemma event_id_unique:
  "event_constraints es \<Longrightarrow> e \<in> set es \<Longrightarrow> e' \<in> set es \<Longrightarrow> ev_id e = ev_id e' \<Longrightarrow> e = e'"
  by (auto simp: event_constraints_def distinct_map inj_on_def)

lemma filter_pending_update:
  "(\<And>e. \<not> pending (f e)) \<Longrightarrow>
     filter pending (update_row ev_id i f es) = filter (\<lambda>e. ev_id e \<noteq> i) (filter pending es)"
  by (induction es) (auto simp: update_row_def)

lemma decision_Inr:
  assumes "apply_review_decision e decision actor now d = Inr (u, d')"
  shows "ev_reviewed_at e = None" "decision \<in> set VALID_DECISIONS" "u \<longleftrightarrow> decision = APPROVE"
    and "db_states d' = (if decision = APPROVE then snd (upsert_if_newer e now (db_states d)) else db_states d)"
    and "db_events d' = update_row ev_id (ev_id e)
           (\<lambda>r. r \<lparr> ev_reviewed_at := Some now, ev_review_decision := decision,
                   ev_review_reason := review_note e decision actor \<rparr>) (db_events d)"
    and "db_webhooks d' = db_webhooks d"
  using assms by (auto simp: apply_review_decision_def Let_def split: option.splits if_splits)

lemma decision_total:
  "ev_reviewed_at e = None \<Longrightarrow> decision \<in> set VALID_DECISIONS \<Longrightarrow>
     \<exists>d'. apply_review_decision e decision actor now d = Inr (decision = APPROVE, d')"
  by (auto simp: apply_review_decision_def Let_def)

lemma decision_queue:
  assumes "apply_review_decision e decision actor now d = Inr (u, d')"
  shows "review_queue d' vendor = filter (\<lambda>r. ev_id r \<noteq> ev_id e) (review_queue d vendor)"
proof -
  note dd = decision_Inr [OF assms]
  have "filter pending (db_events d') = filter (\<lambda>r. ev_id r \<noteq> ev_id e) (filter pending (db_events d))"
    unfolding dd(5) by (rule filter_pending_update) (simp add: pending_def)
  moreover have "event_vendor d' = event_vendor d" by (simp add: fun_eq_iff event_vendor_def dd(6))
  ultimately show ?thesis
    by (auto simp: review_queue_def filter_sort [symmetric] intro: filter_cong)
qed

section \<open>Properties of the gate\<close>

lemma gate_protects_state_lemma:
  assumes "event_constraints (db_events d)"
    and "update_or_create_event wid r m v now d = (e, d1)"
    and "apply_confidence_gate cfg e now d1 = (out, d2)"
  shows "length (filter (\<lambda>e. ev_webhook e = wid) (db_events d2)) = 1 \<and>
    (\<forall>e' \<in> set (db_events d2). ev_webhook e' = wid \<longrightarrow>
       ev_entity_type e' = nr_entity_type r \<and> ev_entity_id e' = nr_entity_id r \<and>
       ev_canonical_status e' = nr_canonical_status r \<and>
       ev_event_time e' = dt_instant (nr_event_time r) \<and>
       ev_confidence_score e' = nr_confidence_score r \<and>
       (e' \<in> set (review_queue d2 []) \<longleftrightarrow> held out)) \<and>
    (held out \<longleftrightarrow> flt_less (nr_confidence_score r) (Fin (LOW_CONFIDENCE_THRESHOLD cfg))) \<and>
    db_states d2 = (if held out then db_states d else snd (upsert_if_newer e now (db_states d)))"
proof -
  note c = update_or_create_row [OF assms(1,2)]
  obtain e0 where e0: "e = fill_event r m v e0" using c(3) by blast
  let ?hold = "\<lambda>e'. e' \<lparr> ev_requires_review := True, ev_review_reason := take MAX_REVIEW_REASON (gate_reason out) \<rparr>"
  have h: "held out \<longleftrightarrow> flt_less (nr_confidence_score r) (Fin (LOW_CONFIDENCE_THRESHOLD cfg))"
    using assms(3) by (auto simp: apply_confidence_gate_def Let_def e0 fill_event_def is_low_confidence_def split: if_splits)
  have ev2: "db_events d2 = (if held out then update_row ev_id (ev_id e) ?hold (db_events d1) else db_events d1)"
    and st2: "db_states d2 = (if held out then db_states d else snd (upsert_if_newer e now (db_states d)))"
    using assms(3) c(5) by (auto simp: apply_confidence_gate_def Let_def split: if_splits)
  have one: "e' = (if held out then ?hold e else e)" if m: "e' \<in> set (db_events d2)" "ev_webhook e' = wid" for e'
  proof -
    obtain e1 where e1: "e1 \<in> set (db_events d1)" "ev_webhook e1 = wid"
        "e' = (if held out \<and> ev_id e1 = ev_id e then ?hold e1 else e1)"
      using m unfolding ev2 by (cases "held out") (auto simp: in_update_row split: if_splits)
    then have "e1 = e" using c(1,4,6) by (auto simp: event_constraints_def distinct_map inj_on_def)
    then show ?thesis using e1(3) by simp
  qed
  have "map ev_webhook (db_events d2) = map ev_webhook (db_events d1)"
    by (simp add: ev2 row_simps)
  then have dist: "distinct (map ev_webhook (db_events d2))" and mem: "wid \<in> ev_webhook ` set (db_events d2)"
    using c(1,4,6) by (auto simp: event_constraints_def) (metis image_eqI image_set)
  have "length (filter (\<lambda>e. ev_webhook e = wid) (db_events d2)) = 1"
    using dist mem by (rule one_row_with_key)
  moreover have "ev_entity_type e' = nr_entity_type r \<and> ev_entity_id e' = nr_entity_id r \<and>
       ev_canonical_status e' = nr_canonical_status r \<and> ev_event_time e' = dt_instant (nr_event_time r) \<and>
       ev_confidence_score e' = nr_confidence_score r \<and> (e' \<in> set (review_queue d2 []) \<longleftrightarrow> held out)"
    if "e' \<in> set (db_events d2)" "ev_webhook e' = wid" for e'
    using that one [OF that] by (auto simp: e0 fill_event_def review_queue_def pending_def)
  ultimately show ?thesis using h st2 by blast
qed

text \<open>C11. Recording a reading and gating it: the webhook has exactly one event, which carries the
  reading; below the threshold the entity states are untouched and the event is in the review
  queue, otherwise the event is projected and is not in the queue.\<close>

theorem gate_protects_state:
  assumes "event_constraints (db_events d)"
    and "create_for_webhook wid r m v now d = Inr (e, d1)"
    and "apply_confidence_gate cfg e now d1 = (out, d2)"
  shows "length (filter (\<lambda>e. ev_webhook e = wid) (db_events d2)) = 1 \<and>
    (\<forall>e' \<in> set (db_events d2). ev_webhook e' = wid \<longrightarrow>
       ev_entity_type e' = nr_entity_type r \<and> ev_entity_id e' = nr_entity_id r \<and>
       ev_canonical_status e' = nr_canonical_status r \<and>
       ev_event_time e' = dt_instant (nr_event_time r) \<and>
       ev_confidence_score e' = nr_confidence_score r \<and>
       (e' \<in> set (review_queue d2 []) \<longleftrightarrow> held out)) \<and>
    (held out \<longleftrightarrow> flt_less (nr_confidence_score r) (Fin (LOW_CONFIDENCE_THRESHOLD cfg))) \<and>
    db_states d2 = (if held out then db_states d else snd (upsert_if_newer e now (db_states d)))"
  using gate_protects_state_lemma [OF assms(1) _ assms(3)] assms(2) unfolding create_Inr by blast

definition nan_reading :: json where
  "nan_reading = reading_dict ''SHIPMENT'' ''S-1'' ''DELIVERED'' (isoformat sample_time) JNaN (JObj [])"

text \<open>A confidence of NaN, which the range check of a reading lets through, is never held:
  whatever the threshold, such an event is projected.\<close>

theorem nan_confidence_bypasses_gate:
  "\<exists>r. from_dict nan_reading = Inr r \<and> nr_confidence_score r = NaN \<and>
     (\<forall>cfg m v wid now d e d1.
        create_for_webhook wid r m v now d = Inr (e, d1) \<longrightarrow>
        apply_confidence_gate cfg e now d1 =
          (\<lparr> held = False, gate_reason = [] \<rparr>,
           d1 \<lparr> db_states := snd (upsert_if_newer e now (db_states d1)) \<rparr>))"
proof -
  obtain r where r: "from_dict nan_reading = Inr r" "nr_confidence_score r = NaN"
    using from_dict_reading [OF canonical_pair_examples(1) _ strip_examples sample_time_ok, of JNaN NaN "JObj []"]
    by (auto simp: nan_reading_def)
  have "ev_confidence_score e = NaN" if "create_for_webhook wid r m v now d = Inr (e, d1)" for wid m v now d e d1
    using that r(2)
    by (auto simp: create_Inr update_or_create_event_def Let_def fill_event_def split: option.splits)
  then show ?thesis using r by (auto simp: apply_confidence_gate_def Let_def)
qed

section \<open>Properties of decisions\<close>


text \<open>Recording a decision takes exactly that event out of the review queue, of every vendor
  filter, and leaves the rest of the queue as it was, oldest first.\<close>

theorem decision_leaves_queue:
  assumes "apply_review_decision e decision actor now d = Inr (updated, d')"
  shows "review_queue d' vendor = filter (\<lambda>r. ev_id r \<noteq> ev_id e) (review_queue d vendor) \<and>
         sorted (map ev_created_at (review_queue d' vendor)) \<and>
         (\<forall>r \<in> set (review_queue d' vendor). pending r \<and> (vendor \<noteq> [] \<longrightarrow> iexact (event_vendor d' r) vendor))"
  unfolding decision_queue [OF assms, symmetric]
  by (auto simp: review_queue_def intro: sorted_filter)

lemma decided_refuses:
  assumes u: "apply_review_decision e decision actor now d = Inr (u, d1)"
    and e: "e \<in> set (db_events d)" "ev_id e = i \<and> ev_requires_review e"
    and v: "requested_decision data' \<in> set VALID_DECISIONS"
  shows "fst (fst (ReviewDecisionView_post data' i now' d1)) = 409"
proof -
  let ?f = "\<lambda>r. r \<lparr> ev_reviewed_at := Some now, ev_review_decision := decision,
              ev_review_reason := review_note e decision actor \<rparr>"
  have ev: "db_events d1 = update_row ev_id i ?f (db_events d)"
    using decision_Inr(5) [OF u] e by simp
  have "?f e \<in> set (db_events d1)" "ev_requires_review (?f e)" "ev_id (?f e) = i"
    using e unfolding ev in_update_row by auto
  then obtain e' where e': "first_row (\<lambda>e. ev_id e = i \<and> ev_requires_review e) (db_events d1) = Some e'"
      "e' \<in> set (db_events d1)" "ev_id e' = i"
    using first_row_obtain [of "?f e" "db_events d1" "\<lambda>e. ev_id e = i \<and> ev_requires_review e"] by auto
  have "\<exists>r' \<in> set (db_events d). ev_id r' = i \<and> e' = ?f r'"
    using e'(2,3) unfolding ev by (intro updated_row) auto
  then have "ev_reviewed_at e' = Some now" by auto
  then show ?thesis using v e'(1)
    by (simp add: ReviewDecisionView_post_def Let_def apply_review_decision_def)
qed

text \<open>The decision endpoint: 400 for anything but approve or reject, 404 for an event that is
  not held, 409 for one that was decided before, otherwise 200; every answer but 200 leaves the
  database as it was, and asking again after a 200 gets 409.\<close>

theorem decision_endpoint:
  assumes "event_constraints (db_events d)"
    and "ReviewDecisionView_post data i now d = ((sc, b), d')"
  shows "(sc \<noteq> 200 \<longrightarrow> d' = d) \<and>
    (sc = 400 \<longleftrightarrow> requested_decision data \<notin> set VALID_DECISIONS) \<and>
    (sc = 404 \<longrightarrow> \<not> (\<exists>e \<in> set (db_events d). ev_id e = i \<and> ev_requires_review e)) \<and>
    (sc = 409 \<longrightarrow> (\<exists>e \<in> set (db_events d). ev_id e = i \<and> ev_reviewed_at e \<noteq> None)) \<and>
    (sc = 200 \<longrightarrow> (\<exists>e \<in> set (review_queue d []). ev_id e = i) \<and>
       (\<forall>data' now'. requested_decision data' \<in> set VALID_DECISIONS \<longrightarrow>
          fst (fst (ReviewDecisionView_post data' i now' d')) = 409)) \<and>
    sc \<in> {200, 400, 404, 409}"
proof (cases "requested_decision data \<in> set VALID_DECISIONS")
  case False
  then show ?thesis using assms(2) by (auto simp: ReviewDecisionView_post_def Let_def)
next
  case valid: True
  let ?row = "first_row (\<lambda>e. ev_id e = i \<and> ev_requires_review e) (db_events d)"
  show ?thesis
  proof (cases ?row)
    case None
    then have "sc = 404" "d' = d"
      using assms(2) valid by (auto simp: ReviewDecisionView_post_def Let_def)
    then show ?thesis using None valid by (auto simp: first_row_None)
  next
    case (Some e)
    note e = first_row_Some [OF Some]
    show ?thesis
    proof (cases "ev_reviewed_at e")
      case (Some t)
      then have "sc = 409" "d' = d" using assms(2) valid \<open>?row = Some e\<close>
        by (auto simp: ReviewDecisionView_post_def Let_def apply_review_decision_def)
      then show ?thesis using valid e Some by auto
    next
      case None
      let ?dec = "requested_decision data"
      obtain u d1 where u: "apply_review_decision e ?dec ''api'' now d = Inr (u, d1)"
        using decision_total [OF None valid] by blast
      then have c: "sc = 200" "d' = d1" using assms(2) valid Some
        by (auto simp: ReviewDecisionView_post_def Let_def)
      have "e \<in> set (review_queue d [])" using e None by (simp add: review_queue_def pending_def)
      moreover have "fst (fst (ReviewDecisionView_post data' i now' d1)) = 409"
        if "requested_decision data' \<in> set VALID_DECISIONS" for data' now'
        using decided_refuses [OF u _ _ that, of i] e by blast
      ultimately show ?thesis using c valid e by auto
    qed
  qed
qed

lemma decide_all_total:
  assumes "\<forall>e \<in> set es. ev_reviewed_at e = None" "decision \<in> set VALID_DECISIONS"
  shows "\<exists>d'. decide_all es decision actor now d =
           Inr (if decision = APPROVE then length es else 0, d') \<and>
           (\<forall>vendor. review_queue d' vendor =
              filter (\<lambda>r. ev_id r \<notin> ev_id ` set es) (review_queue d vendor)) \<and>
           db_states d' = (if decision = APPROVE
             then fold (\<lambda>e. snd \<circ> upsert_if_newer e now) es (db_states d) else db_states d)"
  using assms(1)
proof (induction es arbitrary: d)
  case (Cons e es)
  obtain d1 where d1: "apply_review_decision e decision actor now d = Inr (decision = APPROVE, d1)"
    using decision_total [of e decision actor now d] Cons.prems assms(2) by auto
  obtain d' where d': "decide_all es decision actor now d1 = Inr (if decision = APPROVE then length es else 0, d')"
      "\<And>vendor. review_queue d' vendor = filter (\<lambda>r. ev_id r \<notin> ev_id ` set es) (review_queue d1 vendor)"
      "db_states d' = (if decision = APPROVE
         then fold (\<lambda>e. snd \<circ> upsert_if_newer e now) es (db_states d1) else db_states d1)"
    using Cons.IH [of d1] Cons.prems by auto
  have "review_queue d' vendor = filter (\<lambda>r. ev_id r \<notin> ev_id ` set (e # es)) (review_queue d vendor)" for vendor
    by (auto simp: d'(2) decision_queue [OF d1] intro: filter_cong)
  then show ?case using d1 d' decision_Inr(4) [OF d1] by auto
qed simp

text \<open>The admin action over a selection decides exactly its events that await review, never
  fails, takes them all out of the queue, and projects them when it approves and none when it
  rejects.\<close>

theorem admin_decide_selection:
  assumes "decision \<in> set VALID_DECISIONS"
  shows "\<exists>message d'. admin_decide selected decision actor now d = Inr (message, d') \<and>
    review_queue d' [] = filter (\<lambda>r. ev_id r \<notin> selected) (review_queue d []) \<and>
    db_states d' = (if decision = APPROVE
      then fold (\<lambda>e. snd \<circ> upsert_if_newer e now)
             (filter pending (filter (\<lambda>e. ev_id e \<in> selected) (db_events d))) (db_states d)
      else db_states d)"
proof -
  let ?es = "filter pending (filter (\<lambda>e. ev_id e \<in> selected) (db_events d))"
  obtain d' where d': "decide_all ?es decision actor now d = Inr (if decision = APPROVE then length ?es else 0, d')"
      "review_queue d' [] = filter (\<lambda>r. ev_id r \<notin> ev_id ` set ?es) (review_queue d [])"
      "db_states d' = (if decision = APPROVE
         then fold (\<lambda>e. snd \<circ> upsert_if_newer e now) ?es (db_states d) else db_states d)"
    using decide_all_total [OF _ assms, of ?es actor now d] by (force simp: pending_def)
  have "ev_id r \<in> ev_id ` set ?es \<longleftrightarrow> ev_id r \<in> selected" if "r \<in> set (review_queue d [])" for r
    using that by (auto simp: review_queue_def)
  then have "filter (\<lambda>r. ev_id r \<notin> ev_id ` set ?es) (review_queue d []) =
             filter (\<lambda>r. ev_id r \<notin> selected) (review_queue d [])"
    by (intro filter_cong) auto
  then show ?thesis using d' by (simp add: admin_decide_def Let_def)
qed

section \<open>Columns\<close>

definition events_fit :: "db \<Rightarrow> bool" where
  "events_fit d \<longleftrightarrow> (\<forall>e \<in> set (db_events d). event_columns e)"

lemma fill_fits: "event_columns (fill_event r m v e) = reading_fits r m v"
  by (simp add: reading_fits_def event_columns_def fill_event_def)

lemma event_columns_review [simp]:
  "event_columns e \<Longrightarrow> length reason \<le> 255 \<Longrightarrow> event_columns (e \<lparr> ev_requires_review := b, ev_review_reason := reason \<rparr>)"
  "event_columns e \<Longrightarrow> length reason \<le> 255 \<Longrightarrow> length decision \<le> 16 \<Longrightarrow>
     event_columns (e \<lparr> ev_reviewed_at := t, ev_review_decision := decision, ev_review_reason := reason \<rparr>)"
  by (simp_all add: event_columns_def)

lemma events_fit_update:
  "events_fit d \<Longrightarrow> (\<And>e. event_columns e \<Longrightarrow> event_columns (f e)) \<Longrightarrow>
     db_events d' = update_row key k f (db_events d) \<Longrightarrow> events_fit d'"
  by (auto simp: events_fit_def in_update_row)

lemma short_reason: "length (take MAX_REVIEW_REASON reason) \<le> 255" "length (review_note e decision actor) \<le> 255"
  by (simp_all add: review_note_def Let_def MAX_REVIEW_REASON_def)

lemma short_decision: "decision \<in> set VALID_DECISIONS \<Longrightarrow> length decision \<le> 16"
  by (auto simp: VALID_DECISIONS_def APPROVE_def REJECT_def)

lemma recording_fits:
  assumes "events_fit d" "create_for_webhook wid r m v now d = Inr (e, d')"
  shows "events_fit d' \<and> event_columns e"
  using assms fill_fits [of r m v]
  by (auto simp: create_Inr update_or_create_event_def Let_def events_fit_def in_update_row split: option.splits)

lemma gating_fits:
  assumes "events_fit d" "apply_confidence_gate cfg e now d = (gate, d')"
  shows "events_fit d'"
proof (cases "is_low_confidence (ev_confidence_score e) (LOW_CONFIDENCE_THRESHOLD cfg)")
  case True
  then have "db_events d' = update_row ev_id (ev_id e)
      (\<lambda>e. e \<lparr> ev_requires_review := True, ev_review_reason := take MAX_REVIEW_REASON (gate_reason gate) \<rparr>) (db_events d)"
    using assms(2) by (auto simp: apply_confidence_gate_def Let_def)
  from events_fit_update [OF assms(1) _ this] show ?thesis
    by (simp add: short_reason del: length_take)
next
  case False
  then show ?thesis using assms by (auto simp: apply_confidence_gate_def Let_def events_fit_def)
qed

lemma deciding_fits:
  assumes "events_fit d" "apply_review_decision e decision actor now d = Inr (u, d')"
  shows "events_fit d'"
  by (rule events_fit_update [OF assms(1) _ decision_Inr(5) [OF assms(2)]])
     (use short_reason(2) short_decision decision_Inr(2) [OF assms(2)] in simp)

text \<open>What the columns cannot hold is refused, and nothing else: a reading is recorded exactly when it
  fits, and recording, gating and deciding keep every stored event within its columns.\<close>

theorem stored_events_fit:
  assumes "events_fit d"
  shows "(case create_for_webhook wid r m v now d of
       Inl x \<Rightarrow> x = too_long \<and> \<not> reading_fits r m v
     | Inr (e, d') \<Rightarrow> reading_fits r m v \<and> events_fit d' \<and> events_fit (snd (apply_confidence_gate cfg e now d'))) \<and>
    (\<forall>u d'. apply_review_decision e decision actor now d = Inr (u, d') \<longrightarrow> events_fit d') \<and>
    events_fit (snd (ReviewDecisionView_post data i now d))"
proof -
  have "events_fit (snd (ReviewDecisionView_post data i now d))"
    using assms deciding_fits
    by (auto simp: ReviewDecisionView_post_def Let_def split: option.splits sum.splits)
  moreover have "case create_for_webhook wid r m v now d of
       Inl x \<Rightarrow> x = too_long \<and> \<not> reading_fits r m v
     | Inr (e, d') \<Rightarrow> reading_fits r m v \<and> events_fit d' \<and> events_fit (snd (apply_confidence_gate cfg e now d'))"
  proof (cases "create_for_webhook wid r m v now d")
    case (Inr ed)
    obtain e d' where ed: "ed = (e, d')" by (cases ed)
    have "events_fit d'" using recording_fits [OF assms Inr [unfolded ed]] by blast
    then have "events_fit (snd (apply_confidence_gate cfg e now d'))"
      using gating_fits [of d' cfg e now "fst (apply_confidence_gate cfg e now d')"] by simp
    moreover have "reading_fits r m v" using Inr ed by (simp add: create_Inr)
    ultimately show ?thesis using Inr ed \<open>events_fit d'\<close> by simp
  next
    case (Inl x)
    then show ?thesis using create_Inl [of wid r m v now d x] by simp
  qed
  ultimately show ?thesis using deciding_fits [OF assms] by blast
qed

section \<open>Witnesses\<close>

definition empty_db :: db where
  "empty_db = \<lparr> db_webhooks = [], db_events = [], db_states = [], db_profiles = [] \<rparr>"

lemma empty_db_ok: "event_constraints (db_events empty_db)" "events_fit empty_db"
  by (simp_all add: empty_db_def event_constraints_def events_fit_def)

definition doubtful :: normalization_result where
  "doubtful = \<lparr> nr_entity_type = ''SHIPMENT'', nr_entity_id = ''S-1'',
     nr_canonical_status = ''IN_TRANSIT'', nr_event_time = sample_time,
     nr_confidence_score = Fin (1/4), nr_normalized_payload = JObj [] \<rparr>"

abbreviation recorded :: "normalized_event \<times> db" where
  "recorded \<equiv> update_or_create_event 7 doubtful ''rules-based-normalizer'' ''rules-v1'' (Instant 9) empty_db"

lemma doubtful_fits: "length m \<le> 128 \<Longrightarrow> storable_text m \<Longrightarrow> length v \<le> 32 \<Longrightarrow> storable_text v \<Longrightarrow> reading_fits doubtful m v"
  by (simp add: reading_fits_def event_columns_def varchar_def fill_event_def blank_event_def doubtful_def)

theorem gate_protects_state_witness:
  "held (fst (apply_confidence_gate default_settings (fst recorded) (Instant 9) (snd recorded))) \<and>
   db_states (snd (apply_confidence_gate default_settings (fst recorded) (Instant 9) (snd recorded))) = []"
proof -
  have "create_for_webhook 7 doubtful ''rules-based-normalizer'' ''rules-v1'' (Instant 9) empty_db =
      Inr (fst recorded, snd recorded)"
    by (simp add: create_for_webhook_def doubtful_fits)
  from gate_protects_state [OF empty_db_ok(1) this prod.collapse [symmetric], of default_settings]
  show ?thesis by (simp add: doubtful_def default_settings_def empty_db_def)
qed

definition held_event :: normalized_event where
  "held_event = (sample_event 1 ''IN_TRANSIT'' 10) \<lparr> ev_requires_review := True \<rparr>"

definition held_db :: db where
  "held_db = empty_db \<lparr> db_events := [held_event] \<rparr>"

definition ann_approves :: "bool \<times> db" where
  "ann_approves = (case apply_review_decision held_event APPROVE ''ann'' (Instant 20) held_db of Inr r \<Rightarrow> r)"

lemma ann_approves: "apply_review_decision held_event APPROVE ''ann'' (Instant 20) held_db = Inr (fst ann_approves, snd ann_approves)"
  using decision_total [of held_event APPROVE "''ann''" "Instant 20" held_db]
  by (auto simp: ann_approves_def held_event_def sample_event_def VALID_DECISIONS_def)

lemma valid_decisions [simp]: "APPROVE \<in> set VALID_DECISIONS" "REJECT \<in> set VALID_DECISIONS"
  by (simp_all add: VALID_DECISIONS_def)

definition decided_event :: normalized_event where
  "decided_event = hd (db_events (snd ann_approves))"

lemma decided_event: "decided_event \<in> set (db_events (snd ann_approves))" "ev_id decided_event = ev_id held_event"
  unfolding decided_event_def decision_Inr(5) [OF ann_approves]
  by (simp_all add: held_db_def update_row_def)


theorem decision_leaves_queue_witness:
  "held_event \<in> set (review_queue held_db []) \<and> review_queue (snd ann_approves) [] = []"
  using decision_leaves_queue [OF ann_approves, of "[]"]
  by (simp add: review_queue_def held_db_def pending_def held_event_def sample_event_def)

theorem decision_endpoint_witness:
  "fst (fst (ReviewDecisionView_post (JObj [(''decision'', JStr ''approve'')]) 2 (Instant 20) empty_db)) = 404 \<and>
   snd (ReviewDecisionView_post (JObj [(''decision'', JStr ''approve'')]) 2 (Instant 20) empty_db) = empty_db"
proof -
  let ?r = "ReviewDecisionView_post (JObj [(''decision'', JStr ''approve'')]) 2 (Instant 20) empty_db"
  have d: "requested_decision (JObj [(''decision'', JStr ''approve'')]) = APPROVE"
    by code_simp
  have c: "fst (fst ?r) = 404"
    by (simp add: ReviewDecisionView_post_def d empty_db_def first_row_def)
  have "?r = ((fst (fst ?r), snd (fst ?r)), snd ?r)" by (simp only: prod.collapse)
  from decision_endpoint [OF empty_db_ok(1) this] c show ?thesis by simp
qed

theorem admin_decide_selection_witness:
  "\<exists>message d'. admin_decide {1} REJECT ''ann'' (Instant 20) held_db = Inr (message, d') \<and>
     review_queue d' [] = [] \<and> db_states d' = []"
  using admin_decide_selection [OF valid_decisions(2), of "{1}" "''ann''" "Instant 20" held_db]
  by (auto simp: review_queue_def held_db_def held_event_def sample_event_def empty_db_def
      APPROVE_def REJECT_def)

theorem stored_events_fit_witness:
  "events_fit (snd (ReviewDecisionView_post (JObj []) 1 (Instant 9) empty_db))"
  using stored_events_fit [OF empty_db_ok(2)] by blast

end
