(* ===== verification/Py_Loads.thy ===== *)
theory Py_Loads
  imports Py_Json
begin

text \<open>
  \<open>json.loads\<close> on the strings a language model returns.  A character above 255 cannot be written
  as a HOL \<open>char\<close>, so a \<open>\u\<close> escape for one is outside the model and is refused.  The recursion
  is bounded by the length of the text, which every recursive call shortens.
\<close>

section \<open>Tokens\<close>

definition is_json_space :: "char \<Rightarrow> bool" where
  "is_json_space c \<longleftrightarrow> code c \<in> {9, 10, 13, 32}"

definition skip_ws :: "string \<Rightarrow> string" where
  "skip_ws s = dropWhile is_json_space s"

definition hex_val :: "char \<Rightarrow> nat option" where
  "hex_val c =
     (let n = code c in
      if 48 \<le> n \<and> n \<le> 57 then Some (n - 48)
      else if 97 \<le> n \<and> n \<le> 102 then Some (n - 87)
      else if 65 \<le> n \<and> n \<le> 70 then Some (n - 55) else None)"

definition unicode_escape :: "char \<Rightarrow> char \<Rightarrow> char \<Rightarrow> char \<Rightarrow> char option" where
  "unicode_escape a b c d =
     (case (hex_val a, hex_val b, hex_val c, hex_val d) of
        (Some w, Some x, Some y, Some z) \<Rightarrow>
          (let n = ((w * 16 + x) * 16 + y) * 16 + z in if n < 256 then Some (char_of n) else None)
      | _ \<Rightarrow> None)"

definition simple_escape :: "char \<Rightarrow> char option" where
  "simple_escape c =
     (if c = CHR 0x22 \<or> c = CHR 0x5C \<or> c = CHR ''/'' then Some c
      else if c = CHR ''n'' then Some (CHR 0x0A) else if c = CHR ''r'' then Some (CHR 0x0D)
      else if c = CHR ''t'' then Some (CHR 0x09) else if c = CHR ''f'' then Some (CHR 0x0C)
      else if c = CHR ''b'' then Some (CHR 0x08) else None)"

definition cons_result :: "char \<Rightarrow> (string \<times> string) option \<Rightarrow> (string \<times> string) option" where
  "cons_result c r = map_option (\<lambda>(t, rest). (c # t, rest)) r"

text \<open>The body of a string, after its opening quote.\<close>

fun lex_string :: "string \<Rightarrow> (string \<times> string) option" where
  "lex_string [] = None"
| "lex_string (c # s) =
     (if c = CHR 0x22 then Some ([], s)
      else if c = CHR 0x5C then
        (case s of
           [] \<Rightarrow> None
         | e # s' \<Rightarrow>
             if e = CHR ''u'' then
               (case s' of
                  w # x # y # z # s'' \<Rightarrow>
                    (case unicode_escape w x y z of
                       None \<Rightarrow> None
                     | Some u \<Rightarrow> cons_result u (lex_string s''))
                | _ \<Rightarrow> None)
             else (case simple_escape e of None \<Rightarrow> None | Some u \<Rightarrow> cons_result u (lex_string s')))
      else if code c < 32 then None
      else cons_result c (lex_string s))"

definition take_while_digit :: "string \<Rightarrow> string \<times> string" where
  "take_while_digit s = (takeWhile is_ascii_digit s, dropWhile is_ascii_digit s)"

text \<open>The optional fraction and exponent; without their digits they are not part of the number.\<close>

definition lex_fraction :: "string \<Rightarrow> string \<times> string" where
  "lex_fraction s =
     (case s of
        c # s' \<Rightarrow>
          if c = CHR ''.'' then
            (let (ds, rest) = take_while_digit s' in if ds = [] then ([], s) else (ds, rest))
          else ([], s)
      | [] \<Rightarrow> ([], s))"

definition lex_exponent :: "string \<Rightarrow> int option \<times> string" where
  "lex_exponent s =
     (case s of
        c # s' \<Rightarrow>
          if c = CHR ''e'' \<or> c = CHR ''E'' then
            (let (neg, s'') = (case s' of
                   d # r \<Rightarrow> if d = CHR ''-'' then (True, r) else if d = CHR ''+'' then (False, r) else (False, s')
                 | [] \<Rightarrow> (False, s'));
                 (ds, rest) = take_while_digit s''
             in if ds = [] then (None, s)
                else (Some ((if neg then -1 else 1) * int (digits_val ds)), rest))
          else (None, s)
      | [] \<Rightarrow> (None, s))"

definition number_value :: "bool \<Rightarrow> string \<Rightarrow> string \<Rightarrow> int option \<Rightarrow> json" where
  "number_value neg whole fd ex =
     (let sign = (if neg then -1 else 1 :: int) in
      if fd = [] \<and> ex = None then JInt (sign * int (digits_val whole))
      else let m = sign * int (digits_val (whole @ fd));
               e = (case ex of None \<Rightarrow> 0 | Some x \<Rightarrow> x) - int (length fd)
           in if float_limit \<le> \<bar>scale10 (of_int m) e\<bar> then JInf (\<not> neg) else JFloat m e)"

definition lex_number :: "bool \<Rightarrow> string \<Rightarrow> (json \<times> string) option" where
  "lex_number neg s =
     (case s of
        [] \<Rightarrow> None
      | c # s' \<Rightarrow>
          if \<not> is_ascii_digit c then None
          else let (whole, rest) = (if c = CHR ''0'' then ([c], s') else take_while_digit s);
                   (fd, rest') = lex_fraction rest;
                   (ex, rest'') = lex_exponent rest'
               in Some (number_value neg whole fd ex, rest''))"

definition lex_word :: "string \<Rightarrow> (json \<times> string) option" where
  "lex_word s =
     (if starts_with ''null'' s then Some (JNull, drop 4 s)
      else if starts_with ''true'' s then Some (JBool True, drop 4 s)
      else if starts_with ''false'' s then Some (JBool False, drop 5 s)
      else if starts_with ''NaN'' s then Some (JNaN, drop 3 s)
      else if starts_with ''Infinity'' s then Some (JInf True, drop 8 s)
      else if starts_with ''-Infinity'' s then Some (JInf False, drop 9 s)
      else case s of
        [] \<Rightarrow> None
      | c # s' \<Rightarrow> if c = CHR ''-'' then lex_number True s' else lex_number False s)"

section \<open>Values\<close>

fun parse_value :: "nat \<Rightarrow> string \<Rightarrow> (json \<times> string) option"
  and parse_items :: "nat \<Rightarrow> string \<Rightarrow> (json list \<times> string) option"
  and parse_members :: "nat \<Rightarrow> string \<Rightarrow> ((string \<times> json) list \<times> string) option" where
  "parse_value 0 s = None"
| "parse_value (Suc n) s =
     (case s of
        [] \<Rightarrow> None
      | c # s' \<Rightarrow>
          if c = CHR 0x22 then map_option (\<lambda>(t, rest). (JStr t, rest)) (lex_string s')
          else if c = CHR ''['' then
            (let s'' = skip_ws s' in
             if s'' \<noteq> [] \<and> hd s'' = CHR '']'' then Some (JArr [], tl s'')
             else map_option (\<lambda>(xs, rest). (JArr xs, rest)) (parse_items n s''))
          else if c = CHR ''{'' then
            (let s'' = skip_ws s' in
             if s'' \<noteq> [] \<and> hd s'' = CHR ''}'' then Some (JObj [], tl s'')
             else map_option (\<lambda>(kvs, rest). (JObj (dict_update [] kvs), rest)) (parse_members n s''))
          else lex_word s)"
| "parse_items 0 s = None"
| "parse_items (Suc n) s =
     (case parse_value n s of
        None \<Rightarrow> None
      | Some (x, rest) \<Rightarrow>
          (case skip_ws rest of
             [] \<Rightarrow> None
           | c # s' \<Rightarrow>
               if c = CHR '']'' then Some ([x], s')
               else if c = CHR '','' then
                 map_option (\<lambda>(xs, rest'). (x # xs, rest')) (parse_items n (skip_ws s'))
               else None))"
| "parse_members 0 s = None"
| "parse_members (Suc n) s =
     (case s of
        [] \<Rightarrow> None
      | q # s0 \<Rightarrow>
          if q \<noteq> CHR 0x22 then None
          else case lex_string s0 of
            None \<Rightarrow> None
          | Some (k, s1) \<Rightarrow>
              (case skip_ws s1 of
                 [] \<Rightarrow> None
               | col # s2 \<Rightarrow>
                   if col \<noteq> CHR '':'' then None
                   else case parse_value n (skip_ws s2) of
                     None \<Rightarrow> None
                   | Some (v, rest) \<Rightarrow>
                       (case skip_ws rest of
                          [] \<Rightarrow> None
                        | c # s' \<Rightarrow>
                            if c = CHR ''}'' then Some ([(k, v)], s')
                            else if c = CHR '','' then
                              map_option (\<lambda>(kvs, rest'). ((k, v) # kvs, rest'))
                                (parse_members n (skip_ws s'))
                            else None)))"

definition json_loads :: "string \<Rightarrow> json result" where
  "json_loads s =
     (case parse_value (2 * length s + 2) (skip_ws s) of
        None \<Rightarrow> Inl (ValueError ''Expecting value'')
      | Some (v, rest) \<Rightarrow>
          if skip_ws rest = [] then Inr v else Inl (ValueError ''Extra data''))"

end
