(* ===== verification/Backends.thy ===== *)
theory Backends
  imports Rules_Backend Review Py_Loads
begin

text \<open>
  \<open>apps/normalization/backends\<close> and \<open>prompts.py\<close>: the registry, the model-backed reader, and the
  contract both readers keep.  The OpenAI client is not part of the repository: it is a parameter
  that maps the two prompts to a completion or to one of its failures.
\<close>

section \<open>The model-backed reader\<close>

text \<open>
  What \<open>client.chat.completions.create\<close> may do: complete, with the content of each choice and the
  name of the model, fail with one of the API errors the code retries, or fail otherwise.
\<close>

datatype completion =
    Completed "string option list" string
  | ApiFailure string
  | OtherFailure string

type_synonym client = "string \<Rightarrow> string \<Rightarrow> completion"

definition PROMPT_VERSION :: string where
  "PROMPT_VERSION = ''v1''"

definition newline :: string where
  "newline = [CHR 0x0A]"

definition SYSTEM_PROMPT :: string where
  \<open>SYSTEM_PROMPT = join newline
     [''You are a strict webhook normalization engine.'',
      ''Classify a vendor event payload and normalize it to canonical fields.'',
      ''You must return only valid JSON and no additional text.'']\<close>

definition prompt_head :: "string list" where
  \<open>prompt_head =
     [''Normalize this event payload.'',
      '''',
      ''Vendor context:'']\<close>

definition prompt_rules :: "string list" where
  \<open>prompt_rules =
     ['''',
      ''Rules:'',
      ''1) entity_type must be one of: SHIPMENT, INVOICE, UNCLASSIFIED.'',
      ''2) SHIPMENT canonical_status must be one of: PICKED_UP, IN_TRANSIT, OUT_FOR_DELIVERY, DELIVERED.'',
      ''3) INVOICE canonical_status must be one of: ISSUED, PAID, VOIDED, REFUNDED.'',
      ''4) UNCLASSIFIED canonical_status must be UNKNOWN.'',
      ''5) event_time must be RFC3339 ISO-8601 with timezone.'',
      ''6) confidence_score must be float in [0.0, 1.0].'',
      ''7) infer entity_id from best available identifier.'',
      ''8) use these examples:'',
      ''   - "Loaded onboard and sailed" => SHIPMENT / IN_TRANSIT'',
      ''   - "Cargo released to consignee" => SHIPMENT / DELIVERED'',
      ''   - "freight invoice raised" => INVOICE / ISSUED'',
      ''   - "settled in full" => INVOICE / PAID'',
      '''',
      ''Return JSON schema:'',
      ''{'',
      ''  "entity_type": "SHIPMENT|INVOICE|UNCLASSIFIED",'',
      ''  "entity_id": "string",'',
      ''  "canonical_status": "string",'',
      ''  "event_time": "ISO-8601 string",'',
      ''  "confidence_score": 0.0,'',
      ''  "normalized_payload": {'',
      ''      "summary": "short text",'',
      ''      "signals": ["signal1", "signal2"]'',
      ''  }'',
      ''}'',
      '''',
      ''Payload:'']\<close>

definition user_prompt :: "string \<Rightarrow> string \<Rightarrow> string" where
  "user_prompt vendor_hint payload_json =
     join newline (prompt_head @ [vendor_hint] @ prompt_rules @ [payload_json])"

definition hint_line :: "string \<Rightarrow> string list \<Rightarrow> string list" where
  "hint_line label paths = (if paths = [] then [] else [label @ join '', '' paths])"

definition vendor_hint :: "profile \<Rightarrow> string \<Rightarrow> string" where
  "vendor_hint profile vendor =
     (case profile of
        None \<Rightarrow> ''The sending vendor is '' @ (if vendor = [] then ''unknown'' else vendor)
                @ ''. No profile is on file.''
      | Some p \<Rightarrow>
          (let known = filter (\<lambda>(t, c). c \<noteq> []) (vs_status_map p) in
           join newline
             ([''The sending vendor is '' @ vs_vendor p @ ''. A profile is on file:'']
              @ (if vs_entity_type p = [] then []
                 else [''- this vendor always sends '' @ vs_entity_type p @ '' events''])
              @ hint_line ''- identifier lives at: '' (vs_id_paths p)
              @ hint_line ''- status lives at: '' (vs_status_paths p)
              @ hint_line ''- event time lives at: '' (vs_time_paths p)
              @ hint_line ''- known status vocabulary: '' (map (\<lambda>(t, c). t @ '' -> '' @ c) known)
              @ [''Prefer the profile where it applies; say so in confidence if it does not.''])))"

definition parse_completion :: "string option list \<Rightarrow> normalization_result result" where
  "parse_completion choices =
     (case choices of
        [] \<Rightarrow> Inl (OtherException ''list index out of range'')
      | content # _ \<Rightarrow>
          (let text = (case content of None \<Rightarrow> ''{}'' | Some t \<Rightarrow> if t = [] then ''{}'' else t)
           in and_then (json_loads text) from_dict))"

definition openai_normalize ::
  "settings \<Rightarrow> client \<Rightarrow> profile \<Rightarrow> string \<Rightarrow> json \<Rightarrow> normalization_response result" where
  "openai_normalize cfg client profile vendor payload =
     (case client SYSTEM_PROMPT (user_prompt (vendor_hint profile vendor) (json_text payload)) of
        ApiFailure m \<Rightarrow> Inl (RetryableNormalizationError m)
      | OtherFailure m \<Rightarrow> Inl (NormalizationError (''OpenAI invocation failed: '' @ m))
      | Completed choices model \<Rightarrow>
          (case parse_completion choices of
             Inl e \<Rightarrow> Inl (NormalizationError (''Malformed model response: '' @ exn_str e))
           | Inr r \<Rightarrow>
               Inr \<lparr> resp_normalized = r, resp_llm_model = model,
                     resp_prompt_version = (if NORMALIZATION_PROMPT_VERSION cfg \<noteq> []
                       then NORMALIZATION_PROMPT_VERSION cfg else PROMPT_VERSION) \<rparr>))"

section \<open>The two backends over the profile store\<close>

type_synonym profile_state = "vendor_profile list \<times> profile_cache"

definition rules_backend :: "pinned \<Rightarrow> rat \<Rightarrow> datetime \<Rightarrow> profile_state normalizer" where
  "rules_backend pins now arrival payload vendor st =
     (let (profile, st') = profile_for pins now vendor st
      in (rules_normalize profile arrival payload, st'))"

definition openai_backend :: "settings \<Rightarrow> client \<Rightarrow> pinned \<Rightarrow> rat \<Rightarrow> profile_state normalizer" where
  "openai_backend cfg client pins now payload vendor st =
     (let (profile, st') = profile_for pins now vendor st
      in (openai_normalize cfg client profile vendor payload, st'))"

section \<open>The registry\<close>

text \<open>A factory builds a normaliser or raises.\<close>

type_synonym 's registry = "(string, 's normalizer result) dict"

definition AUTO :: string where
  "AUTO = ''auto''"

definition OPENAI :: string where
  "OPENAI = ''openai''"

definition RULES :: string where
  "RULES = ''rules''"

definition register_backend :: "string \<Rightarrow> 's normalizer result \<Rightarrow> 's registry \<Rightarrow> 's registry" where
  "register_backend name factory reg = dict_set (lower name) factory reg"

definition available_backends :: "'s registry \<Rightarrow> string list" where
  "available_backends reg = sort (dict_keys reg)"

definition build_openai :: "settings \<Rightarrow> client \<Rightarrow> pinned \<Rightarrow> rat \<Rightarrow> profile_state normalizer result" where
  "build_openai cfg client pins now =
     (if OPENAI_API_KEY cfg = [] then Inl (NormalizationError ''OPENAI_API_KEY is not configured'')
      else Inr (openai_backend cfg client pins now))"

definition build_rules :: "pinned \<Rightarrow> rat \<Rightarrow> datetime \<Rightarrow> profile_state normalizer result" where
  "build_rules pins now arrival = Inr (rules_backend pins now arrival)"

definition default_registry ::
  "settings \<Rightarrow> client \<Rightarrow> pinned \<Rightarrow> rat \<Rightarrow> datetime \<Rightarrow> profile_state registry" where
  "default_registry cfg client pins now arrival =
     register_backend RULES (build_rules pins now arrival)
       (register_backend OPENAI (build_openai cfg client pins now) [])"

definition configured_backend :: "settings \<Rightarrow> string" where
  "configured_backend cfg =
     lower (if NORMALIZATION_BACKEND cfg = [] then AUTO else NORMALIZATION_BACKEND cfg)"

definition resolve_backend_name :: "settings \<Rightarrow> 's registry \<Rightarrow> string" where
  "resolve_backend_name cfg reg =
     (if configured_backend cfg \<noteq> AUTO then
        (if configured_backend cfg \<in> set (dict_keys reg) then configured_backend cfg else RULES)
      else if OPENAI_API_KEY cfg \<noteq> [] then OPENAI else RULES)"

definition get_normalizer :: "settings \<Rightarrow> 's registry \<Rightarrow> 's normalizer result" where
  "get_normalizer cfg reg =
     (let name = resolve_backend_name cfg reg in
      case dict_get reg name of None \<Rightarrow> Inl (KeyError (str_repr name)) | Some factory \<Rightarrow> factory)"

section \<open>The contract of a backend\<close>

text \<open>
  What the pipeline relies on: a reading that is returned is canonical, so the event recorded
  from it is.  A scoring backend also never returns NaN, so the gate decides by the threshold.
\<close>

definition event_wf :: "normalized_event \<Rightarrow> bool" where
  "event_wf e \<longleftrightarrow>
     canonical_pair (ev_entity_type e) (ev_canonical_status e) \<and>
     ev_entity_id e \<noteq> [] \<and> strip (ev_entity_id e) = ev_entity_id e \<and>
     (unit_score (ev_confidence_score e) \<or> ev_confidence_score e = NaN) \<and>
     is_object (ev_normalized_payload e)"

definition events_wf :: "db \<Rightarrow> bool" where
  "events_wf d \<longleftrightarrow> (\<forall>e \<in> set (db_events d). event_wf e)"

lemma event_wf_fill: "wf_result r \<Longrightarrow> event_wf (fill_event r m v e)"
  by (simp add: wf_result_def event_wf_def fill_event_def)

lemma update_or_create_wf:
  assumes "events_wf d" "wf_result r"
    and "create_for_webhook wid r m v now d = Inr (e, d')"
  shows "events_wf d' \<and> event_wf e"
  using assms event_wf_fill [OF assms(2)]
  by (auto simp: create_Inr update_or_create_event_def Let_def events_wf_def in_update_row split: option.splits)

locale reading_backend =
  fixes run :: "'s normalizer"
  assumes run_wf: "run payload vendor s = (Inr resp, s') \<Longrightarrow> wf_result (resp_normalized resp)"
begin

lemma recorded_wf:
  assumes "events_wf d" "run payload vendor s = (Inr resp, s')"
    and "create_for_webhook wid (resp_normalized resp) m v now d = Inr (e, d')"
  shows "events_wf d' \<and> event_wf e"
  by (rule update_or_create_wf [OF assms(1) run_wf [OF assms(2)] assms(3)])

end

locale scoring_backend = reading_backend +
  assumes run_scored: "run payload vendor s = (Inr resp, s') \<Longrightarrow>
      unit_score (nr_confidence_score (resp_normalized resp))"
begin

lemma gate_by_threshold:
  assumes "run payload vendor s = (Inr resp, s')"
  obtains c where "nr_confidence_score (resp_normalized resp) = Fin c" "0 \<le> c" "c \<le> 1"
    "is_low_confidence (nr_confidence_score (resp_normalized resp)) t \<longleftrightarrow> c < t"
  using run_scored [OF assms] by (auto simp: unit_score_def split: pyfloat.splits)

end

lemma rules_normalize_wf:
  assumes "rules_normalize profile arrival payload = Inr resp"
  shows "wf_result (resp_normalized resp) \<and> unit_score (nr_confidence_score (resp_normalized resp))"
proof -
  obtain et eid cs t c np where fd:
      "from_dict (reading_dict et eid cs t (json_of_score c) np) = Inr (resp_normalized resp)"
    using assms unfolding rules_normalize_def Let_def by (auto split: if_splits prod.splits)
  then have wf: "wf_result (resp_normalized resp)" by (rule from_dict_wf)
  have "nr_confidence_score (resp_normalized resp) = Fin (round3 c)"
    using fd by (rule from_dict_InrE) (auto simp: item_reading)
  then show ?thesis using wf by (simp add: wf_result_def)
qed

lemma openai_normalize_wf:
  assumes "openai_normalize cfg client profile vendor payload = Inr resp"
  shows "wf_result (resp_normalized resp)"
proof -
  obtain data where "from_dict data = Inr (resp_normalized resp)"
    using assms by (auto simp: openai_normalize_def parse_completion_def Let_def
        split: completion.splits sum.splits list.splits)
  then show ?thesis by (rule from_dict_wf)
qed

interpretation rules: scoring_backend "rules_backend pins now arrival" for pins now arrival
  by unfold_locales
     (auto simp: rules_backend_def Let_def dest: rules_normalize_wf split: prod.splits)

interpretation openai: reading_backend "openai_backend cfg client pins now" for cfg client pins now
  by unfold_locales
     (auto simp: openai_backend_def Let_def dest: openai_normalize_wf split: prod.splits)

lemma backend_selection_default:
  "get_normalizer cfg (default_registry cfg client pins now arrival) =
     (if configured_backend cfg = OPENAI \<or> (configured_backend cfg = AUTO \<and> OPENAI_API_KEY cfg \<noteq> [])
      then (if OPENAI_API_KEY cfg = [] then Inl (NormalizationError ''OPENAI_API_KEY is not configured'')
            else Inr (openai_backend cfg client pins now))
      else Inr (rules_backend pins now arrival))"
proof -
  have names: "lower RULES = RULES" "lower OPENAI = OPENAI" "RULES \<noteq> OPENAI" "AUTO \<noteq> OPENAI" "AUTO \<noteq> RULES"
    by (simp_all add: RULES_def OPENAI_def AUTO_def lower_def char_lower_def)
  have reg: "default_registry cfg client pins now arrival =
      [(OPENAI, build_openai cfg client pins now), (RULES, build_rules pins now arrival)]"
    using names by (simp add: default_registry_def register_backend_def)
  show ?thesis
    using names by (auto simp: get_normalizer_def resolve_backend_name_def reg build_openai_def build_rules_def)
qed

text \<open>Backend selection: the model-backed reader runs exactly when it is asked for by name or
  when the choice is automatic and a key is set; it refuses to start without a key; in every
  other configuration, misspelt names included, the rules run.\<close>

theorem backend_selection:
  "get_normalizer cfg (default_registry cfg client pins now arrival) =
     (if configured_backend cfg = OPENAI \<or> (configured_backend cfg = AUTO \<and> OPENAI_API_KEY cfg \<noteq> [])
      then (if OPENAI_API_KEY cfg = [] then Inl (NormalizationError ''OPENAI_API_KEY is not configured'')
            else Inr (openai_backend cfg client pins now))
      else Inr (rules_backend pins now arrival))"
  by (rule backend_selection_default)

text \<open>Whatever the client does, the model-backed reader returns a canonical reading or raises
  one of the two errors the task sorts: the retryable one exactly for an API failure.\<close>

theorem openai_errors_sorted:
  "case openai_normalize cfg client profile vendor payload of
     Inr resp \<Rightarrow> wf_result (resp_normalized resp)
   | Inl e \<Rightarrow> (\<exists>m. e = RetryableNormalizationError m \<and>
                client SYSTEM_PROMPT (user_prompt (vendor_hint profile vendor) (json_text payload)) = ApiFailure m)
            \<or> (\<exists>m. e = NormalizationError m \<and>
                client SYSTEM_PROMPT (user_prompt (vendor_hint profile vendor) (json_text payload)) \<noteq> ApiFailure m)"
proof (cases "openai_normalize cfg client profile vendor payload")
  case (Inl e)
  then show ?thesis by (auto simp: openai_normalize_def split: completion.splits sum.splits)
next
  case (Inr resp)
  then show ?thesis using openai_normalize_wf by simp
qed

text \<open>C16. Whichever backend the configuration selects, recording its reading keeps every stored
  event canonical.\<close>

theorem selected_backend_records_canonical:
  assumes "get_normalizer cfg (default_registry cfg client pins now arrival) = Inr run"
    and "events_wf d" "run payload vendor st = (Inr resp, st')"
    and "create_for_webhook wid (resp_normalized resp) m v stamp d = Inr (e, d')"
  shows "events_wf d' \<and> event_wf e"
proof -
  have "run = openai_backend cfg client pins now \<or> run = rules_backend pins now arrival"
    using assms(1) backend_selection_default by (metis Inl_Inr_False Inr_inject)
  then show ?thesis
    using assms(2-4) openai.recorded_wf rules.recorded_wf by metis
qed

lemma parcel_fits: "reading_fits (resp_normalized parcel_reading) (resp_llm_model parcel_reading) (resp_prompt_version parcel_reading)"
  by (simp add: reading_fits_def event_columns_def varchar_def fill_event_def blank_event_def parcel_reading_def
      rules_payload_def fields_found_def MODEL_NAME_def rules_PROMPT_VERSION_def)

theorem selected_backend_records_canonical_witness:
  "\<exists>e d'. create_for_webhook 7 (resp_normalized parcel_reading) (resp_llm_model parcel_reading)
     (resp_prompt_version parcel_reading) (Instant 9) empty_db = Inr (e, d') \<and> event_wf e"
proof -
  have "configured_backend default_settings = AUTO"
    by (simp add: configured_backend_def AUTO_def lower_def char_lower_def)
  then have g: "get_normalizer default_settings (default_registry default_settings (\<lambda>_ _. OtherFailure []) [] 0 sample_time) =
      Inr (rules_backend [] 0 sample_time)"
    by (subst backend_selection_default) (simp add: AUTO_def OPENAI_def)
  have run: "rules_backend [] 0 sample_time parcel [] ([], Map.empty) = (Inr parcel_reading, ([], Map.empty))"
    by (simp add: rules_backend_def profile_for_def vendor_key_def parcel_read_as)
  have empty: "events_wf empty_db" by (simp add: events_wf_def empty_db_def)
  obtain e d' where c: "create_for_webhook 7 (resp_normalized parcel_reading) (resp_llm_model parcel_reading)
      (resp_prompt_version parcel_reading) (Instant 9) empty_db = Inr (e, d')"
    by (metis create_for_webhook_def parcel_fits prod.exhaust)
  from selected_backend_records_canonical [OF g empty run c] c show ?thesis by blast
qed

end
