(* ===== verification/Inbound.thy ===== *)
theory Inbound
  imports Py_Hash
begin

text \<open>
  \<open>apps/ingestion/inbound.py\<close> and \<open>apps/ingestion/utils.py\<close>: reading a delivery out of an HTTP
  request, and the key that a redelivery must collide with.

  Django's \<open>request.headers\<close> is a case-insensitive mapping; here it is the list of header
  lines, looked up up to case.
\<close>

section \<open>The request and what is read from it\<close>

type_synonym headers = "(string \<times> string) list"

definition header_get :: "headers \<Rightarrow> string \<Rightarrow> string option" where
  "header_get hs name = map_option snd (find (\<lambda>(k, v). lower k = lower name) hs)"

definition IDEMPOTENCY_HEADER :: string where
  "IDEMPOTENCY_HEADER = ''Idempotency-Key''"

definition VENDOR_HEADER :: string where
  "VENDOR_HEADER = ''X-Webhook-Vendor''"

definition VENDOR_PAYLOAD_KEYS :: "string list" where
  "VENDOR_PAYLOAD_KEYS = [''vendor'', ''source'', ''provider'', ''carrier'']"

definition UNKNOWN_VENDOR :: string where
  "UNKNOWN_VENDOR = ''unknown''"

definition MAX_VENDOR_LENGTH :: nat where
  "MAX_VENDOR_LENGTH = 128"

definition MAX_IDEMPOTENCY_HEADER_LENGTH :: nat where
  "MAX_IDEMPOTENCY_HEADER_LENGTH = 255"

record inbound_webhook =
  iw_vendor :: string
  iw_payload :: json
  iw_raw_body :: bytes
  iw_idempotency_key :: "string option"
  iw_signature :: "string option"

text \<open>The loop over the payload keys: the first key whose value is neither null nor blank.\<close>

fun first_named :: "json \<Rightarrow> string list \<Rightarrow> json option" where
  "first_named payload [] = None"
| "first_named payload (key # keys) =
     (let v = obj_get payload key in
      if v \<noteq> JNull \<and> strip (py_str v) \<noteq> [] then Some v else first_named payload keys)"

definition resolve_vendor :: "headers \<Rightarrow> json \<Rightarrow> string" where
  "resolve_vendor hs payload =
     (let header_value = strip (case header_get hs VENDOR_HEADER of None \<Rightarrow> [] | Some v \<Rightarrow> v) in
      if header_value \<noteq> [] then take MAX_VENDOR_LENGTH header_value
      else if is_object payload then
        (case first_named payload VENDOR_PAYLOAD_KEYS of
           Some v \<Rightarrow> take MAX_VENDOR_LENGTH (strip (py_str v))
         | None \<Rightarrow> UNKNOWN_VENDOR)
      else UNKNOWN_VENDOR)"

definition resolve_idempotency_key :: "headers \<Rightarrow> string option" where
  "resolve_idempotency_key hs =
     (case header_get hs IDEMPOTENCY_HEADER of
        None \<Rightarrow> None
      | Some v \<Rightarrow>
          (let v' = strip v in
           if v' \<noteq> [] then Some (take MAX_IDEMPOTENCY_HEADER_LENGTH v') else None))"

definition read_request ::
  "headers \<Rightarrow> json \<Rightarrow> bytes \<Rightarrow> string \<Rightarrow> inbound_webhook result" where
  "read_request hs payload raw_body signature_header =
     (if \<not> is_object payload \<or> \<not> truthy payload
      then Inl (InvalidPayload ''A non-empty JSON object payload is required.'')
      else Inr \<lparr> iw_vendor = resolve_vendor hs payload,
                 iw_payload = payload,
                 iw_raw_body = raw_body,
                 iw_idempotency_key = resolve_idempotency_key hs,
                 iw_signature = header_get hs signature_header \<rparr>)"

section \<open>Event ids and idempotency keys\<close>

definition KNOWN_EVENT_ID_KEYS :: "string list" where
  "KNOWN_EVENT_ID_KEYS =
     [''event_id'', ''eventId'', ''external_event_id'', ''externalEventId'', ''id'', ''message_id'']"

definition extract_external_event_id :: "json \<Rightarrow> string option" where
  "extract_external_event_id payload =
     (if \<not> is_object payload then None
      else map_option (\<lambda>v. take 255 (py_str v)) (first_named payload KNOWN_EVENT_ID_KEYS))"

definition MAX_IDEMPOTENCY_KEY_LENGTH :: nat where
  "MAX_IDEMPOTENCY_KEY_LENGTH = 255"

definition fit :: "string \<Rightarrow> string" where
  "fit key =
     (if length key \<le> MAX_IDEMPOTENCY_KEY_LENGTH then key
      else let digest = hex (sha256 (utf8 key)) in
           take (MAX_IDEMPOTENCY_KEY_LENGTH - length digest - 1) key @ '':'' @ digest)"

definition build_idempotency_key ::
  "string \<Rightarrow> json \<Rightarrow> string option \<Rightarrow> string option \<Rightarrow> string" where
  "build_idempotency_key vendor payload external_event_id supplied_key =
     (case supplied_key of
        Some k \<Rightarrow>
          if strip k \<noteq> [] then fit (''header:'' @ vendor @ '':'' @ strip k)
          else (case external_event_id of
                  Some e \<Rightarrow> if e \<noteq> [] then fit (''external:'' @ vendor @ '':'' @ e)
                            else fit (''payload:'' @ vendor @ '':'' @ hex (sha256 (utf8 (json_dumps payload))))
                | None \<Rightarrow> fit (''payload:'' @ vendor @ '':'' @ hex (sha256 (utf8 (json_dumps payload)))))
      | None \<Rightarrow>
          (case external_event_id of
             Some e \<Rightarrow> if e \<noteq> [] then fit (''external:'' @ vendor @ '':'' @ e)
                       else fit (''payload:'' @ vendor @ '':'' @ hex (sha256 (utf8 (json_dumps payload))))
           | None \<Rightarrow> fit (''payload:'' @ vendor @ '':'' @ hex (sha256 (utf8 (json_dumps payload))))))"

section \<open>Reading a request\<close>

lemma first_named_Some:
  "first_named payload keys = Some v \<Longrightarrow> v \<noteq> JNull \<and> strip (py_str v) \<noteq> []"
  by (induction keys) (auto simp: Let_def split: if_splits)

lemma resolve_vendor_bounds:
  "resolve_vendor hs payload \<noteq> [] \<and> length (resolve_vendor hs payload) \<le> MAX_VENDOR_LENGTH"
  by (auto simp: resolve_vendor_def Let_def UNKNOWN_VENDOR_def MAX_VENDOR_LENGTH_def
      dest: first_named_Some split: option.splits)

lemma resolve_idempotency_key_bounds:
  "resolve_idempotency_key hs = Some k \<Longrightarrow> k \<noteq> [] \<and> length k \<le> MAX_IDEMPOTENCY_HEADER_LENGTH"
  by (auto simp: resolve_idempotency_key_def Let_def MAX_IDEMPOTENCY_HEADER_LENGTH_def
      split: option.splits if_splits)

lemma strip_take_hd:
  assumes "strip s \<noteq> []" "0 < n"
  shows "strip (take n (strip s)) \<noteq> []"
proof -
  have ne: "take n (strip s) \<noteq> []" using assms by simp
  have "hd (take n (strip s)) = hd (strip s)" using assms by (cases "strip s"; cases n) auto
  then have "\<not> is_space (hd (take n (strip s)))"
    using strip_by_hd [of is_space s] assms(1) by (simp add: strip_def)
  then have "dropWhile is_space (take n (strip s)) = take n (strip s)"
    using ne by (cases "take n (strip s)") auto
  moreover have "\<exists>c \<in> set (take n (strip s)). \<not> is_space c"
    using \<open>\<not> is_space (hd (take n (strip s)))\<close> ne hd_in_set by blast
  ultimately show ?thesis by (auto simp: strip_def strip_by_def dropWhile_eq_Nil_conv)
qed

lemma resolve_idempotency_key_not_blank:
  "resolve_idempotency_key hs = Some k \<Longrightarrow> strip k \<noteq> []"
  by (auto simp: resolve_idempotency_key_def Let_def MAX_IDEMPOTENCY_HEADER_LENGTH_def
      strip_take_hd split: option.splits if_splits)

lemma read_request_Inr:
  "read_request hs payload body h = Inr iw \<longleftrightarrow>
     is_object payload \<and> truthy payload \<and>
     iw = \<lparr> iw_vendor = resolve_vendor hs payload, iw_payload = payload, iw_raw_body = body,
            iw_idempotency_key = resolve_idempotency_key hs, iw_signature = header_get hs h \<rparr>"
  by (auto simp: read_request_def)

lemma extract_external_event_id_bounds:
  assumes "extract_external_event_id payload = Some e"
  shows "e \<noteq> [] \<and> length e \<le> 255"
proof -
  obtain v where v: "first_named payload KNOWN_EVENT_ID_KEYS = Some v" "e = take 255 (py_str v)"
    using assms by (auto simp: extract_external_event_id_def split: if_splits)
  then have "py_str v \<noteq> []" using first_named_Some [OF v(1)] by auto
  then show ?thesis using v(2) by simp
qed

section \<open>Idempotency keys\<close>

lemma length_fit: "length (fit key) \<le> MAX_IDEMPOTENCY_KEY_LENGTH"
  by (simp add: fit_def Let_def MAX_IDEMPOTENCY_KEY_LENGTH_def)

lemma fit_short: "length key \<le> MAX_IDEMPOTENCY_KEY_LENGTH \<Longrightarrow> fit key = key"
  by (simp add: fit_def)

lemma fit_long:
  "MAX_IDEMPOTENCY_KEY_LENGTH < length key \<Longrightarrow>
     fit key = take 190 key @ '':'' @ hex (sha256 (utf8 key))"
  by (simp add: fit_def Let_def MAX_IDEMPOTENCY_KEY_LENGTH_def)

lemma take_fit: "n \<le> 190 \<Longrightarrow> take n (fit key) = take n key"
  by (cases "length key \<le> MAX_IDEMPOTENCY_KEY_LENGTH")
     (auto simp: fit_short fit_long MAX_IDEMPOTENCY_KEY_LENGTH_def)

text \<open>
  Two keys that fit, or two that overflow, are merged only when they are equal or their SHA-256
  digests collide.
\<close>

lemma fit_collision:
  assumes "fit a = fit b"
    and "length a \<le> MAX_IDEMPOTENCY_KEY_LENGTH \<longleftrightarrow> length b \<le> MAX_IDEMPOTENCY_KEY_LENGTH"
  shows "a = b \<or> (take 190 a = take 190 b \<and> sha256 (utf8 a) = sha256 (utf8 b))"
proof (cases "length a \<le> MAX_IDEMPOTENCY_KEY_LENGTH")
  case True
  then show ?thesis using assms by (simp add: fit_short)
next
  case False
  then have "take 190 a @ '':'' @ hex (sha256 (utf8 a)) = take 190 b @ '':'' @ hex (sha256 (utf8 b))"
    using assms by (simp add: fit_long)
  then show ?thesis using False assms(2)
    by (simp add: MAX_IDEMPOTENCY_KEY_LENGTH_def hex_inject)
qed

text \<open>The key before it is made to fit.\<close>

definition raw_key :: "string \<Rightarrow> json \<Rightarrow> string option \<Rightarrow> string option \<Rightarrow> string" where
  "raw_key vendor payload ext supplied =
     (if (case supplied of None \<Rightarrow> False | Some k \<Rightarrow> strip k \<noteq> [])
      then ''header:'' @ vendor @ '':'' @ strip (the supplied)
      else if (case ext of None \<Rightarrow> False | Some e \<Rightarrow> e \<noteq> [])
      then ''external:'' @ vendor @ '':'' @ the ext
      else ''payload:'' @ vendor @ '':'' @ hex (sha256 (utf8 (json_dumps payload))))"

lemma build_idempotency_key_fit: "build_idempotency_key vendor payload ext supplied = fit (raw_key vendor payload ext supplied)"
  by (auto simp: build_idempotency_key_def raw_key_def split: option.splits)

text \<open>For one vendor, two deliveries whose keys fit get the same idempotency key only if the
  vendor sent both the same key, or sent none and both the same event id, or sent neither and the
  canonical texts of the payloads are equal or collide under SHA-256.\<close>

theorem keys_separate_deliveries:
  assumes "build_idempotency_key v p e k = build_idempotency_key v p' e' k'"
    and "length (raw_key v p e k) \<le> 255" "length (raw_key v p' e' k') \<le> 255"
  shows "(\<exists>s s'. k = Some s \<and> k' = Some s' \<and> strip s = strip s' \<and> strip s \<noteq> []) \<or>
    (\<exists>x. e = Some x \<and> e' = Some x \<and> x \<noteq> []) \<or>
    sha256 (utf8 (json_dumps p)) = sha256 (utf8 (json_dumps p'))"
proof -
  have "raw_key v p e k = raw_key v p' e' k'"
    using assms by (simp add: build_idempotency_key_fit fit_short MAX_IDEMPOTENCY_KEY_LENGTH_def)
  then show ?thesis
    by (auto simp: raw_key_def hex_inject split: if_splits option.splits)
qed

text \<open>A payload sent again with its object keys in another order, without a key or an event id
  of its own, gets the same idempotency key.\<close>

theorem key_ignores_member_order:
  assumes "same_up_to_key_order p q" "json_wf p" "json_wf q"
  shows "build_idempotency_key v p None None = build_idempotency_key v q None None"
  using assms by (simp add: build_idempotency_key_def json_dumps_key_order)

lemma colon_not_space: "\<not> is_space (CHR '':'')" and a_not_space: "\<not> is_space (CHR ''a'')"
  by (simp_all add: is_space_def py_whitespace_def)

text \<open>Shortening does not keep keys unique: for every vendor there are two different keys, both
  short enough for the header, that get the same idempotency key.\<close>

theorem shortened_keys_collide:
  assumes "length v \<le> 128"
  shows "\<exists>k1 k2. k1 \<noteq> k2 \<and> strip k1 = k1 \<and> strip k2 = k2 \<and> k1 \<noteq> [] \<and> k2 \<noteq> [] \<and>
    length k1 \<le> MAX_IDEMPOTENCY_HEADER_LENGTH \<and> length k2 \<le> MAX_IDEMPOTENCY_HEADER_LENGTH \<and>
    build_idempotency_key v p e (Some k1) = build_idempotency_key v p e (Some k2)"
proof -
  let ?k1 = "replicate 255 (CHR ''a'')" and ?pre = "''header:'' @ v @ '':''"
  let ?raw = "?pre @ ?k1" and ?d = "hex (sha256 (utf8 (?pre @ replicate 255 (CHR ''a''))))"
  define n where "n = 182 - length v"
  let ?k2 = "replicate n (CHR ''a'') @ '':'' @ ?d"
  have n: "n + length v = 182" "n \<le> 255" using assms by (auto simp: n_def)
  have long: "255 < length ?raw" by simp
  have nat_diff: "183 - length v = Suc n" using n by simp
  have "take 190 ?raw = ?pre @ replicate n (CHR ''a'')"
    using n by (simp add: take_replicate min_def nat_diff)
  then have fit: "fit ?raw = ?pre @ ?k2" using long by (simp add: fit_long MAX_IDEMPOTENCY_KEY_LENGTH_def)
  have "length (?pre @ ?k2) \<le> 255" using n by simp
  then have fit2: "fit (?pre @ ?k2) = ?pre @ ?k2" by (simp add: fit_short MAX_IDEMPOTENCY_KEY_LENGTH_def)
  have s1: "strip ?k1 = ?k1" by (rule strip_no_space) (auto simp: is_space_def py_whitespace_def)
  have s2: "strip ?k2 = ?k2"
    by (rule strip_no_space) (auto dest!: hex_chars is_hex_not_space simp: colon_not_space a_not_space)
  have "build_idempotency_key v p e (Some ?k1) = fit ?raw" "build_idempotency_key v p e (Some ?k2) = fit (?pre @ ?k2)"
    using s1 s2 by (simp_all add: build_idempotency_key_def)
  then have "build_idempotency_key v p e (Some ?k1) = build_idempotency_key v p e (Some ?k2)"
    using fit fit2 by simp
  moreover have "?k1 \<noteq> ?k2"
  proof
    assume "?k1 = ?k2"
    then have "CHR '':'' \<in> set ?k1" by (metis in_set_conv_decomp append_Cons append_Nil)
    then show False by simp
  qed
  moreover have "length ?k2 \<le> 255" using n by simp
  ultimately show ?thesis using s1 s2
    by (intro exI [of _ ?k1] exI [of _ ?k2]) (simp add: MAX_IDEMPOTENCY_HEADER_LENGTH_def)
qed

text \<open>Witnesses.\<close>

theorem keys_separate_deliveries_witness:
  "(\<exists>s s'. Some '' k1'' = Some s \<and> Some ''k1'' = Some s' \<and> strip s = strip s' \<and> strip s \<noteq> []) \<or>
   sha256 (utf8 (json_dumps JNull)) = sha256 (utf8 (json_dumps (JInt 1)))"
proof -
  have s: "strip '' k1'' = ''k1''" "strip ''k1'' = ''k1''" by code_simp+
  then have "build_idempotency_key ''v'' JNull None (Some '' k1'') = build_idempotency_key ''v'' (JInt 1) None (Some ''k1'')"
    by (simp add: build_idempotency_key_def)
  from keys_separate_deliveries [OF this] show ?thesis using s by (simp add: raw_key_def)
qed

theorem key_ignores_member_order_witness:
  "build_idempotency_key ''v'' (JObj [(''a'', JInt 1), (''b'', JInt 2)]) None None =
   build_idempotency_key ''v'' (JObj [(''b'', JInt 2), (''a'', JInt 1)]) None None"
proof (rule key_ignores_member_order)
  show "same_up_to_key_order (JObj [(''a'', JInt 1), (''b'', JInt 2)]) (JObj [(''b'', JInt 2), (''a'', JInt 1)])"
    by (rule same_up_to_key_order.object [of _ "[(''a'', JInt 1), (''b'', JInt 2)]"])
       (auto intro: same_up_to_key_order.scalar)
qed simp_all

theorem shortened_keys_collide_witness:
  "\<exists>k1 k2. k1 \<noteq> k2 \<and> build_idempotency_key ''acme'' JNull None (Some k1) = build_idempotency_key ''acme'' JNull None (Some k2)"
  using shortened_keys_collide [of "''acme''" JNull None] by auto

end
