(* ===== verification/Raw_Webhooks.thy ===== *)
theory Raw_Webhooks
  imports Columns Inbound
begin

text \<open>
  \<open>apps/ingestion/repositories.py\<close>: storing a delivery exactly once.  \<open>get_or_create\<close> reads the
  table and then inserts, and other workers may commit in between, so the definition takes two
  tables: the one its SELECT saw and the one its INSERT (and every later lookup) meets.  With
  the same table twice it is the uncontended call.
\<close>

section \<open>The repository\<close>

record delivery =
  dl_vendor :: string
  dl_external_event_id :: "string option"
  dl_idempotency_key :: string
  dl_raw_payload :: json
  dl_received_at :: instant

definition same_key :: "delivery \<Rightarrow> raw_webhook \<Rightarrow> bool" where
  "same_key q w \<longleftrightarrow> rw_vendor w = dl_vendor q \<and> rw_idempotency_key w = dl_idempotency_key q"

definition same_event :: "delivery \<Rightarrow> raw_webhook \<Rightarrow> bool" where
  "same_event q w \<longleftrightarrow> rw_vendor w = dl_vendor q \<and> dl_external_event_id q \<noteq> None \<and>
                   rw_external_event_id w = dl_external_event_id q"

definition new_webhook :: "delivery \<Rightarrow> nat \<Rightarrow> raw_webhook" where
  "new_webhook q uid =
     \<lparr> rw_id = uid, rw_vendor = dl_vendor q, rw_external_event_id = dl_external_event_id q,
       rw_idempotency_key = dl_idempotency_key q, rw_raw_payload = dl_raw_payload q,
       rw_processing_status = RECEIVED, rw_retry_count = 0, rw_error_message = [],
       rw_received_at = dl_received_at q \<rparr>"

text \<open>
  SELECT by the unique key; a parameter that no text column could hold is refused.  INSERT of the new
  row: PostgreSQL first checks that the columns can hold the values, then
  \<open>uq_vendor_idempotency_key\<close> and \<open>uq_vendor_external_event\<close>.
\<close>

definition select_webhook :: "delivery \<Rightarrow> raw_webhook list \<Rightarrow> raw_webhook option result" where
  "select_webhook q ws =
     (if storable_text (dl_vendor q) \<and> storable_text (dl_idempotency_key q)
      then Inr (first_row (same_key q) ws)
      else Inl (DataError ''PostgreSQL text fields cannot contain NUL (0x00) bytes''))"

definition insert_webhook :: "delivery \<Rightarrow> raw_webhook list \<Rightarrow> (raw_webhook \<times> raw_webhook list) result" where
  "insert_webhook q ws =
     (let w = new_webhook q (fresh_key (map rw_id ws)) in
      if \<not> webhook_columns w then Inl too_long
      else if \<exists>w \<in> set ws. same_key q w \<or> same_event q w then Inl IntegrityError
      else Inr (w, ws @ [w]))"

text \<open>
  \<open>get_or_create\<close> itself looks the row up once more when its INSERT violated a constraint, and raises
  when it still finds none.
\<close>

definition get_or_create ::
  "delivery \<Rightarrow> raw_webhook list \<Rightarrow> raw_webhook list \<Rightarrow> ((raw_webhook \<times> bool) \<times> raw_webhook list) result" where
  "get_or_create q seen ws =
     and_then (select_webhook q seen) (\<lambda>found.
       case found of
         Some w \<Rightarrow> Inr ((w, False), ws)
       | None \<Rightarrow>
           (case insert_webhook q ws of
              Inr (w, ws') \<Rightarrow> Inr ((w, True), ws')
            | Inl e \<Rightarrow>
                if e = IntegrityError then
                  (case first_row (same_key q) ws of
                     Some w \<Rightarrow> Inr ((w, False), ws)
                   | None \<Rightarrow> Inl e)
                else Inl e))"

definition create_or_get_racing ::
  "delivery \<Rightarrow> raw_webhook list \<Rightarrow> raw_webhook list \<Rightarrow> ((raw_webhook \<times> bool) \<times> raw_webhook list) result" where
  "create_or_get_racing q seen ws =
     (case get_or_create q seen ws of
        Inr r \<Rightarrow> Inr r
      | Inl e \<Rightarrow>
          if e = IntegrityError then
            (case first_row (same_key q) ws of
               Some w \<Rightarrow> Inr ((w, False), ws)
             | None \<Rightarrow>
                 if (case dl_external_event_id q of None \<Rightarrow> False | Some ext \<Rightarrow> ext \<noteq> []) then
                   (case first_row (same_event q) ws of
                      Some w \<Rightarrow> Inr ((w, False), ws)
                    | None \<Rightarrow> Inl e)
                 else Inl e)
          else Inl e)"

definition create_or_get ::
  "delivery \<Rightarrow> raw_webhook list \<Rightarrow> ((raw_webhook \<times> bool) \<times> raw_webhook list) result" where
  "create_or_get q ws = create_or_get_racing q ws ws"

definition get_by_id :: "nat \<Rightarrow> raw_webhook list \<Rightarrow> raw_webhook result" where
  "get_by_id wid ws =
     (case first_row (\<lambda>w. rw_id w = wid) ws of
        Some w \<Rightarrow> Inr w
      | None \<Rightarrow> Inl (OtherException ''RawWebhook matching query does not exist.''))"

section \<open>The contract of an idempotent store\<close>

text \<open>
  What ingestion relies on: a request that matches a stored row returns such a row and changes
  nothing, any other request adds exactly one row, and that row matches it.
\<close>

locale idempotent_store =
  fixes submit :: "'q \<Rightarrow> 'db \<Rightarrow> (('row \<times> bool) \<times> 'db) result"
    and rows :: "'db \<Rightarrow> 'row list"
    and same :: "'q \<Rightarrow> 'row \<Rightarrow> bool"
    and inv :: "'db \<Rightarrow> bool"
    and ok :: "'q \<Rightarrow> bool"
  assumes submit_hit: "inv db \<Longrightarrow> ok q \<Longrightarrow> r \<in> set (rows db) \<Longrightarrow> same q r \<Longrightarrow>
      \<exists>r' \<in> set (rows db). same q r' \<and> submit q db = Inr ((r', False), db)"
    and submit_miss: "inv db \<Longrightarrow> ok q \<Longrightarrow> \<forall>r \<in> set (rows db). \<not> same q r \<Longrightarrow>
      \<exists>r db'. submit q db = Inr ((r, True), db') \<and> rows db' = rows db @ [r] \<and> same q r \<and> inv db'"
begin

lemma submit_cases:
  assumes "inv db" "ok q"
  obtains r where "r \<in> set (rows db)" "same q r" "submit q db = Inr ((r, False), db)"
        | r db' where "\<forall>r \<in> set (rows db). \<not> same q r" "submit q db = Inr ((r, True), db')"
            "rows db' = rows db @ [r]" "same q r" "inv db'"
  using submit_hit [OF assms] submit_miss [OF assms] by blast

lemma submit_total:
  assumes "inv db" "ok q"
  shows "\<exists>r c db'. submit q db = Inr ((r, c), db') \<and> inv db' \<and> same q r \<and> r \<in> set (rows db') \<and>
           rows db' = rows db @ (if c then [r] else [])"
  using assms(1) by (cases rule: submit_cases [OF assms]) auto

lemma redelivery:
  assumes "inv db" "ok q" "submit q db = Inr ((r, c), db')"
  shows "submit q db' = Inr ((r, False), db')"
  using assms(1,2)
proof (cases rule: submit_cases)
  case (1 r)
  then show ?thesis using assms(3) by simp
next
  case (2 r' db'')
  then have eq: "r' = r" "db'' = db'" using assms(3) by auto
  obtain s where "s \<in> set (rows db')" "same q s" "submit q db' = Inr ((s, False), db')"
    using submit_hit [of db' q r] 2 eq assms(2) by auto
  then show ?thesis using 2 eq by auto
qed

lemma run_total:
  assumes "inv db" "\<forall>q \<in> set qs. ok q"
  shows "\<exists>out db' new. run_all submit qs db = Inr (out, db') \<and> inv db' \<and>
           rows db' = rows db @ new \<and> new = map fst (filter snd out) \<and> length out = length qs"
  using assms
proof (induction qs arbitrary: db)
  case (Cons q qs)
  obtain r c db1 where 1: "submit q db = Inr ((r, c), db1)" "inv db1"
      "rows db1 = rows db @ (if c then [r] else [])"
    using submit_total [of db q] Cons.prems by auto
  obtain out db' where "run_all submit qs db1 = Inr (out, db')" "inv db'"
      "rows db' = rows db1 @ map fst (filter snd out)" "length out = length qs"
    using Cons.IH [OF 1(2)] Cons.prems by auto
  then show ?case using 1 by auto
qed simp

lemma run_remembers:
  assumes "inv db" "\<forall>q \<in> set qs. ok q" "run_all submit qs db = Inr (out, db')" "q \<in> set qs"
  shows "\<exists>r \<in> set (rows db'). same q r"
  using assms
proof (induction qs arbitrary: db out)
  case (Cons p qs)
  obtain r c db1 where 1: "submit p db = Inr ((r, c), db1)" "inv db1" "same p r" "r \<in> set (rows db1)"
    using submit_total [of db p] Cons.prems by auto
  obtain rest where rest: "run_all submit qs db1 = Inr (rest, db')"
    using Cons.prems 1 by auto
  obtain new where "rows db' = rows db1 @ new"
    using run_total [OF 1(2), of qs] Cons.prems(2) rest by auto
  then show ?case using Cons.IH [OF 1(2) _ rest] Cons.prems 1 by auto
qed simp

lemma run_redelivery:
  assumes "inv db" "\<forall>q \<in> set qs. ok q" "run_all submit qs db = Inr (out, db')" "q \<in> set qs"
  shows "\<exists>r \<in> set (rows db'). submit q db' = Inr ((r, False), db')"
proof -
  obtain r where "r \<in> set (rows db')" "same q r" using run_remembers [OF assms] by blast
  moreover have "inv db'" using run_total [OF assms(1,2)] assms(3) by auto
  ultimately show ?thesis using submit_hit assms(2,4) by blast
qed

end

section \<open>The webhook table is one\<close>

lemma same_key_unique:
  "webhook_constraints ws \<Longrightarrow> w \<in> set ws \<Longrightarrow> w' \<in> set ws \<Longrightarrow> same_key q w \<Longrightarrow> same_key q w' \<Longrightarrow> w = w'"
  by (auto simp: webhook_constraints_def same_key_def distinct_map inj_on_def)

definition storable_delivery :: "delivery \<Rightarrow> bool" where
  "storable_delivery q \<longleftrightarrow> webhook_columns (new_webhook q 0)"

definition delivery_ok :: "delivery \<Rightarrow> bool" where
  "delivery_ok q \<longleftrightarrow> dl_external_event_id q \<noteq> Some [] \<and> storable_delivery q"

lemma storable_new_webhook [simp]: "webhook_columns (new_webhook q uid) = storable_delivery q"
  by (simp add: storable_delivery_def webhook_columns_def new_webhook_def)

lemma select_storable [simp]: "storable_delivery q \<Longrightarrow> select_webhook q ws = Inr (first_row (same_key q) ws)"
  by (simp add: select_webhook_def storable_delivery_def webhook_columns_def new_webhook_def varchar_def)

lemma select_Inr: "select_webhook q ws = Inr found \<Longrightarrow> found = first_row (same_key q) ws"
  by (simp add: select_webhook_def split: if_splits)

lemma new_webhook_same: "same_key q (new_webhook q uid)"
  by (simp add: same_key_def new_webhook_def)

lemma insert_keeps_constraints:
  assumes "webhook_constraints ws" "insert_webhook q ws = Inr (w, ws')"
  shows "webhook_constraints ws'"
proof -
  have fresh: "\<forall>w \<in> set ws. \<not> same_key q w \<and> \<not> same_event q w"
    and w: "w = new_webhook q (fresh_key (map rw_id ws))" "ws' = ws @ [w]"
    using assms(2) by (auto simp: insert_webhook_def Let_def split: if_splits)
  have "fresh_key (map rw_id ws) \<notin> rw_id ` set ws"
    using fresh_key_notin [of "map rw_id ws"] by simp
  then show ?thesis using assms(1) fresh
    by (auto simp: w webhook_constraints_def new_webhook_def same_key_def same_event_def)
qed

lemma create_or_get_hit:
  assumes "w \<in> set ws" "same_key q w \<or> same_event q w" and ok: "delivery_ok q"
  shows "\<exists>w' \<in> set ws. (same_key q w' \<or> same_event q w') \<and> create_or_get q ws = Inr ((w', False), ws)"
proof (cases "first_row (same_key q) ws")
  case (Some w')
  then show ?thesis using ok
    by (auto simp: delivery_ok_def create_or_get_def create_or_get_racing_def get_or_create_def dest: first_row_Some)
next
  case None
  then have "same_event q w" using assms(1,2) by (auto simp: first_row_None)
  then obtain ext where ext: "dl_external_event_id q = Some ext" "ext \<noteq> []"
    using ok by (auto simp: same_event_def delivery_ok_def)
  obtain w' where w': "first_row (same_event q) ws = Some w'"
    using assms(1) \<open>same_event q w\<close> by (rule first_row_obtain)
  have "insert_webhook q ws = Inl IntegrityError"
    using assms(1) \<open>same_event q w\<close> ok by (auto simp: insert_webhook_def Let_def delivery_ok_def)
  then have "create_or_get q ws = Inr ((w', False), ws)" using None ext w' ok
    by (simp add: delivery_ok_def create_or_get_def create_or_get_racing_def get_or_create_def)
  then show ?thesis using w' by (auto dest: first_row_Some)
qed

lemma create_or_get_miss:
  assumes "webhook_constraints ws" "\<forall>w \<in> set ws. \<not> (same_key q w \<or> same_event q w)"
    and ok: "storable_delivery q"
  shows "\<exists>w ws'. create_or_get q ws = Inr ((w, True), ws') \<and> ws' = ws @ [w] \<and>
           (same_key q w \<or> same_event q w) \<and> webhook_constraints ws'"
proof -
  let ?w = "new_webhook q (fresh_key (map rw_id ws))"
  have ins: "insert_webhook q ws = Inr (?w, ws @ [?w])"
    using assms(2) ok by (auto simp: insert_webhook_def Let_def)
  have "first_row (same_key q) ws = None" using assms(2) by (auto simp: first_row_None)
  then have "create_or_get q ws = Inr ((?w, True), ws @ [?w])" using ok
    by (simp add: create_or_get_def create_or_get_racing_def get_or_create_def ins)
  then show ?thesis using insert_keeps_constraints [OF assms(1) ins] new_webhook_same by blast
qed

interpretation rw: idempotent_store create_or_get "\<lambda>ws. ws" "\<lambda>q w. same_key q w \<or> same_event q w"
  webhook_constraints delivery_ok
  by unfold_locales (use create_or_get_hit create_or_get_miss in \<open>auto simp: delivery_ok_def\<close>)

text \<open>A redelivery, with the same idempotency key or the same vendor event id as anything in
  a served run of deliveries, is answered with a stored webhook, creates nothing and raises
  nothing.\<close>

theorem redelivery_is_idempotent:
  assumes "webhook_constraints ws" "\<forall>q \<in> set qs. delivery_ok q"
    and "run_all create_or_get qs ws = Inr (out, ws')" "q \<in> set qs"
  shows "\<exists>w \<in> set ws'. create_or_get q ws' = Inr ((w, False), ws')"
  using assms by (rule rw.run_redelivery)

text \<open>Serving any run of deliveries never raises, keeps both unique constraints, and adds
  exactly the rows it reports as created.\<close>

theorem deliveries_keep_constraints:
  assumes "webhook_constraints ws" "\<forall>q \<in> set qs. delivery_ok q"
  shows "\<exists>out. run_all create_or_get qs ws = Inr (out, ws @ map fst (filter snd out)) \<and>
           webhook_constraints (ws @ map fst (filter snd out)) \<and> length out = length qs"
  using rw.run_total [OF assms] by auto

text \<open>C14. A race is linearised at the insert: for a delivery the columns can hold, whatever other workers committed between the
  SELECT and the INSERT, the call answers as if it had run alone on the later table.\<close>

theorem racing_is_linearizable:
  assumes "webhook_constraints ws" "set seen \<subseteq> set ws" "storable_delivery q"
  shows "create_or_get_racing q seen ws = create_or_get q ws"
proof (cases "first_row (same_key q) seen")
  case (Some w)
  then have w: "w \<in> set ws" "same_key q w" using assms(2) by (auto dest: first_row_Some)
  then obtain w' where w': "first_row (same_key q) ws = Some w'"
    by (rule first_row_obtain)
  then have "w' = w" using same_key_unique [OF assms(1)] w by (auto dest: first_row_Some)
  then show ?thesis using Some w' assms(3)
    by (simp add: create_or_get_def create_or_get_racing_def get_or_create_def)
next
  case None
  show ?thesis
  proof (cases "first_row (same_key q) ws")
    case None': None
    then show ?thesis using None assms(3)
      by (simp add: create_or_get_def create_or_get_racing_def get_or_create_def)
  next
    case (Some w)
    then have "\<exists>w \<in> set ws. same_key q w" by (auto dest: first_row_Some)
    then have "insert_webhook q ws = Inl IntegrityError" using assms(3) by (auto simp: insert_webhook_def Let_def)
    then show ?thesis using None Some assms(3)
      by (simp add: create_or_get_def create_or_get_racing_def get_or_create_def)
  qed
qed

text \<open>What cannot be stored never is: it raises \<open>DataError\<close> on every attempt, unless its key is that of a
  stored webhook.\<close>

lemma unstorable_delivery:
  assumes "\<not> storable_delivery q"
  shows "(\<exists>w \<in> set ws. same_key q w \<and> create_or_get q ws = Inr ((w, False), ws)) \<or>
    (\<exists>m. create_or_get q ws = Inl (DataError m))"
  using assms
  by (auto simp: create_or_get_def create_or_get_racing_def get_or_create_def select_webhook_def insert_webhook_def
      Let_def too_long_def dest: first_row_Some split: option.splits)

text \<open>When a delivery is answered with a stored webhook.\<close>

lemma stored_match:
  assumes "create_or_get q ws = Inr ((w, False), ws')"
  shows "ws' = ws \<and> (first_row (same_key q) ws = Some w \<or>
    (first_row (same_key q) ws = None \<and> dl_external_event_id q \<notin> {None, Some []} \<and> first_row (same_event q) ws = Some w))"
  using assms
  by (auto simp: create_or_get_def create_or_get_racing_def get_or_create_def select_webhook_def
      split: option.splits if_splits sum.splits)

lemma match_stored:
  assumes "storable_delivery q"
    and "first_row (same_key q) ws = Some w \<or>
      (first_row (same_key q) ws = None \<and> dl_external_event_id q \<notin> {None, Some []} \<and> first_row (same_event q) ws = Some w)"
  shows "create_or_get q ws = Inr ((w, False), ws)"
  using assms(2)
proof (elim disjE conjE)
  assume n: "first_row (same_key q) ws = None" "first_row (same_event q) ws = Some w" "dl_external_event_id q \<notin> {None, Some []}"
  then have "insert_webhook q ws = Inl IntegrityError"
    using assms(1) by (auto simp: insert_webhook_def Let_def dest: first_row_Some)
  then show ?thesis using n assms(1)
    by (auto simp: create_or_get_def create_or_get_racing_def get_or_create_def split: option.splits)
qed (use assms(1) in \<open>simp add: create_or_get_def create_or_get_racing_def get_or_create_def\<close>)

text \<open>A vendor that redelivers one event under two idempotency keys.\<close>

definition first_try :: delivery where
  "first_try = \<lparr> dl_vendor = ''acme'', dl_external_event_id = Some ''e1'', dl_idempotency_key = ''k1'',
                 dl_raw_payload = JObj [(''id'', JStr ''e1'')], dl_received_at = Instant 5 \<rparr>"

definition second_try :: delivery where
  "second_try = first_try \<lparr> dl_idempotency_key := ''k2'' \<rparr>"

lemma tries_ok: "delivery_ok first_try" "delivery_ok second_try"
  by (simp_all add: delivery_ok_def first_try_def second_try_def storable_delivery_def webhook_columns_def
      new_webhook_def varchar_def)

lemma no_webhooks_ok: "webhook_constraints []"
  by (simp add: webhook_constraints_def)

lemma two_tries:
  "run_all create_or_get [first_try, second_try] [] =
     Inr ([(new_webhook first_try 1, True), (new_webhook first_try 1, False)], [new_webhook first_try 1])"
  by code_simp

theorem redelivery_is_idempotent_witness:
  "\<exists>w \<in> {new_webhook first_try 1}.
     create_or_get second_try [new_webhook first_try 1] = Inr ((w, False), [new_webhook first_try 1])"
  using redelivery_is_idempotent [OF no_webhooks_ok _ two_tries, of second_try] tries_ok by simp

theorem deliveries_keep_constraints_witness:
  "\<exists>out. run_all create_or_get [first_try, second_try] [] = Inr (out, map fst (filter snd out)) \<and>
         webhook_constraints (map fst (filter snd out)) \<and> length out = 2"
  using deliveries_keep_constraints [of "[]" "[first_try, second_try]"] tries_ok no_webhooks_ok
  by (simp add: numeral_2_eq_2)

theorem racing_is_linearizable_witness:
  "create_or_get_racing second_try [] [new_webhook first_try 1] =
     create_or_get second_try [new_webhook first_try 1]"
  by (rule racing_is_linearizable)
     (use tries_ok in \<open>simp_all add: webhook_constraints_def delivery_ok_def\<close>)

end
