(* ===== verification/Tasks.thy ===== *)
theory Tasks
  imports Backends Raw_Webhooks
begin

text \<open>
  \<open>apps/normalization/tasks.py\<close>: one run of the worker on one webhook, in the two parts other
  workers can come between: claiming the row, and the work on the row that was read before the
  claim.  Celery is not part of the repository; whether \<open>self.retry\<close> reschedules the task
  (raising \<open>Retry\<close>) or raises because the attempts are used up is the parameter \<open>may_retry\<close>, a
  function of \<open>max_retries\<close> and the number of retries so far.
\<close>

section \<open>Claiming\<close>

datatype claim =
    NotFound
  | AlreadyNormalized
  | AlreadyProcessing
  | Claimed raw_webhook  \<comment> \<open>the row as it was read before the lock\<close>

definition set_status :: "nat \<Rightarrow> processing_status \<Rightarrow> db \<Rightarrow> db" where
  "set_status wid st d =
     d \<lparr> db_webhooks := update_row rw_id wid (\<lambda>w. w \<lparr> rw_processing_status := st \<rparr>) (db_webhooks d) \<rparr>"

definition webhook_by_id :: "nat \<Rightarrow> db \<Rightarrow> raw_webhook option" where
  "webhook_by_id wid d = first_row (\<lambda>w. rw_id w = wid) (db_webhooks d)"

text \<open>
  The unlocked read sees \<open>seen\<close>, the locked one \<open>d\<close>.  (A row deleted in between would raise; no
  code deletes webhooks.)
\<close>

definition claim_webhook :: "nat \<Rightarrow> db \<Rightarrow> db \<Rightarrow> claim \<times> db" where
  "claim_webhook wid seen d =
     (case webhook_by_id wid seen of
        None \<Rightarrow> (NotFound, d)
      | Some webhook \<Rightarrow>
          if rw_processing_status webhook = NORMALIZED then (AlreadyNormalized, d)
          else (case webhook_by_id wid d of
                  None \<Rightarrow> (NotFound, d)
                | Some locked \<Rightarrow>
                    if rw_processing_status locked = PROCESSING then (AlreadyProcessing, d)
                    else (Claimed webhook, set_status wid PROCESSING d)))"

section \<open>Working\<close>

definition MAX_RETRIES :: nat where
  "MAX_RETRIES = 5"

definition retry_delay :: "nat \<Rightarrow> nat" where
  "retry_delay attempt = min (2 ^ attempt) 300"

datatype outcome =
    Skipped
  | Processed gate_outcome
  | Retrying nat  \<comment> \<open>rescheduled after so many seconds\<close>
  | DeadLettered
  | Refused  \<comment> \<open>a normalisation error that a retry would not help\<close>
  | Crashed exn  \<comment> \<open>recorded on the webhook and raised again\<close>

text \<open>\<open>webhook.save(update_fields=\<dots>)\<close> after a failure.\<close>

definition record_failure :: "nat \<Rightarrow> string \<Rightarrow> db \<Rightarrow> db" where
  "record_failure wid message d =
     d \<lparr> db_webhooks := update_row rw_id wid
           (\<lambda>w. w \<lparr> rw_processing_status := FAILED, rw_error_message := message \<rparr>) (db_webhooks d) \<rparr>"

definition record_retry :: "raw_webhook \<Rightarrow> string \<Rightarrow> db \<Rightarrow> db" where
  "record_retry webhook message d =
     d \<lparr> db_webhooks := update_row rw_id (rw_id webhook)
           (\<lambda>w. w \<lparr> rw_retry_count := rw_retry_count webhook + 1,
                    rw_processing_status := FAILED, rw_error_message := message \<rparr>) (db_webhooks d) \<rparr>"

definition record_dead_letter :: "nat \<Rightarrow> string \<Rightarrow> db \<Rightarrow> db" where
  "record_dead_letter wid message d =
     d \<lparr> db_webhooks := update_row rw_id wid
           (\<lambda>w. w \<lparr> rw_processing_status := DEAD_LETTER, rw_error_message := message \<rparr>) (db_webhooks d) \<rparr>"

fun handle_error ::
  "(nat \<Rightarrow> nat \<Rightarrow> bool) \<Rightarrow> nat \<Rightarrow> raw_webhook \<Rightarrow> exn \<Rightarrow> db \<Rightarrow> outcome \<times> db" where
  "handle_error may_retry attempt webhook (RetryableNormalizationError m) d =
     (let d' = record_retry webhook m d in
      if may_retry MAX_RETRIES attempt then (Retrying (retry_delay attempt), d')
      else (DeadLettered, record_dead_letter (rw_id webhook) (''Max retries exceeded: '' @ m) d'))"
| "handle_error may_retry attempt webhook (NormalizationError m) d =
     (Refused, record_failure (rw_id webhook) m d)"
| "handle_error may_retry attempt webhook e d =
     (Crashed e, record_failure (rw_id webhook) (''Unexpected worker failure: '' @ exn_str e) d)"

type_synonym world = "db \<times> profile_cache"

definition work_on ::
  "settings \<Rightarrow> profile_state normalizer result \<Rightarrow> (nat \<Rightarrow> nat \<Rightarrow> bool) \<Rightarrow> nat \<Rightarrow> instant \<Rightarrow> raw_webhook \<Rightarrow>
     world \<Rightarrow> outcome \<times> world" where
  "work_on cfg factory may_retry attempt now webhook = (\<lambda>(d, c).
     case factory of
       Inl e \<Rightarrow> (let (out, d') = handle_error may_retry attempt webhook e d in (out, d', c))
     | Inr run \<Rightarrow>
         (let (answer, (profiles, c')) =
                run (rw_raw_payload webhook) (rw_vendor webhook) (db_profiles d, c);
              d' = d \<lparr> db_profiles := profiles \<rparr>
          in case answer of
               Inl e \<Rightarrow> (let (out, d'') = handle_error may_retry attempt webhook e d' in (out, d'', c'))
             | Inr response \<Rightarrow>
                 (case create_for_webhook (rw_id webhook) (resp_normalized response)
                         (resp_llm_model response) (resp_prompt_version response) now d' of
                    Inl e \<Rightarrow> (let (out, d'') = handle_error may_retry attempt webhook e d' in (out, d'', c'))
                  | Inr (event, d1) \<Rightarrow>
                      (let (gate, d2) = apply_confidence_gate cfg event now d1 in (Processed gate, d2, c')))))"

definition process_raw_webhook ::
  "settings \<Rightarrow> profile_state normalizer result \<Rightarrow> (nat \<Rightarrow> nat \<Rightarrow> bool) \<Rightarrow> nat \<Rightarrow> instant \<Rightarrow> nat \<Rightarrow>
     world \<Rightarrow> outcome \<times> world" where
  "process_raw_webhook cfg factory may_retry attempt now wid = (\<lambda>(d, c).
     case claim_webhook wid d d of
       (Claimed webhook, d') \<Rightarrow> work_on cfg factory may_retry attempt now webhook (d', c)
     | (_, d') \<Rightarrow> (Skipped, d', c))"

text \<open>
  The retry ladder: the task runs again after each \<open>Retrying\<close>, with the backend of that time.
  The list holds one backend and one clock reading per run.
\<close>

fun run_ladder ::
  "settings \<Rightarrow> (nat \<Rightarrow> nat \<Rightarrow> bool) \<Rightarrow> nat \<Rightarrow> nat \<Rightarrow> (profile_state normalizer result \<times> instant) list \<Rightarrow>
     world \<Rightarrow> outcome list \<times> world" where
  "run_ladder cfg may_retry attempt wid [] w = ([], w)"
| "run_ladder cfg may_retry attempt wid ((factory, now) # later) w =
     (let (out, w') = process_raw_webhook cfg factory may_retry attempt now wid w in
      case out of
        Retrying _ \<Rightarrow>
          (let (outs, w'') = run_ladder cfg may_retry (attempt + 1) wid later w' in (out # outs, w''))
      | _ \<Rightarrow> ([out], w'))"

text \<open>Celery's documented rule: a task is rescheduled while fewer retries than the maximum were made.\<close>

definition celery_retries :: "(nat \<Rightarrow> nat \<Rightarrow> bool) \<Rightarrow> bool" where
  "celery_retries may_retry \<longleftrightarrow> (\<forall>limit attempt. may_retry limit attempt \<longleftrightarrow> attempt < limit)"

section \<open>What a run does to its webhook\<close>

lemma webhook_by_id_Some: "webhook_by_id wid d = Some w \<Longrightarrow> rw_id w = wid \<and> w \<in> set (db_webhooks d)"
  by (auto simp: webhook_by_id_def dest: first_row_Some)

lemma webhook_update:
  "(\<And>w. rw_id (f w) = rw_id w) \<Longrightarrow>
     webhook_by_id wid (d \<lparr> db_webhooks := update_row rw_id wid' f (db_webhooks d) \<rparr>) =
       (if wid = wid' then map_option f (webhook_by_id wid d) else webhook_by_id wid d)"
  by (auto simp: webhook_by_id_def first_row_update)

lemma webhook_of_other_tables [simp]:
  "webhook_by_id wid (d \<lparr> db_events := es \<rparr>) = webhook_by_id wid d"
  "webhook_by_id wid (d \<lparr> db_states := ss \<rparr>) = webhook_by_id wid d"
  "webhook_by_id wid (d \<lparr> db_profiles := ps \<rparr>) = webhook_by_id wid d"
  by (simp_all add: webhook_by_id_def)

lemma webhook_after [simp]:
  "webhook_by_id wid (set_status wid' st d) =
     (if wid = wid' then map_option (\<lambda>w. w \<lparr> rw_processing_status := st \<rparr>) (webhook_by_id wid d)
      else webhook_by_id wid d)"
  "webhook_by_id wid (record_failure wid' m d) =
     (if wid = wid' then map_option (\<lambda>w. w \<lparr> rw_processing_status := FAILED, rw_error_message := m \<rparr>)
        (webhook_by_id wid d) else webhook_by_id wid d)"
  "webhook_by_id wid (record_dead_letter wid' m d) =
     (if wid = wid' then map_option (\<lambda>w. w \<lparr> rw_processing_status := DEAD_LETTER, rw_error_message := m \<rparr>)
        (webhook_by_id wid d) else webhook_by_id wid d)"
  "webhook_by_id wid (record_retry webhook m d) =
     (if wid = rw_id webhook
      then map_option (\<lambda>w. w \<lparr> rw_retry_count := rw_retry_count webhook + 1,
             rw_processing_status := FAILED, rw_error_message := m \<rparr>) (webhook_by_id wid d)
      else webhook_by_id wid d)"
  by (simp_all add: set_status_def record_failure_def record_dead_letter_def record_retry_def webhook_update)

lemma webhook_after_create:
  "webhook_by_id wid' (snd (update_or_create_event wid r m v now d)) =
     (if wid' = wid then map_option (\<lambda>w. w \<lparr> rw_processing_status := NORMALIZED, rw_error_message := [] \<rparr>)
        (webhook_by_id wid' d) else webhook_by_id wid' d)"
  by (simp add: update_or_create_event_def Let_def webhook_by_id_def first_row_update split: prod.split)

lemma webhook_after_gate [simp]:
  "webhook_by_id wid (snd (apply_confidence_gate cfg e now d)) = webhook_by_id wid d"
  by (simp add: apply_confidence_gate_def Let_def)

text \<open>What a run leaves in the row of its webhook, by outcome.\<close>

fun row_after :: "outcome \<Rightarrow> raw_webhook \<Rightarrow> raw_webhook \<Rightarrow> bool" where
  "row_after Skipped w w' \<longleftrightarrow> w' = w"
| "row_after (Processed g) w w' \<longleftrightarrow>
     w' = w \<lparr> rw_processing_status := NORMALIZED, rw_error_message := [] \<rparr>"
| "row_after (Retrying delay) w w' \<longleftrightarrow>
     (\<exists>m. w' = w \<lparr> rw_processing_status := FAILED, rw_error_message := m,
                    rw_retry_count := rw_retry_count w + 1 \<rparr>)"
| "row_after DeadLettered w w' \<longleftrightarrow>
     (\<exists>m. w' = w \<lparr> rw_processing_status := DEAD_LETTER,
                    rw_error_message := ''Max retries exceeded: '' @ m,
                    rw_retry_count := rw_retry_count w + 1 \<rparr>)"
| "row_after Refused w w' \<longleftrightarrow>
     (\<exists>m. w' = w \<lparr> rw_processing_status := FAILED, rw_error_message := m \<rparr>)"
| "row_after (Crashed e) w w' \<longleftrightarrow>
     w' = w \<lparr> rw_processing_status := FAILED,
              rw_error_message := ''Unexpected worker failure: '' @ exn_str e \<rparr>"

definition only_webhooks :: "db \<Rightarrow> db \<Rightarrow> bool" where
  "only_webhooks d d' \<longleftrightarrow> db_events d' = db_events d \<and> db_states d' = db_states d"

lemma only_webhooks_simps [simp]:
  "only_webhooks d (set_status wid st d')  \<longleftrightarrow> only_webhooks d d'"
  "only_webhooks d (record_failure wid m d') \<longleftrightarrow> only_webhooks d d'"
  "only_webhooks d (record_retry w m d') \<longleftrightarrow> only_webhooks d d'"
  "only_webhooks d (record_dead_letter wid m d') \<longleftrightarrow> only_webhooks d d'"
  "only_webhooks d (d' \<lparr> db_profiles := ps \<rparr>) \<longleftrightarrow> only_webhooks d d'"
  "only_webhooks d d"
  by (simp_all add: only_webhooks_def set_status_def record_failure_def record_retry_def
      record_dead_letter_def)

text \<open>The ways a failed run ends, and the row each leaves.\<close>

lemma handle_error_cases:
  assumes "handle_error may_retry attempt w e d = (out, d')"
  obtains (retry) m where "e = RetryableNormalizationError m" "may_retry MAX_RETRIES attempt"
      "out = Retrying (retry_delay attempt)" "d' = record_retry w m d"
    | (dead) m where "e = RetryableNormalizationError m" "\<not> may_retry MAX_RETRIES attempt"
      "out = DeadLettered"
      "d' = record_dead_letter (rw_id w) (''Max retries exceeded: '' @ m) (record_retry w m d)"
    | (refused) m where "e = NormalizationError m" "out = Refused" "d' = record_failure (rw_id w) m d"
    | (crashed) "out = Crashed e"
      "d' = record_failure (rw_id w) (''Unexpected worker failure: '' @ exn_str e) d"
  using assms by (cases e) (auto simp: Let_def split: if_splits)

lemma handle_error_row:
  assumes "handle_error may_retry attempt w e d = (out, d')"
    and "webhook_by_id (rw_id w) d = Some (w \<lparr> rw_processing_status := PROCESSING \<rparr>)"
  shows "\<exists>w'. webhook_by_id (rw_id w) d' = Some w' \<and> row_after out w w'"
  using assms(1)
proof (cases rule: handle_error_cases)
  case (dead m)
  then show ?thesis using assms(2) by (intro exI conjI) (simp, simp, rule exI [of _ m], cases w, simp)
next
  case (retry m)
  then show ?thesis using assms(2) by (intro exI conjI) (simp, simp, rule exI [of _ m], cases w, simp)
qed (use assms(2) in auto)

lemma handle_error_others:
  assumes "handle_error may_retry attempt w e d = (out, d')"
  shows "only_webhooks d d' \<and> (wid \<noteq> rw_id w \<longrightarrow> webhook_by_id wid d' = webhook_by_id wid d)"
  using assms by (cases rule: handle_error_cases) auto

text \<open>A run from a claimed row: it fails as above, or it records and gates a reading.\<close>

lemma work_on_cases:
  assumes "work_on cfg factory may_retry attempt now w (d, c) = (out, d', c')"
  obtains (failed) e ps where
      "handle_error may_retry attempt w e (d \<lparr> db_profiles := ps \<rparr>) = (out, d')"
    | (processed) run resp ps event d1 gate where "factory = Inr run"
      "run (rw_raw_payload w) (rw_vendor w) (db_profiles d, c) = (Inr resp, ps, c')"
      "create_for_webhook (rw_id w) (resp_normalized resp) (resp_llm_model resp)
         (resp_prompt_version resp) now (d \<lparr> db_profiles := ps \<rparr>) = Inr (event, d1)"
      "apply_confidence_gate cfg event now d1 = (gate, d')" "out = Processed gate"
proof (cases factory)
  case (Inl e)
  have "d \<lparr> db_profiles := db_profiles d \<rparr> = d" by simp
  then show ?thesis using assms Inl failed [of e "db_profiles d"]
    by (auto simp: work_on_def split: prod.splits)
next
  case (Inr run)
  obtain ans ps c1 where r: "run (rw_raw_payload w) (rw_vendor w) (db_profiles d, c) = (ans, ps, c1)"
    by (cases "run (rw_raw_payload w) (rw_vendor w) (db_profiles d, c)")
  show ?thesis
  proof (cases ans)
    case (Inl e)
    then show ?thesis using assms Inr r failed [of e ps]
      by (auto simp: work_on_def split: prod.splits)
  next
    case ans: (Inr resp)
    show ?thesis
    proof (cases "create_for_webhook (rw_id w) (resp_normalized resp) (resp_llm_model resp)
        (resp_prompt_version resp) now (d \<lparr> db_profiles := ps \<rparr>)")
      case (Inl e)
      then show ?thesis using assms \<open>factory = Inr run\<close> r ans failed [of e ps]
        by (auto simp: work_on_def split: prod.splits)
    next
      case (Inr ed)
      then show ?thesis using assms \<open>factory = Inr run\<close> r ans processed
        by (cases ed) (auto simp: work_on_def split: prod.splits)
    qed
  qed
qed

lemma process_cases:
  assumes "process_raw_webhook cfg factory may_retry attempt now wid (d, c) = (out, d', c')"
    and "webhook_by_id wid d = Some w"
  obtains (skipped) "rw_processing_status w \<in> {NORMALIZED, PROCESSING}" "out = Skipped" "d' = d" "c' = c"
    | (worked) "rw_processing_status w \<notin> {NORMALIZED, PROCESSING}"
      "work_on cfg factory may_retry attempt now w (set_status wid PROCESSING d, c) = (out, d', c')"
  using assms by (auto simp: process_raw_webhook_def claim_webhook_def split: if_splits)

lemma claimed_row:
  "webhook_by_id wid d = Some w \<Longrightarrow>
     webhook_by_id wid (set_status wid PROCESSING d) = Some (w \<lparr> rw_processing_status := PROCESSING \<rparr>)"
  by simp

lemma process_row:
  assumes "process_raw_webhook cfg factory may_retry attempt now wid (d, c) = (out, d', c')"
    and "webhook_by_id wid d = Some w"
  shows "(\<exists>w'. webhook_by_id wid d' = Some w' \<and> row_after out w w') \<and>
         (\<forall>other. other \<noteq> wid \<longrightarrow> webhook_by_id other d' = webhook_by_id other d)"
  using assms
proof (cases rule: process_cases)
  case skipped
  then show ?thesis using assms(2) by simp
next
  case worked
  have wid: "rw_id w = wid" using webhook_by_id_Some [OF assms(2)] by simp
  let ?d = "set_status wid PROCESSING d"
  from worked(2) show ?thesis
  proof (cases rule: work_on_cases)
    case (failed e ps)
    have "webhook_by_id (rw_id w) (?d \<lparr> db_profiles := ps \<rparr>) = Some (w \<lparr> rw_processing_status := PROCESSING \<rparr>)"
      using claimed_row [OF assms(2)] wid by simp
    then show ?thesis
      using handle_error_row [OF failed] handle_error_others [OF failed] wid by auto
  next
    case (processed run resp ps event d1 gate)
    note made = processed(3) [unfolded create_Inr, THEN conjunct2]
    have "webhook_by_id x d' = webhook_by_id x d1" for x
      using webhook_after_gate [of x cfg event now d1] processed(4) by simp
    moreover have "webhook_by_id x d1 = (if x = wid
        then map_option (\<lambda>w. w \<lparr> rw_processing_status := NORMALIZED, rw_error_message := [] \<rparr>)
          (webhook_by_id x ?d) else webhook_by_id x ?d)" for x
      using webhook_after_create [of x "rw_id w" "resp_normalized resp" "resp_llm_model resp"
          "resp_prompt_version resp" now "?d \<lparr> db_profiles := ps \<rparr>"] made wid by simp
    ultimately show ?thesis using assms(2) processed(5) by simp
  qed
qed

section \<open>Properties of one run\<close>

text \<open>C22. A run never leaves its webhook in PROCESSING unless another worker has it: afterwards the
  row is as its outcome says (normalised with no error, failed with the message, or dead-lettered),
  the retry count grew by one exactly for a retry or a dead letter, and no other webhook changed.\<close>

theorem run_leaves_no_limbo:
  assumes "process_raw_webhook cfg factory may_retry attempt now wid (d, c) = (out, d', c')"
    and "webhook_by_id wid d = Some w" "rw_processing_status w \<noteq> PROCESSING"
  shows "(\<exists>w'. webhook_by_id wid d' = Some w' \<and> row_after out w w' \<and>
            rw_processing_status w' \<in> {NORMALIZED, FAILED, DEAD_LETTER}) \<and>
         (\<forall>other. other \<noteq> wid \<longrightarrow> webhook_by_id other d' = webhook_by_id other d)"
proof -
  obtain w' where w': "webhook_by_id wid d' = Some w'" "row_after out w w'"
    using process_row [OF assms(1,2)] by blast
  have "rw_processing_status w' \<in> {NORMALIZED, FAILED, DEAD_LETTER}"
  proof (cases out)
    case Skipped
    from assms(1,2) have "rw_processing_status w \<in> {NORMALIZED, PROCESSING}"
    proof (cases rule: process_cases)
      case worked
      from worked(2) show ?thesis
      proof (cases rule: work_on_cases)
        case (failed e ps)
        then show ?thesis using Skipped by (cases rule: handle_error_cases) auto
      qed (use Skipped in simp)
    qed
    then show ?thesis using w' Skipped assms(3) by auto
  qed (use w' in auto)
  then show ?thesis using w' process_row [OF assms(1,2)] by blast
qed

text \<open>A failed run publishes nothing: unless a reading was processed, no event and no entity
  state changes.\<close>

theorem failed_run_publishes_nothing:
  assumes "process_raw_webhook cfg factory may_retry attempt now wid (d, c) = (out, d', c')"
    and "\<forall>g. out \<noteq> Processed g"
  shows "db_events d' = db_events d \<and> db_states d' = db_states d"
proof (cases "webhook_by_id wid d")
  case None
  then show ?thesis using assms(1) by (simp add: process_raw_webhook_def claim_webhook_def)
next
  case (Some w)
  from assms(1) Some have "only_webhooks d d'"
  proof (cases rule: process_cases)
    case worked
    from worked(2) show ?thesis
    proof (cases rule: work_on_cases)
      case (failed e ps)
      have "only_webhooks (set_status wid PROCESSING d \<lparr> db_profiles := ps \<rparr>) d'"
        using handle_error_others [OF failed] by blast
      then show ?thesis by (simp add: only_webhooks_def set_status_def)
    qed (use assms(2) in simp)
  qed simp
  then show ?thesis by (simp add: only_webhooks_def)
qed



text \<open>Running the task again on a webhook that is normalised, or that another worker is
  processing, changes nothing.\<close>

theorem finished_run_is_idempotent:
  assumes "webhook_by_id wid d = Some w" "rw_processing_status w \<in> {NORMALIZED, PROCESSING}"
  shows "process_raw_webhook cfg factory may_retry attempt now wid (d, c) = (Skipped, d, c)"
  using assms by (auto simp: process_raw_webhook_def claim_webhook_def)

section \<open>Properties of the ladder\<close>

text \<open>Only a retryable error reschedules, and only while attempts remain.\<close>

lemma retrying_attempt:
  assumes "process_raw_webhook cfg factory may_retry attempt now wid w = (Retrying delay, w')"
  shows "may_retry MAX_RETRIES attempt \<and> delay = retry_delay attempt"
proof -
  obtain d c where w: "w = (d, c)" by (cases w)
  obtain d' c' where w': "w' = (d', c')" by (cases w')
  obtain webhook d1 where "claim_webhook wid d d = (Claimed webhook, d1)"
      and "work_on cfg factory may_retry attempt now webhook (d1, c) = (Retrying delay, d', c')"
    using assms by (auto simp: w w' process_raw_webhook_def split: claim.splits prod.splits)
  from this(2) show ?thesis
  proof (cases rule: work_on_cases)
    case (failed e ps)
    then show ?thesis by (cases rule: handle_error_cases) auto
  qed simp
qed

lemma ladder_bound:
  assumes "celery_retries may_retry" "run_ladder cfg may_retry attempt wid backends w = (outs, w')"
    and "attempt \<le> MAX_RETRIES"
  shows "length outs + attempt \<le> MAX_RETRIES + 1 \<and>
    (\<forall>i < length outs. \<forall>delay. outs ! i = Retrying delay \<longrightarrow> delay = 2 ^ (attempt + i) \<and> attempt + i < MAX_RETRIES)"
  using assms(2,3)
proof (induction backends arbitrary: attempt w outs)
  case (Cons b later)
  obtain factory now where b: "b = (factory, now)" by (cases b)
  obtain out w1 where p: "process_raw_webhook cfg factory may_retry attempt now wid w = (out, w1)"
    by (cases "process_raw_webhook cfg factory may_retry attempt now wid w")
  show ?case
  proof (cases "\<exists>delay. out = Retrying delay")
    case True
    then obtain delay where out: "out = Retrying delay" by blast
    have lt: "attempt < MAX_RETRIES" "delay = retry_delay attempt"
      using retrying_attempt [OF p [unfolded out]] assms(1) by (auto simp: celery_retries_def)
    have "(2::nat) ^ attempt \<le> 2 ^ 4" using lt by (intro power_increasing) (auto simp: MAX_RETRIES_def)
    then have delay: "delay = 2 ^ attempt" using lt by (simp add: retry_delay_def)
    obtain rest where rest: "run_ladder cfg may_retry (attempt + 1) wid later w1 = (rest, w')" "outs = out # rest"
      using Cons.prems(1) by (auto simp: b p out split: prod.splits)
    note ih = Cons.IH [OF rest(1)]
    have "length rest + (attempt + 1) \<le> MAX_RETRIES + 1" using ih lt by simp
    moreover have "\<forall>i < length rest. \<forall>delay. rest ! i = Retrying delay \<longrightarrow>
        delay = 2 ^ (attempt + 1 + i) \<and> attempt + 1 + i < MAX_RETRIES" using ih lt by simp
    ultimately show ?thesis using rest(2) out delay lt by (auto simp: nth_Cons split: nat.splits)
  next
    case False
    then have "outs = [out]" using Cons.prems(1) by (cases out) (auto simp: b p)
    then show ?thesis using False Cons.prems(2) by auto
  qed
qed simp

text \<open>C24. The retry ladder ends: with Celery's rule a webhook is tried at most six times, whatever
  the backends do, and the delays are 1, 2, 4, 8 and 16 seconds, so the cap of 300 is never met.\<close>

theorem ladder_terminates:
  assumes "celery_retries may_retry" "run_ladder cfg may_retry 0 wid backends w = (outs, w')"
  shows "length outs \<le> 6 \<and>
    (\<forall>i < length outs. \<forall>delay. outs ! i = Retrying delay \<longrightarrow> delay = 2 ^ i \<and> delay \<le> 16)"
proof -
  note b = ladder_bound [OF assms(1,2)]
  have "delay \<le> 16" if "i < MAX_RETRIES" "delay = 2 ^ i" for i delay :: nat
  proof -
    have "(2::nat) ^ i \<le> 2 ^ 4" using that(1) by (intro power_increasing) (auto simp: MAX_RETRIES_def)
    then show ?thesis using that(2) by simp
  qed
  then show ?thesis using b by (auto simp: MAX_RETRIES_def)
qed

definition outage :: "string \<Rightarrow> profile_state normalizer result" where
  "outage m = Inr (\<lambda>payload vendor s. (Inl (RetryableNormalizationError m), s))"

lemma outage_run:
  assumes "celery_retries may_retry" "webhook_by_id wid d = Some w"
    and "rw_processing_status w \<notin> {NORMALIZED, PROCESSING}"
  shows "\<exists>d' w'. process_raw_webhook cfg (outage m) may_retry attempt now wid (d, c) =
      (if attempt < MAX_RETRIES then Retrying (retry_delay attempt) else DeadLettered, d', c) \<and>
    only_webhooks d d' \<and> webhook_by_id wid d' = Some w' \<and>
    rw_retry_count w' = rw_retry_count w + 1 \<and>
    rw_processing_status w' = (if attempt < MAX_RETRIES then FAILED else DEAD_LETTER)"
proof -
  have "rw_id w = wid" using webhook_by_id_Some [OF assms(2)] by simp
  then show ?thesis using assms
    by (auto simp: process_raw_webhook_def claim_webhook_def work_on_def outage_def Let_def celery_retries_def)
qed

lemma outage_ladder:
  assumes "celery_retries may_retry" "webhook_by_id wid d = Some w"
    and "rw_processing_status w \<notin> {NORMALIZED, PROCESSING}"
    and "length clocks = k + 1" "attempt + k = MAX_RETRIES"
  shows "\<exists>d' w'. run_ladder cfg may_retry attempt wid (map (\<lambda>now. (outage m, now)) clocks) (d, c) =
      (map (\<lambda>i. Retrying (retry_delay i)) [attempt ..< MAX_RETRIES] @ [DeadLettered], d', c) \<and>
    only_webhooks d d' \<and> webhook_by_id wid d' = Some w' \<and>
    rw_processing_status w' = DEAD_LETTER \<and> rw_retry_count w' = rw_retry_count w + k + 1"
  using assms(2-5)
proof (induction k arbitrary: attempt d w clocks)
  case 0
  then obtain now where "clocks = [now]" by (auto simp: length_Suc_conv)
  then show ?case using outage_run [OF assms(1) 0(1,2), of cfg m attempt now c] 0(4) by auto
next
  case (Suc k)
  then obtain now later where cl: "clocks = now # later" "length later = k + 1"
    by (auto simp: length_Suc_conv)
  have lt: "attempt < MAX_RETRIES" using Suc.prems by simp
  obtain d1 w1 where 1: "process_raw_webhook cfg (outage m) may_retry attempt now wid (d, c) =
        (Retrying (retry_delay attempt), d1, c)"
      "only_webhooks d d1" "webhook_by_id wid d1 = Some w1" "rw_retry_count w1 = rw_retry_count w + 1"
      "rw_processing_status w1 = FAILED"
    using outage_run [OF assms(1) Suc.prems(1,2), of cfg m attempt now c] lt by auto
  obtain d' w' where "run_ladder cfg may_retry (attempt + 1) wid (map (\<lambda>now. (outage m, now)) later) (d1, c) =
        (map (\<lambda>i. Retrying (retry_delay i)) [attempt + 1 ..< MAX_RETRIES] @ [DeadLettered], d', c)"
      "only_webhooks d1 d'" "webhook_by_id wid d' = Some w'" "rw_processing_status w' = DEAD_LETTER"
      "rw_retry_count w' = rw_retry_count w1 + k + 1"
    using Suc.IH [OF 1(3) _ cl(2), of "attempt + 1"] 1(5) Suc.prems(4) by auto
  then show ?case using 1 cl lt by (auto simp: only_webhooks_def upt_conv_Cons)
qed

text \<open>C25. An outage of the model for all six runs ends in the dead letter state after the five
  delays, with the retry count six higher and nothing published.\<close>

theorem outage_dead_letters:
  assumes "celery_retries may_retry" "webhook_by_id wid d = Some w"
    and "rw_processing_status w = RECEIVED" "length clocks = 6"
  shows "\<exists>d' w'. run_ladder cfg may_retry 0 wid (map (\<lambda>now. (outage m, now)) clocks) (d, c) =
      ([Retrying 1, Retrying 2, Retrying 4, Retrying 8, Retrying 16, DeadLettered], d', c) \<and>
    db_events d' = db_events d \<and> db_states d' = db_states d \<and>
    webhook_by_id wid d' = Some w' \<and> rw_processing_status w' = DEAD_LETTER \<and>
    rw_retry_count w' = rw_retry_count w + 6"
proof -
  have "map (\<lambda>i. Retrying (retry_delay i)) [0 ..< MAX_RETRIES] =
        [Retrying 1, Retrying 2, Retrying 4, Retrying 8, Retrying 16]"
    by (simp add: MAX_RETRIES_def retry_delay_def upt_rec)
  then show ?thesis
    using outage_ladder [OF assms(1,2), of clocks 5 0 cfg m c] assms(3,4)
    by (simp add: MAX_RETRIES_def only_webhooks_def add.commute)
qed

section \<open>A stale check\<close>

text \<open>The check for an already normalised webhook is made on the row read before the lock: if
  another worker normalises the webhook in between, this worker claims and processes it again.\<close>

theorem stale_check_claims_again:
  assumes "webhook_by_id wid seen = Some w" "rw_processing_status w = RECEIVED"
    and "webhook_by_id wid d = Some w'" "rw_processing_status w' = NORMALIZED"
  shows "claim_webhook wid seen d = (Claimed w, set_status wid PROCESSING d)"
  using assms by (simp add: claim_webhook_def)

section \<open>Witnesses\<close>

definition one_webhook :: "processing_status \<Rightarrow> db" where
  "one_webhook st = empty_db \<lparr> db_webhooks := [(new_webhook first_try 1) \<lparr> rw_processing_status := st \<rparr>] \<rparr>"

definition the_webhook :: "processing_status \<Rightarrow> raw_webhook" where
  "the_webhook st = (new_webhook first_try 1) \<lparr> rw_processing_status := st \<rparr>"

lemma one_webhook: "webhook_by_id 1 (one_webhook st) = Some (the_webhook st)"
    "rw_processing_status (the_webhook st) = st" "rw_retry_count (the_webhook st) = 0"
    "event_constraints (db_events (one_webhook st))" "db_states (one_webhook st) = []"
  by (simp_all add: webhook_by_id_def one_webhook_def the_webhook_def first_row_def new_webhook_def
      event_constraints_def empty_db_def)

abbreviation celery :: "nat \<Rightarrow> nat \<Rightarrow> bool" where
  "celery \<equiv> \<lambda>limit attempt. attempt < limit"

lemma celery_ok: "celery_retries celery"
  by (simp add: celery_retries_def)

abbreviation outage_outcome :: "outcome \<times> world" where
  "outage_outcome \<equiv> process_raw_webhook default_settings (outage ''timeout'') celery 0 (Instant 9) 1
     (one_webhook RECEIVED, Map.empty)"

lemma outage_outcome:
  "\<exists>d' w'. outage_outcome = (Retrying 1, d', Map.empty) \<and> webhook_by_id 1 d' = Some w' \<and>
     rw_processing_status w' = FAILED"
  using outage_run [OF celery_ok one_webhook(1) [of RECEIVED], of default_settings "''timeout''" 0 "Instant 9" Map.empty]
    one_webhook(2) [of RECEIVED]
  by (auto simp: MAX_RETRIES_def retry_delay_def)

theorem run_leaves_no_limbo_witness:
  "\<exists>d' w'. outage_outcome = (Retrying 1, d', Map.empty) \<and> webhook_by_id 1 d' = Some w' \<and>
     row_after (Retrying 1) (the_webhook RECEIVED) w'"
proof -
  obtain d' where o: "outage_outcome = (Retrying 1, d', Map.empty)" using outage_outcome by blast
  then show ?thesis
    using run_leaves_no_limbo [OF o one_webhook(1)] one_webhook(2) [of RECEIVED] by auto
qed

theorem failed_run_publishes_nothing_witness:
  "\<exists>d'. outage_outcome = (Retrying 1, d', Map.empty) \<and> db_states d' = []"
proof -
  obtain d' where o: "outage_outcome = (Retrying 1, d', Map.empty)" using outage_outcome by blast
  then show ?thesis using failed_run_publishes_nothing [OF o] one_webhook(5) [of RECEIVED] by auto
qed

abbreviation read_doubtful :: "profile_state normalizer" where
  "read_doubtful \<equiv> \<lambda>payload vendor s.
     (Inr \<lparr> resp_normalized = doubtful, resp_llm_model = ''m'', resp_prompt_version = ''v1'' \<rparr>, s)"


definition long_reading :: normalization_result where
  "long_reading = doubtful \<lparr> nr_entity_id := replicate 256 (CHR ''9'') \<rparr>"


theorem finished_run_is_idempotent_witness:
  "process_raw_webhook default_settings (outage []) celery 0 (Instant 9) 1 (one_webhook NORMALIZED, Map.empty) =
     (Skipped, one_webhook NORMALIZED, Map.empty)"
  by (rule finished_run_is_idempotent [OF one_webhook(1)]) (simp add: one_webhook(2))

theorem ladder_terminates_witness:
  "length (fst (run_ladder default_settings celery 0 1 (replicate 50 (outage [], Instant 9))
     (one_webhook RECEIVED, Map.empty))) \<le> 6"
  using ladder_terminates [OF celery_ok, OF prod.collapse [symmetric]] by blast

theorem outage_dead_letters_witness:
  "\<exists>d' w'. run_ladder default_settings celery 0 1 (map (\<lambda>now. (outage [], now)) (replicate 6 (Instant 9)))
       (one_webhook RECEIVED, Map.empty) =
      ([Retrying 1, Retrying 2, Retrying 4, Retrying 8, Retrying 16, DeadLettered], d', Map.empty) \<and>
     webhook_by_id 1 d' = Some w' \<and> rw_processing_status w' = DEAD_LETTER"
  using outage_dead_letters [OF celery_ok one_webhook(1,2), of "replicate 6 (Instant 9)"] by force

theorem stale_check_claims_again_witness:
  "claim_webhook 1 (one_webhook RECEIVED) (one_webhook NORMALIZED) =
     (Claimed (the_webhook RECEIVED), set_status 1 PROCESSING (one_webhook NORMALIZED))"
  by (rule stale_check_claims_again [OF one_webhook(1,2) one_webhook(1,2)])

end
