(* ===== verification/Security.thy ===== *)
theory Security
  imports Settings
begin

text \<open>
  \<open>apps/ingestion/security.py\<close>: per-vendor HMAC-SHA256 signatures over the raw request body.
  The exception \<open>SignatureError\<close> is the left result.
\<close>

definition SIGNATURE_HEADER :: string where
  "SIGNATURE_HEADER = ''X-Webhook-Signature''"

definition PREFIXES :: "string list" where
  "PREFIXES = [''sha256='', '''']"

text \<open>The configured table with its vendors in lower case; a later duplicate wins.\<close>

definition secrets :: "settings \<Rightarrow> (string, string) dict" where
  "secrets cfg =
     fold (\<lambda>(vendor, secret) acc. dict_set (lower vendor) secret acc) (WEBHOOK_SIGNING_SECRETS cfg) []"

text \<open>\<open>secrets.get(vendor) or secrets.get("*")\<close>: an empty secret counts as none.\<close>

definition secret_for_vendor :: "settings \<Rightarrow> string \<Rightarrow> string option" where
  "secret_for_vendor cfg vendor =
     (case dict_get (secrets cfg) (lower vendor) of
        Some s \<Rightarrow> if s \<noteq> [] then Some s else dict_get (secrets cfg) ''*''
      | None \<Rightarrow> dict_get (secrets cfg) ''*'')"

definition expected_signature :: "string \<Rightarrow> bytes \<Rightarrow> string" where
  "expected_signature secret body = hex (hmac_sha256 (utf8 secret) body)"

text \<open>The loop over the prefixes; \<open>hmac.compare_digest\<close> compares bytes.\<close>

fun any_prefix_matches :: "string list \<Rightarrow> string \<Rightarrow> bytes \<Rightarrow> bool" where
  "any_prefix_matches [] candidate digest = False"
| "any_prefix_matches (prefix # prefixes) candidate digest =
     (if \<not> starts_with prefix candidate then any_prefix_matches prefixes candidate digest
      else if utf8 (lower (drop (length prefix) candidate)) = digest then True
      else any_prefix_matches prefixes candidate digest)"

definition verify_signature ::
  "settings \<Rightarrow> string \<Rightarrow> bytes \<Rightarrow> string option \<Rightarrow> unit result" where
  "verify_signature cfg vendor body provided =
     (case secret_for_vendor cfg vendor of
        None \<Rightarrow>
          if WEBHOOK_REQUIRE_SIGNATURE cfg
          then Inl (SignatureError ''No signing secret configured for this vendor.'')
          else Inr ()
      | Some secret \<Rightarrow>
          (case provided of
             None \<Rightarrow> Inl (SignatureError (''Missing '' @ SIGNATURE_HEADER @ '' header.''))
           | Some p \<Rightarrow>
               if p = [] then Inl (SignatureError (''Missing '' @ SIGNATURE_HEADER @ '' header.''))
               else
                 (let digest = utf8 (expected_signature secret body); candidate = strip p in
                  if any_prefix_matches PREFIXES candidate digest then Inr ()
                  else Inl (SignatureError ''Signature does not match the request body.''))))"

section \<open>What is accepted\<close>

lemma any_prefix_matches_iff:
  "any_prefix_matches prefixes candidate (utf8 digest) \<longleftrightarrow>
     (\<exists>p \<in> set prefixes. \<exists>t. candidate = p @ t \<and> lower t = digest)"
proof (induction prefixes)
  case (Cons p ps)
  show ?case
  proof (cases "starts_with p candidate")
    case True
    then obtain t where "candidate = p @ t" by (auto simp: starts_with_iff)
    then show ?thesis using Cons by auto
  next
    case False
    then have "\<nexists>t. candidate = p @ t" by (simp add: starts_with_iff)
    then show ?thesis using Cons False by auto
  qed
qed simp

text \<open>The header value as the code reads it: trimmed, an optional algorithm prefix, any case.\<close>

definition signature_names :: "string \<Rightarrow> string \<Rightarrow> bool" where
  "signature_names p digest \<longleftrightarrow>
     lower (strip p) = digest \<or> (\<exists>t. strip p = ''sha256='' @ t \<and> lower t = digest)"

lemma length_expected_signature [simp]: "length (expected_signature secret body) = 64"
  by (simp add: expected_signature_def)

lemma lower_expected_signature [simp]:
  "lower (expected_signature secret body) = expected_signature secret body"
  by (simp add: expected_signature_def)

lemma expected_signature_inject:
  "expected_signature secret body = expected_signature secret body' \<longleftrightarrow>
     hmac_sha256 (utf8 secret) body = hmac_sha256 (utf8 secret) body'"
  by (simp add: expected_signature_def)

lemma length_lower [simp]: "length (lower s) = length s"
  by (simp add: lower_def)

lemma prefixes_match_iff:
  "any_prefix_matches PREFIXES (strip p) (utf8 digest) \<longleftrightarrow> signature_names p digest"
  unfolding any_prefix_matches_iff signature_names_def by (auto simp: PREFIXES_def)

lemma signature_names_Nil: "\<not> signature_names [] (expected_signature secret body)"
  unfolding signature_names_def by (auto dest: arg_cong [where f = length])

lemma verify_signature_configured:
  assumes "secret_for_vendor cfg vendor = Some secret"
  shows "verify_signature cfg vendor body provided = Inr () \<longleftrightarrow>
    (\<exists>p. provided = Some p \<and> signature_names p (expected_signature secret body))"
  using assms signature_names_Nil
  by (auto simp: verify_signature_def prefixes_match_iff Let_def split: option.split)

text \<open>What the service itself would send: the prefixed digest.\<close>

definition signed_header :: "string \<Rightarrow> bytes \<Rightarrow> string" where
  "signed_header secret body = ''sha256='' @ expected_signature secret body"

lemma strip_signed_header: "strip (signed_header secret body) = signed_header secret body"
proof (rule strip_no_space)
  fix c
  assume "c \<in> set (signed_header secret body)"
  then consider "c \<in> set ''sha256=''" | "c \<in> set (expected_signature secret body)"
    by (auto simp: signed_header_def)
  then show "\<not> is_space c"
  proof cases
    case 1
    then show ?thesis by (auto simp: is_space_def py_whitespace_def)
  next
    case 2
    then have "is_hex c" unfolding expected_signature_def by (rule hex_chars)
    then show ?thesis by (rule is_hex_not_space)
  qed
qed

lemma signature_names_signed:
  "signature_names (signed_header secret body) (expected_signature secret body') \<longleftrightarrow>
     expected_signature secret body = expected_signature secret body'"
proof -
  have "lower (signed_header secret body) \<noteq> expected_signature secret body'"
    by (auto simp: signed_header_def dest!: arg_cong [where f = length])
  then show ?thesis
    unfolding signature_names_def strip_signed_header by (auto simp: signed_header_def)
qed

section \<open>Properties\<close>

text \<open>C13. A request is authenticated exactly when its vendor has no usable secret and signatures
  are not required, or it carries a header whose digest is the HMAC-SHA256 of the raw body under
  the vendor's secret (with or without the \<open>sha256=\<close> prefix, in any case).  No other request is.
\<close>

theorem verify_signature_accepts_iff:
  "verify_signature cfg vendor body provided = Inr () \<longleftrightarrow>
     (case secret_for_vendor cfg vendor of
        None \<Rightarrow> \<not> WEBHOOK_REQUIRE_SIGNATURE cfg
      | Some secret \<Rightarrow> \<exists>p. provided = Some p \<and> signature_names p (expected_signature secret body))"
proof (cases "secret_for_vendor cfg vendor")
  case None
  then show ?thesis by (simp add: verify_signature_def)
next
  case (Some secret)
  then show ?thesis by (simp add: verify_signature_configured)
qed

text \<open>The signature of one body presented with another body is accepted exactly when the two
  bodies have the same HMAC under the vendor's secret; otherwise the request is refused with the
  mismatch error.
\<close>

theorem tampered_body_rejected:
  assumes "secret_for_vendor cfg vendor = Some secret"
  shows "verify_signature cfg vendor received (Some (signed_header secret sent)) =
    (if hmac_sha256 (utf8 secret) sent = hmac_sha256 (utf8 secret) received then Inr ()
     else Inl (SignatureError ''Signature does not match the request body.''))"
proof -
  have "any_prefix_matches PREFIXES (strip (signed_header secret sent))
      (utf8 (expected_signature secret received)) \<longleftrightarrow>
    hmac_sha256 (utf8 secret) sent = hmac_sha256 (utf8 secret) received"
    unfolding prefixes_match_iff signature_names_signed by (rule expected_signature_inject)
  moreover have "signed_header secret sent \<noteq> []" by (simp add: signed_header_def)
  ultimately show ?thesis using assms by (simp add: verify_signature_def Let_def)
qed

definition signed_settings :: settings where
  "signed_settings = default_settings\<lparr> WEBHOOK_SIGNING_SECRETS := [(''Maersk'', ''s3cret'')] \<rparr>"

theorem tampered_body_rejected_witness:
  "verify_signature signed_settings ''maersk'' [1, 2] (Some (signed_header ''s3cret'' [1])) =
    (if hmac_sha256 (utf8 ''s3cret'') [1] = hmac_sha256 (utf8 ''s3cret'') [1, 2] then Inr ()
     else Inl (SignatureError ''Signature does not match the request body.''))"
  by (rule tampered_body_rejected) code_simp

end
