(* ===== verification/Services.thy ===== *)
theory Services
  imports Tasks Security
begin

text \<open>
  \<open>apps/ingestion/services.py\<close>, \<open>views.py\<close>, \<open>tasks.py\<close> and \<open>admin.py\<close>: accepting a delivery,
  handing it to a worker queue, and replaying stored webhooks.  The message broker is the list of
  tasks sent so far, each with its queue.  Requests are not atomic in this configuration, so
  \<open>on_commit\<close> sends at once.
\<close>

record gateway =
  gw_db :: db
  gw_profile_cache :: profile_cache
  gw_rates :: "int cache"
  gw_sent :: "(string \<times> nat) list"

text \<open>What a request may depend on besides its content: the clocks and whether the cache is up.\<close>

record context_of =
  cx_now :: rat  \<comment> \<open>\<open>time.time()\<close>\<close>
  cx_stamp :: instant  \<comment> \<open>\<open>timezone.now()\<close>\<close>
  cx_cache_up :: bool

section \<open>IngestionService\<close>

definition delivery_of :: "json \<Rightarrow> string \<Rightarrow> string option \<Rightarrow> instant \<Rightarrow> delivery" where
  "delivery_of payload vendor supplied stamp =
     (let ext = extract_external_event_id payload in
      \<lparr> dl_vendor = vendor, dl_external_event_id = ext,
        dl_idempotency_key = build_idempotency_key vendor payload ext supplied,
        dl_raw_payload = payload, dl_received_at = stamp \<rparr>)"

definition ingest ::
  "settings \<Rightarrow> context_of \<Rightarrow> json \<Rightarrow> string \<Rightarrow> string option \<Rightarrow> gateway \<Rightarrow>
     ((raw_webhook \<times> bool) \<times> gateway) result" where
  "ingest cfg cx payload vendor supplied g =
     and_then (create_or_get (delivery_of payload vendor supplied (cx_stamp cx)) (db_webhooks (gw_db g)))
       (\<lambda>((webhook, created), ws).
          let g' = g \<lparr> gw_db := (gw_db g) \<lparr> db_webhooks := ws \<rparr> \<rparr> in
          if created then
            (let (queue, rates) = route_for cfg (cx_cache_up cx) vendor (cx_now cx) (gw_rates g)
             in Inr ((webhook, True), g' \<lparr> gw_rates := rates, gw_sent := gw_sent g @ [(queue, rw_id webhook)] \<rparr>))
          else Inr ((webhook, False), g'))"

section \<open>ReplayService\<close>

definition in_flight :: "processing_status \<Rightarrow> bool" where
  "in_flight st \<longleftrightarrow> st = PROCESSING \<or> st = RECEIVED"

definition replay :: "settings \<Rightarrow> raw_webhook \<Rightarrow> bool \<Rightarrow> gateway \<Rightarrow> bool \<times> gateway" where
  "replay cfg webhook force g =
     (if in_flight (rw_processing_status webhook) \<and> \<not> force then (False, g)
      else (True,
        g \<lparr> gw_db := (gw_db g) \<lparr> db_webhooks := update_row rw_id (rw_id webhook)
                (\<lambda>w. w \<lparr> rw_processing_status := RECEIVED, rw_error_message := [] \<rparr>) (db_webhooks (gw_db g)) \<rparr>,
            gw_sent := gw_sent g @ [(NORMALIZATION_BULK_QUEUE cfg, rw_id webhook)] \<rparr>))"

text \<open>The loop shared by the bulk task and the admin action.\<close>

fun replay_all :: "settings \<Rightarrow> raw_webhook list \<Rightarrow> bool \<Rightarrow> gateway \<Rightarrow> nat \<times> gateway" where
  "replay_all cfg [] force g = (0, g)"
| "replay_all cfg (w # ws) force g =
     (let (ok, g') = replay cfg w force g; (n, g'') = replay_all cfg ws force g'
      in ((if ok then 1 else 0) + n, g''))"

definition failed_batch :: "nat \<Rightarrow> db \<Rightarrow> raw_webhook list" where
  "failed_batch limit d =
     take limit (sort_key rw_received_at
       (filter (\<lambda>w. rw_processing_status w \<in> {FAILED, DEAD_LETTER}) (db_webhooks d)))"

definition replay_failed_webhooks :: "settings \<Rightarrow> nat \<Rightarrow> gateway \<Rightarrow> nat \<times> gateway" where
  "replay_failed_webhooks cfg limit g = replay_all cfg (failed_batch limit (gw_db g)) True g"

definition replay_selected :: "settings \<Rightarrow> nat set \<Rightarrow> gateway \<Rightarrow> string \<times> gateway" where
  "replay_selected cfg selected g =
     (let (n, g') = replay_all cfg (filter (\<lambda>w. rw_id w \<in> selected) (db_webhooks (gw_db g))) True g
      in (''Replayed '' @ nat_str n @ '' webhook(s).'', g'))"

section \<open>The endpoints\<close>

text \<open>A request as the framework hands it over: headers, the body, and the body parsed.\<close>

record request =
  rq_headers :: headers
  rq_body :: bytes
  rq_data :: json

definition WebhookIngestionView_post ::
  "settings \<Rightarrow> context_of \<Rightarrow> request \<Rightarrow> gateway \<Rightarrow> (nat response \<times> gateway) result" where
  "WebhookIngestionView_post cfg cx rq g =
     (case read_request (rq_headers rq) (rq_data rq) (rq_body rq) SIGNATURE_HEADER of
        Inl e \<Rightarrow> (case e of InvalidPayload m \<Rightarrow> Inr ((400, Detail m), g) | _ \<Rightarrow> Inl e)
      | Inr inbound \<Rightarrow>
          (case verify_signature cfg (iw_vendor inbound) (iw_raw_body inbound) (iw_signature inbound) of
             Inl e \<Rightarrow> (case e of SignatureError m \<Rightarrow> Inr ((401, Detail m), g) | _ \<Rightarrow> Inl e)
           | Inr _ \<Rightarrow>
               and_then (ingest cfg cx (iw_payload inbound) (iw_vendor inbound) (iw_idempotency_key inbound) g)
                 (\<lambda>((webhook, created), g'). Inr ((202, Body (rw_id webhook)), g'))))"

definition HealthView_get :: "string response" where
  "HealthView_get = (200, Body ''ok'')"

text \<open>
  The replay endpoint; \<open>force\<close> is what the request serializer made of the body, \<open>None\<close> when it
  found the body invalid.
\<close>

definition WebhookReplayView_post ::
  "settings \<Rightarrow> nat \<Rightarrow> bool option \<Rightarrow> gateway \<Rightarrow> (string \<times> nat \<times> string) response \<times> gateway" where
  "WebhookReplayView_post cfg wid force g =
     (case webhook_by_id wid (gw_db g) of
        None \<Rightarrow> ((404, Detail ''No RawWebhook matches the given query.''), g)
      | Some webhook \<Rightarrow>
          (case force of
             None \<Rightarrow> ((400, Detail ''Must be a valid boolean.''), g)
           | Some f \<Rightarrow>
               (let (replayed, g') = replay cfg webhook f g
                in if replayed
                   then ((202, Body (''accepted'', wid, processing_status_value RECEIVED)), g')
                   else ((409, Body (''skipped'', wid,
                                processing_status_value (rw_processing_status webhook))), g'))))"

section \<open>What ingestion promises\<close>

lemma length_build_key: "length (build_idempotency_key vendor payload ext supplied) \<le> 255"
  using length_fit
  by (auto simp: build_idempotency_key_def MAX_IDEMPOTENCY_KEY_LENGTH_def split: option.splits)

text \<open>A request whose texts a column can hold: then so can everything that is derived from it.\<close>

definition storable_request :: "headers \<Rightarrow> json \<Rightarrow> bool" where
  "storable_request hs payload \<longleftrightarrow> (\<forall>(k, v) \<in> set hs. storable_text v) \<and> storable_json payload"

lemma storable_hex [storable]: "storable_text (hex bs)"
  by (auto simp: storable_text_def is_hex_def is_ascii_digit_def dest!: hex_chars)

lemma storable_fit [storable]: "storable_text key \<Longrightarrow> storable_text (fit key)"
  by (simp add: fit_def Let_def storable)

lemma storable_member: "storable_json payload \<Longrightarrow> storable_json (obj_get payload key)"
  by (cases payload) (auto dest!: map_of_SomeD split: option.splits)

lemma storable_first_named: "storable_json payload \<Longrightarrow> first_named payload keys = Some v \<Longrightarrow> storable_json v"
  by (induction keys) (auto simp: Let_def storable_member split: if_splits)

lemma storable_header: "storable_request hs payload \<Longrightarrow> header_get hs name = Some v \<Longrightarrow> storable_text v"
  by (auto simp: storable_request_def header_get_def find_Some_iff split: prod.splits) (metis case_prodD nth_mem)

lemma storable_vendor: "storable_request hs payload \<Longrightarrow> storable_text (resolve_vendor hs payload)"
  using storable_header [of hs payload VENDOR_HEADER] storable_first_named [of payload VENDOR_PAYLOAD_KEYS]
  by (auto simp: resolve_vendor_def Let_def UNKNOWN_VENDOR_def storable storable_request_def split: option.splits)

lemma storable_supplied: "storable_request hs payload \<Longrightarrow> resolve_idempotency_key hs = Some k \<Longrightarrow> storable_text k"
  using storable_header [of hs payload IDEMPOTENCY_HEADER]
  by (auto simp: resolve_idempotency_key_def Let_def storable split: option.splits if_splits)

lemma storable_event_id: "storable_json payload \<Longrightarrow> extract_external_event_id payload = Some e \<Longrightarrow> storable_text e"
  using storable_first_named [of payload KNOWN_EVENT_ID_KEYS]
  by (auto simp: extract_external_event_id_def storable split: if_splits)

lemma delivery_of_storable:
  assumes "storable_json payload" "storable_text vendor" "length vendor \<le> 128"
    and "\<forall>k. supplied = Some k \<longrightarrow> storable_text k"
  shows "storable_delivery (delivery_of payload vendor supplied stamp)"
proof -
  have "storable_text (build_idempotency_key vendor payload (extract_external_event_id payload) supplied)"
    using assms storable_event_id [OF assms(1)]
    by (auto simp: build_idempotency_key_def storable split: option.splits)
  then show ?thesis
    using assms(1-3) storable_event_id [OF assms(1)] extract_external_event_id_bounds [of payload] length_build_key
    by (auto simp: storable_delivery_def webhook_columns_def new_webhook_def varchar_def delivery_of_def Let_def
        split: option.splits)
qed

lemma request_storable:
  "storable_request hs payload \<Longrightarrow>
     storable_delivery (delivery_of payload (resolve_vendor hs payload) (resolve_idempotency_key hs) stamp)"
  using resolve_vendor_bounds [of hs payload]
  by (intro delivery_of_storable)
     (auto simp: storable_vendor storable_supplied storable_request_def MAX_VENDOR_LENGTH_def)

lemma delivery_of_ok:
  "storable_delivery (delivery_of payload vendor supplied stamp) \<Longrightarrow> delivery_ok (delivery_of payload vendor supplied stamp)"
  using extract_external_event_id_bounds [of payload "[]"]
  by (auto simp: delivery_ok_def delivery_of_def Let_def)

lemma ingest_cases:
  assumes "webhook_constraints (db_webhooks (gw_db g))"
  obtains (stored) w where "w \<in> set (db_webhooks (gw_db g))"
      "ingest cfg cx payload vendor supplied g = Inr ((w, False), g)"
    | (fresh) w rates queue where
      "w = new_webhook (delivery_of payload vendor supplied (cx_stamp cx)) (fresh_key (map rw_id (db_webhooks (gw_db g))))"
      "\<forall>w' \<in> set (db_webhooks (gw_db g)). \<not> same_key (delivery_of payload vendor supplied (cx_stamp cx)) w' \<and>
          \<not> same_event (delivery_of payload vendor supplied (cx_stamp cx)) w'"
      "route_for cfg (cx_cache_up cx) vendor (cx_now cx) (gw_rates g) = (queue, rates)"
      "ingest cfg cx payload vendor supplied g = Inr ((w, True),
         g \<lparr> gw_db := (gw_db g) \<lparr> db_webhooks := db_webhooks (gw_db g) @ [w] \<rparr>,
             gw_rates := rates, gw_sent := gw_sent g @ [(queue, rw_id w)] \<rparr>)"
      "webhook_constraints (db_webhooks (gw_db g) @ [w])" "webhook_columns w"
    | (unstorable) m where "\<not> storable_delivery (delivery_of payload vendor supplied (cx_stamp cx))"
      "ingest cfg cx payload vendor supplied g = Inl (DataError m)"
proof -
  let ?q = "delivery_of payload vendor supplied (cx_stamp cx)" and ?ws = "db_webhooks (gw_db g)"
  show ?thesis
  proof (cases "storable_delivery ?q")
    case False
    from unstorable_delivery [OF False, of ?ws] show ?thesis
    proof (elim disjE bexE conjE exE)
      fix w assume "w \<in> set ?ws" "create_or_get ?q ?ws = Inr ((w, False), ?ws)"
      then show ?thesis by (intro stored) (simp_all add: ingest_def Let_def)
    next
      fix m assume "create_or_get ?q ?ws = Inl (DataError m)"
      then show ?thesis using False by (intro unstorable) (simp_all add: ingest_def)
    qed
  next
    case ok: True
    show ?thesis
    proof (cases "\<exists>w \<in> set ?ws. same_key ?q w \<or> same_event ?q w")
      case True
      then obtain w where "w \<in> set ?ws" "create_or_get ?q ?ws = Inr ((w, False), ?ws)"
        using create_or_get_hit delivery_of_ok [OF ok] by blast
      then show ?thesis using stored by (simp add: ingest_def Let_def)
    next
      case False
      let ?w = "new_webhook ?q (fresh_key (map rw_id ?ws))"
      have ins: "insert_webhook ?q ?ws = Inr (?w, ?ws @ [?w])"
        using False ok by (auto simp: insert_webhook_def Let_def)
      have "first_row (same_key ?q) ?ws = None" using False by (auto simp: first_row_None)
      then have "create_or_get ?q ?ws = Inr ((?w, True), ?ws @ [?w])"
        using ok by (simp add: create_or_get_def create_or_get_racing_def get_or_create_def ins)
      moreover obtain queue rates where
        "route_for cfg (cx_cache_up cx) vendor (cx_now cx) (gw_rates g) = (queue, rates)"
        by (cases "route_for cfg (cx_cache_up cx) vendor (cx_now cx) (gw_rates g)")
      ultimately show ?thesis
        using fresh [of ?w queue rates] False insert_keeps_constraints [OF assms ins] ok
        by (auto simp: ingest_def Let_def)
    qed
  qed
qed

definition columns_fit :: "raw_webhook \<Rightarrow> bool" where
  "columns_fit w \<longleftrightarrow>
     webhook_columns w \<and> rw_vendor w \<noteq> [] \<and> rw_external_event_id w \<noteq> Some []"

lemma new_webhook_fits:
  assumes "vendor \<noteq> []" "webhook_columns (new_webhook (delivery_of payload vendor supplied stamp) uid)"
  shows "columns_fit (new_webhook (delivery_of payload vendor supplied stamp) uid)"
  using assms extract_external_event_id_bounds [of payload "[]"]
  by (auto simp: columns_fit_def new_webhook_def delivery_of_def Let_def)

lemma same_delivery_later [simp]:
  "same_key (q \<lparr> dl_received_at := t \<rparr>) = same_key q" "same_event (q \<lparr> dl_received_at := t \<rparr>) = same_event q"
  "dl_external_event_id (q \<lparr> dl_received_at := t \<rparr>) = dl_external_event_id q"
  by (simp_all add: fun_eq_iff same_key_def same_event_def)

lemma storable_later [simp]:
  "storable_delivery (q \<lparr> dl_received_at := t \<rparr>) = storable_delivery q"
  "select_webhook (q \<lparr> dl_received_at := t \<rparr>) ws = select_webhook q ws"
  by (simp_all add: storable_delivery_def webhook_columns_def new_webhook_def select_webhook_def)

lemma stored_later:
  assumes "create_or_get q ws = Inr ((w, False), ws')"
  shows "create_or_get (q \<lparr> dl_received_at := t \<rparr>) ws = Inr ((w, False), ws')"
proof (cases "storable_delivery q")
  case True
  then show ?thesis using stored_match [OF assms] match_stored [of "q \<lparr> dl_received_at := t \<rparr>"] by simp
next
  case False
  have "storable_text (dl_vendor q) \<and> storable_text (dl_idempotency_key q)"
    using assms by (auto simp: create_or_get_def create_or_get_racing_def get_or_create_def select_webhook_def split: if_splits)
  moreover have "first_row (same_key q) ws = Some w" "ws' = ws"
    using unstorable_delivery [OF False, of ws] stored_match [OF assms] assms by (auto simp: first_row_None)
  ultimately show ?thesis
    by (simp add: create_or_get_def create_or_get_racing_def get_or_create_def select_webhook_def)
qed

lemma ingest_again:
  assumes "webhook_constraints (db_webhooks (gw_db g))"
    and "ingest cfg cx payload vendor supplied g = Inr ((w, created), g')"
  shows "ingest cfg cx' payload vendor supplied g' = Inr ((w, False), g')"
proof -
  let ?q = "delivery_of payload vendor supplied (cx_stamp cx)"
  obtain ws where ws: "create_or_get ?q (db_webhooks (gw_db g)) = Inr ((w, created), ws)"
      "db_webhooks (gw_db g') = ws"
    using assms(2) by (auto simp: ingest_def Let_def split: if_splits prod.splits)
  have "create_or_get ?q ws = Inr ((w, False), ws)"
  proof (cases "storable_delivery ?q")
    case True
    then show ?thesis using rw.redelivery [OF assms(1) delivery_of_ok ws(1)] by simp
  next
    case False
    then show ?thesis using unstorable_delivery [OF False, of "db_webhooks (gw_db g)"] ws(1) by auto
  qed
  moreover have "delivery_of payload vendor supplied (cx_stamp cx') = ?q \<lparr> dl_received_at := cx_stamp cx' \<rparr>"
    by (simp add: delivery_of_def Let_def)
  ultimately have "create_or_get (delivery_of payload vendor supplied (cx_stamp cx')) ws = Inr ((w, False), ws)"
    using stored_later by simp
  then show ?thesis by (simp add: ingest_def ws(2) [symmetric])
qed

section \<open>Properties of the ingestion endpoint\<close>

lemma post_cases:
  assumes "webhook_constraints (db_webhooks (gw_db g))"
  obtains (refused) sc m where "sc \<in> {400, 401}" "WebhookIngestionView_post cfg cx rq g = Inr ((sc, Detail m), g)"
    | (accepted) payload vendor supplied w created g' where
      "ingest cfg cx payload vendor supplied g = Inr ((w, created), g')"
      "payload = rq_data rq" "vendor = resolve_vendor (rq_headers rq) (rq_data rq)"
      "verify_signature cfg vendor (rq_body rq) (header_get (rq_headers rq) SIGNATURE_HEADER) = Inr ()"
      "WebhookIngestionView_post cfg cx rq g = Inr ((202, Body (rw_id w)), g')"
      "\<And>cx' g1 w1 c1 g2. ingest cfg cx' payload vendor supplied g1 = Inr ((w1, c1), g2) \<Longrightarrow>
         WebhookIngestionView_post cfg cx' rq g1 = Inr ((202, Body (rw_id w1)), g2)"
    | (unstorable) m where "\<not> storable_request (rq_headers rq) (rq_data rq)"
      "WebhookIngestionView_post cfg cx rq g = Inl (DataError m)"
proof (cases "read_request (rq_headers rq) (rq_data rq) (rq_body rq) SIGNATURE_HEADER")
  case (Inl e)
  then obtain m where "e = InvalidPayload m" by (auto simp: read_request_def split: if_splits)
  then show ?thesis using refused [of 400 m] Inl by (simp add: WebhookIngestionView_post_def)
next
  case (Inr iw)
  note iw = Inr [unfolded read_request_Inr]
  let ?sig = "verify_signature cfg (iw_vendor iw) (iw_raw_body iw) (iw_signature iw)"
  show ?thesis
  proof (cases ?sig)
    case (Inl e)
    then obtain m where "e = SignatureError m"
      by (auto simp: verify_signature_def Let_def split: option.splits if_splits)
    then show ?thesis using refused [of 401 m] \<open>read_request _ _ _ _ = Inr iw\<close> Inl
      by (simp add: WebhookIngestionView_post_def)
  next
    case ok: (Inr u)
    have post: "WebhookIngestionView_post cfg cx' rq g1 =
        and_then (ingest cfg cx' (iw_payload iw) (iw_vendor iw) (iw_idempotency_key iw) g1)
          (\<lambda>((webhook, created), g'). Inr ((202, Body (rw_id webhook)), g'))" for cx' g1
      using \<open>read_request _ _ _ _ = Inr iw\<close> ok by (simp add: WebhookIngestionView_post_def)
    have of_request: "iw_payload iw = rq_data rq" "iw_vendor iw = resolve_vendor (rq_headers rq) (rq_data rq)"
        "iw_idempotency_key iw = resolve_idempotency_key (rq_headers rq)"
        "verify_signature cfg (resolve_vendor (rq_headers rq) (rq_data rq)) (rq_body rq)
           (header_get (rq_headers rq) SIGNATURE_HEADER) = Inr ()"
      using iw ok by auto
    have accept: thesis if "ingest cfg cx (iw_payload iw) (iw_vendor iw) (iw_idempotency_key iw) g = Inr ((w, c), g')" for w c g'
      by (rule accepted [OF that of_request(1,2)]) (use of_request(2,4) that post in simp_all)
    show ?thesis
    proof (cases rule: ingest_cases [OF assms, of cfg cx "iw_payload iw" "iw_vendor iw" "iw_idempotency_key iw"])
      case (1 w)
      then show ?thesis by (intro accept)
    next
      case (2 w rates queue)
      then show ?thesis by (intro accept)
    next
      case (3 m)
      then have "\<not> storable_request (rq_headers rq) (rq_data rq)"
        using request_storable [of "rq_headers rq" "rq_data rq"] by (auto simp: of_request)
      then show ?thesis using 3 by (intro unstorable) (simp_all add: post)
    qed
  qed
qed


text \<open>A payload no column can hold is never accepted: unless its key is that of a stored webhook, the
  request raises, whatever is stored and however often it is sent.\<close>

theorem unstorable_payload_raises:
  assumes "is_object (rq_data rq)" "truthy (rq_data rq)" "\<not> storable_json (rq_data rq)"
    and "verify_signature cfg (resolve_vendor (rq_headers rq) (rq_data rq)) (rq_body rq)
      (header_get (rq_headers rq) SIGNATURE_HEADER) = Inr ()"
    and "\<forall>w \<in> set (db_webhooks (gw_db g)). \<not> same_key (delivery_of (rq_data rq)
      (resolve_vendor (rq_headers rq) (rq_data rq)) (resolve_idempotency_key (rq_headers rq)) (cx_stamp cx)) w"
  shows "\<exists>m. WebhookIngestionView_post cfg cx rq g = Inl (DataError m)"
proof -
  let ?q = "delivery_of (rq_data rq) (resolve_vendor (rq_headers rq) (rq_data rq))
    (resolve_idempotency_key (rq_headers rq)) (cx_stamp cx)"
  have "\<not> storable_delivery ?q"
    using assms(3) by (simp add: storable_delivery_def webhook_columns_def new_webhook_def delivery_of_def Let_def)
  then obtain m where "create_or_get ?q (db_webhooks (gw_db g)) = Inl (DataError m)"
    using unstorable_delivery assms(5) by blast
  then show ?thesis using assms(1,2,4)
    by (simp add: WebhookIngestionView_post_def read_request_def ingest_def)
qed


section \<open>What a replay does\<close>

text \<open>The row of a webhook that was replayed.\<close>

definition replayed :: "raw_webhook \<Rightarrow> raw_webhook" where
  "replayed w = w \<lparr> rw_processing_status := RECEIVED, rw_error_message := [] \<rparr>"

lemma replayed_columns [simp]:
  "rw_id (replayed w) = rw_id w" "rw_vendor (replayed w) = rw_vendor w"
  "rw_idempotency_key (replayed w) = rw_idempotency_key w"
  "rw_external_event_id (replayed w) = rw_external_event_id w"
  "rw_raw_payload (replayed w) = rw_raw_payload w" "rw_processing_status (replayed w) = RECEIVED"
  "rw_retry_count (replayed w) = rw_retry_count w" "replayed (replayed w) = replayed w"
  by (simp_all add: replayed_def)

lemma replay_alt:
  "replay cfg w force g =
     (if in_flight (rw_processing_status w) \<and> \<not> force then (False, g)
      else (True,
        g \<lparr> gw_db := (gw_db g) \<lparr> db_webhooks := update_row rw_id (rw_id w) replayed (db_webhooks (gw_db g)) \<rparr>,
            gw_sent := gw_sent g @ [(NORMALIZATION_BULK_QUEUE cfg, rw_id w)] \<rparr>))"
proof -
  have "replayed = (\<lambda>w. w \<lparr> rw_processing_status := RECEIVED, rw_error_message := [] \<rparr>)"
    by (rule ext) (simp add: replayed_def)
  then show ?thesis by (simp add: replay_def)
qed

lemma update_rows_compose:
  "update_row rw_id k replayed (map (\<lambda>w. if rw_id w \<in> K then replayed w else w) ws) =
     map (\<lambda>w. if rw_id w \<in> insert k K then replayed w else w) ws"
  by (simp add: update_row_def)

text \<open>A forced replay of a list of rows: every row of the list is sent once, and reset.\<close>

lemma replay_all_forced:
  "replay_all cfg batch True g =
     (length batch,
      g \<lparr> gw_db := (gw_db g) \<lparr> db_webhooks :=
            map (\<lambda>w. if rw_id w \<in> rw_id ` set batch then replayed w else w) (db_webhooks (gw_db g)) \<rparr>,
          gw_sent := gw_sent g @ map (\<lambda>w. (NORMALIZATION_BULK_QUEUE cfg, rw_id w)) batch \<rparr>)"
proof (induction batch arbitrary: g)
  case Nil
  show ?case by simp
next
  case (Cons w batch)
  have "map (\<lambda>w'. if rw_id w' \<in> rw_id ` set batch then replayed w' else w')
          (update_row rw_id (rw_id w) replayed ws) =
        map (\<lambda>w'. if rw_id w' \<in> rw_id ` set (w # batch) then replayed w' else w') ws" for ws
    by (auto simp: update_row_def)
  then show ?case by (simp add: replay_alt Cons.IH)
qed

lemma failed_batch_oldest:
  assumes "w \<in> set (failed_batch limit d)" "w' \<in> set (db_webhooks d)"
    "rw_processing_status w' \<in> {FAILED, DEAD_LETTER}" "w' \<notin> set (failed_batch limit d)"
  shows "rw_received_at w \<le> rw_received_at w'"
proof -
  let ?fs = "sort_key rw_received_at (filter (\<lambda>w. rw_processing_status w \<in> {FAILED, DEAD_LETTER}) (db_webhooks d))"
  have split: "?fs = take limit ?fs @ drop limit ?fs" by simp
  have "w' \<in> set ?fs" using assms(2,3) by simp
  then have "w' \<in> set (drop limit ?fs)"
    using assms(4) split unfolding failed_batch_def by (metis Un_iff set_append)
  moreover have "sorted (map rw_received_at (take limit ?fs @ drop limit ?fs))"
    using sorted_sort_key [of rw_received_at] split by metis
  ultimately show ?thesis using assms(1) unfolding failed_batch_def
    by (auto simp: sorted_append simp del: append_take_drop_id)
qed

text \<open>The bulk replay sends exactly the oldest failed or dead-lettered webhooks, at most
  \<open>limit\<close> of them and as many as there are, once each and to the bulk queue; it resets their rows
  and touches no other row, event or entity state.\<close>

theorem bulk_replay_sends_oldest:
  assumes "webhook_constraints (db_webhooks (gw_db g))" "replay_failed_webhooks cfg limit g = (n, g')"
  shows "\<exists>batch. n = length batch \<and> distinct (map rw_id batch) \<and>
    n = min limit (length (filter (\<lambda>w. rw_processing_status w \<in> {FAILED, DEAD_LETTER}) (db_webhooks (gw_db g)))) \<and>
    (\<forall>w \<in> set batch. w \<in> set (db_webhooks (gw_db g)) \<and> rw_processing_status w \<in> {FAILED, DEAD_LETTER}) \<and>
    (\<forall>w \<in> set batch. \<forall>w' \<in> set (db_webhooks (gw_db g)).
       rw_processing_status w' \<in> {FAILED, DEAD_LETTER} \<longrightarrow> w' \<notin> set batch \<longrightarrow> rw_received_at w \<le> rw_received_at w') \<and>
    gw_sent g' = gw_sent g @ map (\<lambda>w. (NORMALIZATION_BULK_QUEUE cfg, rw_id w)) batch \<and>
    db_webhooks (gw_db g') = map (\<lambda>w. if w \<in> set batch then replayed w else w) (db_webhooks (gw_db g)) \<and>
    db_events (gw_db g') = db_events (gw_db g) \<and> db_states (gw_db g') = db_states (gw_db g)"
proof -
  let ?ws = "db_webhooks (gw_db g)" and ?batch = "failed_batch limit (gw_db g)"
  have sub: "set ?batch \<subseteq> {w \<in> set ?ws. rw_processing_status w \<in> {FAILED, DEAD_LETTER}}"
    unfolding failed_batch_def by (auto dest!: in_set_takeD)
  have ids: "distinct (map rw_id ?ws)" using assms(1) by (simp add: webhook_constraints_def)
  have "distinct ?batch" using ids by (simp add: failed_batch_def distinct_map)
  then have d: "distinct (map rw_id ?batch)"
    using ids sub by (auto simp: distinct_map intro: inj_on_subset)
  have "rw_id w \<in> rw_id ` set ?batch \<longleftrightarrow> w \<in> set ?batch" if "w \<in> set ?ws" for w
    using ids sub that by (auto simp: distinct_map inj_on_def)
  then have rows: "map (\<lambda>w. if rw_id w \<in> rw_id ` set ?batch then replayed w else w) ?ws =
      map (\<lambda>w. if w \<in> set ?batch then replayed w else w) ?ws" by (intro map_cong) auto
  have "length ?batch = min limit (length (filter (\<lambda>w. rw_processing_status w \<in> {FAILED, DEAD_LETTER}) ?ws))"
    by (simp add: failed_batch_def)
  moreover have "replay_failed_webhooks cfg limit g = (n, g')" by fact
  ultimately show ?thesis
    using d sub failed_batch_oldest [of _ limit "gw_db g"] rows
    by (intro exI [of _ ?batch]) (auto simp: replay_failed_webhooks_def replay_all_forced)
qed

text \<open>The replay endpoint accepts a known webhook unless it is in flight and the caller did not
  force it; any other request changes nothing.  An accepted one puts the webhook back to \<open>RECEIVED\<close>
  with its payload kept, sends it once to the bulk queue, and touches nothing else.\<close>

theorem replay_endpoint:
  assumes "WebhookReplayView_post cfg wid force g = ((sc, b), g')"
  shows "(sc = 202 \<longleftrightarrow> (\<exists>w f. webhook_by_id wid (gw_db g) = Some w \<and> force = Some f \<and>
              (f \<or> \<not> in_flight (rw_processing_status w)))) \<and>
    (if sc = 202
     then webhook_by_id wid (gw_db g') = map_option replayed (webhook_by_id wid (gw_db g)) \<and>
       (\<forall>other. other \<noteq> wid \<longrightarrow> webhook_by_id other (gw_db g') = webhook_by_id other (gw_db g)) \<and>
       gw_sent g' = gw_sent g @ [(NORMALIZATION_BULK_QUEUE cfg, wid)] \<and>
       db_events (gw_db g') = db_events (gw_db g) \<and> db_states (gw_db g') = db_states (gw_db g)
     else sc \<in> {400, 404, 409} \<and> g' = g)"
proof (cases "webhook_by_id wid (gw_db g)")
  case None
  then show ?thesis using assms by (auto simp: WebhookReplayView_post_def)
next
  case (Some w)
  then have "rw_id w = wid" using webhook_by_id_Some by blast
  then show ?thesis using assms Some
    by (cases force) (auto simp: WebhookReplayView_post_def replay_alt webhook_update split: if_splits)
qed

section \<open>Witnesses\<close>

definition empty_gateway :: gateway where
  "empty_gateway = \<lparr> gw_db = empty_db, gw_profile_cache = Map.empty, gw_rates = Map.empty, gw_sent = [] \<rparr>"

definition sample_request :: request where
  "sample_request = \<lparr> rq_headers = [(''X-Webhook-Vendor'', ''acme'')], rq_body = [],
     rq_data = parcel \<rparr>"

definition at_noon :: context_of where
  "at_noon = \<lparr> cx_now = 43200, cx_stamp = Instant 43200000000, cx_cache_up = True \<rparr>"

lemma empty_gateway_ok: "webhook_constraints (db_webhooks (gw_db empty_gateway))"
  by (simp add: empty_gateway_def empty_db_def webhook_constraints_def)

lemma sample_storable: "storable_request (rq_headers sample_request) (rq_data sample_request)"
  by (simp add: storable_request_def sample_request_def parcel_def storable)

lemma sample_accepted:
  "\<exists>b g'. WebhookIngestionView_post default_settings at_noon sample_request empty_gateway = Inr ((202, b), g')"
proof (cases rule: post_cases [OF empty_gateway_ok, of default_settings at_noon sample_request])
  case (1 sc m)
  have "secret_for_vendor default_settings vendor = None" for vendor
    by (simp add: secret_for_vendor_def secrets_def default_settings_def parse_signing_secrets_def
        parse_secret_pair_def strip_def strip_by_def lstrip_by_def)
  then have unsigned: "verify_signature default_settings vendor body sig = Inr ()" for vendor body sig
    by (simp add: verify_signature_def)
  have "\<exists>iw :: inbound_webhook. WebhookIngestionView_post default_settings at_noon sample_request empty_gateway =
        and_then (ingest default_settings at_noon (iw_payload iw) (iw_vendor iw) (iw_idempotency_key iw) empty_gateway)
          (\<lambda>((webhook, created), g'). Inr ((202, Body (rw_id webhook)), g'))"
    by (rule exI [of _ "\<lparr> iw_vendor = resolve_vendor (rq_headers sample_request) (rq_data sample_request),
          iw_payload = rq_data sample_request, iw_raw_body = rq_body sample_request,
          iw_idempotency_key = resolve_idempotency_key (rq_headers sample_request),
          iw_signature = header_get (rq_headers sample_request) SIGNATURE_HEADER \<rparr>"],
        simp add: WebhookIngestionView_post_def read_request_def sample_request_def parcel_def unsigned)
  then obtain iw :: inbound_webhook where "WebhookIngestionView_post default_settings at_noon sample_request empty_gateway =
        and_then (ingest default_settings at_noon (iw_payload iw) (iw_vendor iw) (iw_idempotency_key iw) empty_gateway)
          (\<lambda>((webhook, created), g'). Inr ((202, Body (rw_id webhook)), g'))" by blast
  then have "Inr ((sc, Detail m), empty_gateway) =
      and_then (ingest default_settings at_noon (iw_payload iw) (iw_vendor iw) (iw_idempotency_key iw) empty_gateway)
          (\<lambda>((webhook, created), g'). Inr ((202, Body (rw_id webhook)), g'))"
    using 1(2) by simp
  then show ?thesis
    by (cases "ingest default_settings at_noon (iw_payload iw) (iw_vendor iw) (iw_idempotency_key iw) empty_gateway")
       (auto split: prod.splits)
qed (use sample_storable in blast)+


definition nul_request :: request where
  "nul_request = \<lparr> rq_headers = [(''X-Webhook-Vendor'', ''acme'')], rq_body = [],
     rq_data = JObj [(''id'', JStr ''S-1''), (''note'', JStr [CHR 0x00])] \<rparr>"

theorem unstorable_payload_raises_witness:
  "\<exists>m. WebhookIngestionView_post default_settings at_noon nul_request empty_gateway = Inl (DataError m)"
proof (rule unstorable_payload_raises)
  show "verify_signature default_settings (resolve_vendor (rq_headers nul_request) (rq_data nul_request))
      (rq_body nul_request) (header_get (rq_headers nul_request) SIGNATURE_HEADER) = Inr ()"
    by (simp add: verify_signature_def secret_for_vendor_def secrets_def default_settings_def parse_signing_secrets_def
        parse_secret_pair_def strip_def strip_by_def lstrip_by_def)
qed (simp_all add: nul_request_def empty_gateway_def empty_db_def)


definition failed_gateway :: gateway where
  "failed_gateway = empty_gateway \<lparr> gw_db := one_webhook FAILED \<rparr>"

theorem bulk_replay_sends_oldest_witness:
  "\<exists>g'. replay_failed_webhooks default_settings 100 failed_gateway = (1, g') \<and>
     gw_sent g' = [(''normalization.bulk'', 1)]"
proof -
  obtain n g' where r: "replay_failed_webhooks default_settings 100 failed_gateway = (n, g')"
    by (cases "replay_failed_webhooks default_settings 100 failed_gateway")
  have rows: "db_webhooks (gw_db failed_gateway) = [the_webhook FAILED]" "gw_sent failed_gateway = []"
    by (simp_all add: failed_gateway_def one_webhook_def the_webhook_def empty_gateway_def)
  have "webhook_constraints (db_webhooks (gw_db failed_gateway))"
    by (simp add: rows webhook_constraints_def)
  from bulk_replay_sends_oldest [OF this r, unfolded rows] obtain batch where
    n: "n = length batch" and
    m: "n = min 100 (length (filter (\<lambda>w. rw_processing_status w \<in> {FAILED, DEAD_LETTER}) [the_webhook FAILED]))" and
    sub: "\<forall>w \<in> set batch. w \<in> set [the_webhook FAILED] \<and> rw_processing_status w \<in> {FAILED, DEAD_LETTER}" and
    sent: "gw_sent g' = [] @ map (\<lambda>w. (NORMALIZATION_BULK_QUEUE default_settings, rw_id w)) batch"
    by blast
  have "n = 1" using m by (simp add: one_webhook(2))
  then obtain w where b: "batch = [w]" using n by (auto simp: length_Suc_conv)
  then have "w = the_webhook FAILED" using sub by simp
  then have "gw_sent g' = [(''normalization.bulk'', 1)]"
    using sent b by (simp add: the_webhook_def new_webhook_def)
  then show ?thesis using r \<open>n = 1\<close> by simp
qed

theorem replay_endpoint_witness:
  "\<exists>b g'. WebhookReplayView_post default_settings 1 (Some False) failed_gateway = ((202, b), g') \<and>
     webhook_by_id 1 (gw_db g') = Some (replayed (the_webhook FAILED))"
proof -
  obtain sc b g' where r: "WebhookReplayView_post default_settings 1 (Some False) failed_gateway = ((sc, b), g')"
    by (metis prod.exhaust)
  have w: "webhook_by_id 1 (gw_db failed_gateway) = Some (the_webhook FAILED)"
    using one_webhook(1) [of FAILED] by (simp add: failed_gateway_def del: One_nat_def)
  then have "sc = 202" using replay_endpoint [OF r] by (auto simp: one_webhook in_flight_def)
  then show ?thesis using replay_endpoint [OF r] w r by auto
qed

end
