(* ===== verification/Discovery.thy ===== *)
theory Discovery
  imports Backends "HOL-Library.Product_Lexorder"
begin

text \<open>
  \<open>apps/normalization/discovery.py\<close>: a profile proposed from sample payloads, by the statistical
  reading and, when asked for, by merging a model's proposal on top of it; the endpoint that serves
  it and the management command's choice of stored samples.  As in the model-backed reader, the
  OpenAI client is a parameter.  A lookup on a value that is not a dict or not iterable raises, as
  \<open>AttributeError\<close> and \<open>TypeError\<close> do.
\<close>

section \<open>Constants and the result\<close>

definition STATISTICAL :: string where
  "STATISTICAL = ''statistical''"

definition MODEL_ASSISTED :: string where
  "MODEL_ASSISTED = ''model-assisted''"

definition MAX_LLM_SAMPLES :: nat where
  "MAX_LLM_SAMPLES = 8"

definition MAX_STATUS_LENGTH :: nat where
  "MAX_STATUS_LENGTH = 64"

record discovery_result =
  dr_profile :: vendor_profile_spec
  dr_method :: string
  dr_sample_count :: nat
  dr_unmapped_statuses :: "string list"
  dr_warnings :: "string list"

section \<open>The statistical reading\<close>

definition add_value :: "string \<times> json \<Rightarrow> (string, json list) dict \<Rightarrow> (string, json list) dict" where
  "add_value = (\<lambda>(path, v) values.
     if none_or_empty v then values
     else dict_set path ((case dict_get values path of None \<Rightarrow> [] | Some vs \<Rightarrow> vs) @ [v]) values)"

definition path_values :: "flat list \<Rightarrow> (string, json list) dict" where
  "path_values samples = fold (\<lambda>flat values. fold add_value flat values) samples []"

definition name_score :: "string \<Rightarrow> string list \<Rightarrow> nat" where
  "name_score path keys =
     (let leaf = last_segment path in
      if leaf \<in> set keys then length keys - length (takeWhile (\<lambda>k. k \<noteq> leaf) keys)
      else if list_ex (\<lambda>k. contains (lower k) (lower leaf)) keys then 1 else 0)"

text \<open>The paths that satisfy the predicate; an exception of the predicate ends the loop.\<close>

fun satisfying ::
  "(string \<Rightarrow> json list \<Rightarrow> bool result) \<Rightarrow> (string, json list) dict \<Rightarrow> (string, json list) dict result" where
  "satisfying good [] = Inr []"
| "satisfying good ((path, seen) # rest) =
     and_then (good path seen) (\<lambda>ok. and_then (satisfying good rest) (\<lambda>paths.
       Inr (if ok then (path, seen) # paths else paths)))"

definition rank ::
  "(string, json list) dict \<Rightarrow> nat \<Rightarrow> string list \<Rightarrow> (string \<Rightarrow> json list \<Rightarrow> bool result) \<Rightarrow>
     string list result" where
  "rank values n keys good =
     and_then (satisfying good values) (\<lambda>paths.
       let scored = sort_key (\<lambda>(score, coverage, path). (- int score, - int coverage, path))
             (map (\<lambda>(path, seen). (name_score path keys, length seen, path)) paths)
       in Inr (map (\<lambda>(score, coverage, path). path)
            (filter (\<lambda>(score, coverage, path). 0 < score \<or> coverage = n) scored)))"

text \<open>\<open>all(parse_timestamp(value) is not None for value in seen)\<close>, which stops at the first failure.\<close>

fun all_times :: "json list \<Rightarrow> bool result" where
  "all_times [] = Inr True"
| "all_times (v # vs) = and_then (parse_timestamp v) (\<lambda>t. if t = None then Inr False else all_times vs)"

definition looks_like_identifier :: "string \<Rightarrow> json list \<Rightarrow> bool result" where
  "looks_like_identifier path seen =
     (if \<not> list_all is_str_or_int seen then Inr False
      else and_then (all_times seen) (\<lambda>times.
        if times then Inr False
        else let different = length (remdups (map py_str seen))
             in Inr (different = length seen \<and> 0 < different)))"

definition looks_like_status :: "string \<Rightarrow> json list \<Rightarrow> bool result" where
  "looks_like_status path seen = Inr
     (if \<not> list_all is_str seen then False
      else if list_ex (\<lambda>v. MAX_STATUS_LENGTH < length (py_str v)) seen then False
      else if list_ex (\<lambda>v. list_ex is_digit (py_str v)) seen then False
      else
        let different = length (remdups (map (\<lambda>v. lower (strip (py_str v))) seen)) in
        if different = 1 \<or> length seen = 1 then 0 < name_score path STATUS_KEYS else True)"

definition looks_like_time :: "string \<Rightarrow> json list \<Rightarrow> bool result" where
  "looks_like_time path seen = all_times seen"

definition classify_entity_type :: "flat list \<Rightarrow> string option \<Rightarrow> string" where
  "classify_entity_type samples id_path =
     (let leaf = lower (last_segment (case id_path of None \<Rightarrow> [] | Some p \<Rightarrow> p)) in
      if leaf \<in> set SHIPMENT_ID_KEYS then entity_type_value SHIPMENT
      else if leaf \<in> set INVOICE_ID_KEYS then entity_type_value INVOICE
      else
        let blob = hint_blob (concat samples);
            shipment = count_hints SHIPMENT_HINTS blob;
            invoice = count_hints INVOICE_HINTS blob in
        if invoice < shipment \<and> 0 < shipment then entity_type_value SHIPMENT
        else if shipment < invoice \<and> 0 < invoice then entity_type_value INVOICE
        else [])"

definition status_table :: "string \<Rightarrow> (string, string) dict" where
  "status_table et =
     (if et = entity_type_value SHIPMENT then SHIPMENT_STATUS
      else if et = entity_type_value INVOICE then INVOICE_STATUS else [])"

definition match_token :: "(string, string) dict \<Rightarrow> string \<Rightarrow> string option" where
  "match_token tab token =
     (case dict_get tab token of
        Some st \<Rightarrow> Some st
      | None \<Rightarrow>
          (case find (\<lambda>s. dict_get tab s \<noteq> None) (token_suffixes token) of
             None \<Rightarrow> None | Some s \<Rightarrow> dict_get tab s))"

definition map_statuses :: "string \<Rightarrow> string list \<Rightarrow> (string, string option) dict \<times> string list" where
  "map_statuses et tokens =
     (let mapping = fold (\<lambda>t m. dict_set t (match_token (status_table et) t) m) tokens []
      in (mapping, sort (remdups (filter (\<lambda>t. match_token (status_table et) t = None) tokens))))"

definition no_identifier_warning :: string where
  "no_identifier_warning =
     ''no field varied across every sample, so no identifier could be picked out; send more samples or set id_paths by hand''"

definition discover_statistically :: "string \<Rightarrow> json list \<Rightarrow> discovery_result result" where
  "discover_statistically vendor payloads =
     (let samples = map (\<lambda>p. flatten_payload p []) payloads;
          values = path_values samples;
          n = length samples
      in and_then (rank values n ID_KEYS looks_like_identifier) (\<lambda>id_paths.
         and_then (rank values n STATUS_KEYS looks_like_status) (\<lambda>status_paths.
         and_then (rank values n TIME_KEYS looks_like_time) (\<lambda>time_paths.
           let et = classify_entity_type samples (case id_paths of [] \<Rightarrow> None | p # _ \<Rightarrow> Some p);
               tokens = (case status_paths of
                           [] \<Rightarrow> []
                         | p # _ \<Rightarrow> map status_token (case dict_get values p of None \<Rightarrow> [] | Some vs \<Rightarrow> vs));
               (status_map, unmapped) = map_statuses et (sort (remdups tokens));
               warnings = (if id_paths = [] then [no_identifier_warning] else [])
                 @ (if status_paths = [] then [''no field looked like a status vocabulary''] else [])
                 @ (if et = [] then [''samples did not clearly say whether these are shipments or invoices'']
                    else [])
           in Inr \<lparr> dr_profile =
                      \<lparr> vs_vendor = vendor, vs_entity_type = et,
                        vs_id_paths = take 4 id_paths, vs_status_paths = take 4 status_paths,
                        vs_time_paths = take 4 time_paths, vs_status_map = drop_unmapped status_map,
                        vs_source = profile_source_value DISCOVERED, vs_sample_count = n,
                        vs_notes = [] \<rparr>,
                    dr_method = STATISTICAL, dr_sample_count = n,
                    dr_unmapped_statuses = unmapped, dr_warnings = warnings \<rparr>))))"

section \<open>The model-assisted reading\<close>

definition DISCOVERY_SYSTEM_PROMPT :: string where
  \<open>DISCOVERY_SYSTEM_PROMPT = join newline
     [''You infer the schema of a vendor's webhook payloads.'',
      ''You return only valid JSON and no additional text.'']\<close>

definition discovery_rules :: "string list" where
  \<open>discovery_rules =
     [''flattened to dotted paths. Infer where each canonical field lives and what the'',
      ''vendor's status words mean.'',
      '''',
      ''Rules:'',
      ''1) Every path you return MUST appear verbatim in the samples below.'',
      ''2) entity_type is one of SHIPMENT, INVOICE, UNCLASSIFIED, or "" if unclear.'',
      ''3) SHIPMENT statuses map to: PICKED_UP, IN_TRANSIT, OUT_FOR_DELIVERY, DELIVERED.'',
      ''4) INVOICE statuses map to: ISSUED, PAID, VOIDED, REFUNDED.'',
      ''5) Map a vendor status word to null when you are not sure. Guessing here is'',
      ''   worse than leaving it out: an unmapped word is held for review, a wrongly'',
      ''   mapped one becomes a fact.'',
      ''6) Order paths most reliable first.'',
      '''',
      ''Return JSON:'',
      ''{'',
      ''  "entity_type": "SHIPMENT|INVOICE|UNCLASSIFIED|",'',
      ''  "id_paths": ["string"],'',
      ''  "status_paths": ["string"],'',
      ''  "time_paths": ["string"],'',
      ''  "status_map": {"vendor_word": "CANONICAL_STATUS_OR_NULL"},'',
      ''  "notes": "one sentence on anything odd about this vendor"'',
      ''}'',
      '''',
      ''Samples:'']\<close>

text \<open>\<open>json.dumps\<close> with an indent of two, at some depth.\<close>

definition indent :: "nat \<Rightarrow> string" where
  "indent depth = newline @ replicate (2 * depth) (CHR '' '')"

definition bracketed :: "char \<Rightarrow> char \<Rightarrow> nat \<Rightarrow> string list \<Rightarrow> string" where
  "bracketed l r depth parts =
     (if parts = [] then [l, r]
      else [l] @ indent (depth + 1) @ join ('','' @ indent (depth + 1)) parts @ indent depth @ [r])"

primrec json_indented :: "json \<Rightarrow> nat \<Rightarrow> string" where
  "json_indented JNull = (\<lambda>d. json_text JNull)"
| "json_indented (JBool b) = (\<lambda>d. json_text (JBool b))"
| "json_indented (JInt i) = (\<lambda>d. json_text (JInt i))"
| "json_indented (JFloat m e) = (\<lambda>d. json_text (JFloat m e))"
| "json_indented JNaN = (\<lambda>d. json_text JNaN)"
| "json_indented (JInf b) = (\<lambda>d. json_text (JInf b))"
| "json_indented (JStr s) = (\<lambda>d. json_text (JStr s))"
| "json_indented (JArr xs) =
     (\<lambda>d. bracketed (CHR ''['') (CHR '']'') d (map (\<lambda>f. f (d + 1)) (map json_indented xs)))"
| "json_indented (JObj kvs) =
     (\<lambda>d. bracketed (CHR ''{'') (CHR ''}'') d
        (map (\<lambda>(k, f). json_string k @ '': '' @ f (d + 1)) (map (map_prod id json_indented) kvs)))"

definition discovery_prompt :: "string \<Rightarrow> flat list \<Rightarrow> string" where
  "discovery_prompt vendor shown =
     join newline
       ([''Here are '' @ nat_str (length shown) @ '' sample webhook payloads from the vendor '' @ [CHR 0x22]
         @ vendor @ [CHR 0x22] @ '', already'']
        @ discovery_rules @ [json_indented (JArr (map JObj shown)) 0])"

definition ask_model :: "client \<Rightarrow> string \<Rightarrow> flat list \<Rightarrow> json result" where
  "ask_model client vendor samples =
     (case client DISCOVERY_SYSTEM_PROMPT (discovery_prompt vendor (take MAX_LLM_SAMPLES samples)) of
        ApiFailure m \<Rightarrow> Inl (OtherException m)
      | OtherFailure m \<Rightarrow> Inl (OtherException m)
      | Completed choices model \<Rightarrow>
          (case choices of
             [] \<Rightarrow> Inl (OtherException ''list index out of range'')
           | content # _ \<Rightarrow>
               json_loads (case content of None \<Rightarrow> ''{}'' | Some t \<Rightarrow> if t = [] then ''{}'' else t)))"

definition canonical_values :: "string \<Rightarrow> string list" where
  "canonical_values et = map snd (status_table et)"

text \<open>The items of \<open>raw or []\<close> in a \<open>for\<close> loop.\<close>

definition loop_items :: "json \<Rightarrow> json list result" where
  "loop_items raw =
     (if \<not> truthy raw then Inr []
      else case raw of
        JArr xs \<Rightarrow> Inr xs
      | JStr s \<Rightarrow> Inr (map (\<lambda>c. JStr [c]) s)
      | JObj kvs \<Rightarrow> Inr (map (\<lambda>(k, v). JStr k) kvs)
      | _ \<Rightarrow> Inl (TypeError ''object is not iterable''))"

text \<open>\<open>keep_paths\<close>: the paths kept, and the warnings with the one it may add.\<close>

definition keep_paths ::
  "string list \<Rightarrow> json \<Rightarrow> string list \<Rightarrow> string list \<Rightarrow> (string list \<times> string list) result" where
  "keep_paths known raw existing warnings =
     and_then (loop_items raw) (\<lambda>items.
       let proposed = map py_str (filter is_str_or_int items);
           valid = filter (\<lambda>p. p \<in> set known) proposed;
           dropped = length proposed - length valid
       in Inr (valid @ filter (\<lambda>p. p \<notin> set valid) existing,
               warnings @ (if dropped \<noteq> 0
                 then [''dropped '' @ nat_str dropped @ '' proposed path(s) that are not in the samples'']
                 else [])))"

text \<open>One round of the loop over the proposed status map: the map, the unmapped words, the warnings.\<close>

definition merge_status ::
  "string list \<Rightarrow> string \<times> json \<Rightarrow> (string, string) dict \<times> string list \<times> string list \<Rightarrow>
     (string, string) dict \<times> string list \<times> string list" where
  "merge_status allowed = (\<lambda>(token, canonical) (m, unmapped, warnings).
     if canonical = JNull then (m, unmapped, warnings)
     else let t = status_token (JStr token); c = upper (py_str canonical) in
       if c \<notin> set allowed
       then (m, unmapped,
             warnings @ [''ignored status mapping '' @ str_repr t @ '' -> '' @ str_repr c @ '': not canonical''])
       else (dict_set t c m, filter (\<lambda>u. u \<noteq> t) unmapped, warnings))"

definition proposed_statuses :: "json \<Rightarrow> (string \<times> json) list result" where
  "proposed_statuses raw =
     (if \<not> truthy raw then Inr []
      else case raw of JObj kvs \<Rightarrow> Inr kvs | _ \<Rightarrow> Inl (OtherException ''object has no attribute items''))"

text \<open>The entity type of the merged profile, and a warning if the proposed one is not known.\<close>

definition merged_type :: "vendor_profile_spec \<Rightarrow> json \<Rightarrow> string \<times> string list" where
  "merged_type p proposal =
     (let proposed = obj_get proposal ''entity_type'';
          et = upper (if truthy proposed then py_str proposed else vs_entity_type p)
      in if et \<in> set EntityType_values \<or> et = [] then (et, [])
         else (vs_entity_type p, [''ignored unrecognised entity_type '' @ str_repr et @ '' from the model'']))"

definition merge_model_proposal :: "discovery_result \<Rightarrow> json \<Rightarrow> flat list \<Rightarrow> discovery_result result" where
  "merge_model_proposal base proposal samples =
     (if \<not> is_object proposal then Inl (OtherException ''object has no attribute get'') else
      let known = concat (map dict_keys samples);
          p = dr_profile base;
          (et, type_warnings) = merged_type p proposal;
          notes = obj_get proposal ''notes''
      in and_then (proposed_statuses (obj_get proposal ''status_map'')) (\<lambda>entries.
         let (status_map, unmapped, warnings1) =
               fold (merge_status (canonical_values et)) entries
                 (vs_status_map p, dr_unmapped_statuses base, dr_warnings base @ type_warnings)
         in and_then (keep_paths known (obj_get proposal ''id_paths'') (vs_id_paths p) warnings1)
              (\<lambda>(id_paths, warnings2).
            and_then (keep_paths known (obj_get proposal ''status_paths'') (vs_status_paths p) warnings2)
              (\<lambda>(status_paths, warnings3).
            and_then (keep_paths known (obj_get proposal ''time_paths'') (vs_time_paths p) warnings3)
              (\<lambda>(time_paths, warnings4).
              Inr \<lparr> dr_profile =
                      \<lparr> vs_vendor = vs_vendor p, vs_entity_type = et,
                        vs_id_paths = take 4 id_paths, vs_status_paths = take 4 status_paths,
                        vs_time_paths = take 4 time_paths, vs_status_map = status_map,
                        vs_source = profile_source_value DISCOVERED,
                        vs_sample_count = dr_sample_count base,
                        vs_notes = take 500 (strip (if truthy notes then py_str notes else [])) \<rparr>,
                    dr_method = MODEL_ASSISTED, dr_sample_count = dr_sample_count base,
                    dr_unmapped_statuses = sort unmapped, dr_warnings = warnings4 \<rparr>)))))"

definition discover_profile ::
  "settings \<Rightarrow> client \<Rightarrow> string \<Rightarrow> json list \<Rightarrow> bool option \<Rightarrow> discovery_result result" where
  "discover_profile cfg client vendor payloads use_model =
     (let kept = filter (\<lambda>p. is_object p \<and> truthy p) payloads in
      if kept = [] then Inl (DiscoveryError ''At least one non-empty JSON object sample is required.'')
      else and_then (discover_statistically vendor kept) (\<lambda>base.
        if \<not> (case use_model of None \<Rightarrow> OPENAI_API_KEY cfg \<noteq> [] | Some b \<Rightarrow> b) then Inr base
        else
          let samples = map (\<lambda>p. flatten_payload p []) kept in
          case ask_model client vendor samples of
            Inl e \<Rightarrow> Inr (base \<lparr> dr_method := STATISTICAL,
                                dr_warnings := dr_warnings base @
                                  [''model-assisted discovery failed: '' @ exn_str e] \<rparr>)
          | Inr proposal \<Rightarrow> merge_model_proposal base proposal samples))"

text \<open>A \<open>Counter\<close>, in order of first occurrence.\<close>

definition sample_status_counts :: "json list \<Rightarrow> string \<Rightarrow> (string, nat) dict" where
  "sample_status_counts payloads status_path =
     (let flats = map (\<lambda>p. flatten_payload p []) payloads;
          tokens = concat (map (\<lambda>flat. case dict_get flat status_path of
                      None \<Rightarrow> [] | Some v \<Rightarrow> if none_or_empty v then [] else [status_token v]) flats)
      in fold (\<lambda>t m. dict_set t ((case dict_get m t of None \<Rightarrow> 0 | Some n \<Rightarrow> n) + 1) m) tokens [])"

section \<open>The endpoint and the command\<close>

text \<open>The body of a request once its fields have the types the serializer declares.\<close>

record discovery_request =
  dq_vendor :: string
  dq_samples :: "json list"
  dq_persist :: bool
  dq_use_model :: "bool option"

definition valid_discovery_request :: "discovery_request \<Rightarrow> bool" where
  "valid_discovery_request rq \<longleftrightarrow>
     dq_vendor rq \<noteq> [] \<and> length (dq_vendor rq) \<le> 128 \<and>
     1 \<le> length (dq_samples rq) \<and> length (dq_samples rq) \<le> 50 \<and> list_all is_object (dq_samples rq)"

definition VendorDiscoveryView_post ::
  "settings \<Rightarrow> client \<Rightarrow> discovery_request \<Rightarrow> profile_state \<Rightarrow>
     ((discovery_result \<times> bool) response \<times> profile_state) result" where
  "VendorDiscoveryView_post cfg client rq st =
     (if \<not> valid_discovery_request rq then Inr ((400, Detail ''Invalid input.''), st)
      else case discover_profile cfg client (dq_vendor rq) (dq_samples rq) (dq_use_model rq) of
        Inl e \<Rightarrow> (case e of DiscoveryError m \<Rightarrow> Inr ((400, Detail m), st) | _ \<Rightarrow> Inl e)
      | Inr r \<Rightarrow>
          if dq_persist rq
          then and_then (store_profile (dr_profile r) st) (\<lambda>st'. Inr ((200, Body (r, True)), st'))
          else Inr ((200, Body (r, False)), st))"

text \<open>\<open>_stored\<close>: the last payloads a vendor sent, newest first.\<close>

definition stored_payloads :: "string \<Rightarrow> nat \<Rightarrow> db \<Rightarrow> json list" where
  "stored_payloads vendor limit d =
     map rw_raw_payload (take limit (rev (sort_key rw_received_at
       (filter (\<lambda>w. iexact (rw_vendor w) vendor) (db_webhooks d)))))"

section \<open>Discovery invents nothing\<close>

lemma add_value_keys: "set (dict_keys (add_value (p, v) vals)) \<subseteq> insert p (set (dict_keys vals))"
  unfolding add_value_def by (simp add: dict_keys_set del: set_map) auto

lemma fold_add_value_keys:
  "set (dict_keys (fold add_value flat vals)) \<subseteq> set (dict_keys flat) \<union> set (dict_keys vals)"
proof (induction flat arbitrary: vals)
  case (Cons pv flat)
  obtain p v where pv: "pv = (p, v)" by (cases pv)
  show ?case using Cons.IH [of "add_value pv vals"] add_value_keys [of p v vals] unfolding pv by auto
qed simp

lemma path_values_keys: "set (dict_keys (path_values samples)) \<subseteq> (\<Union>flat \<in> set samples. set (dict_keys flat))"
proof -
  have "set (dict_keys (fold (\<lambda>flat values. fold add_value flat values) samples vals)) \<subseteq>
      (\<Union>flat \<in> set samples. set (dict_keys flat)) \<union> set (dict_keys vals)" for vals
  proof (induction samples arbitrary: vals)
    case (Cons flat samples)
    show ?case using Cons.IH [of "fold add_value flat vals"] fold_add_value_keys [of flat vals] by auto
  qed simp
  from this [of "[]"] show ?thesis by (simp add: path_values_def)
qed

lemma satisfying_sub: "satisfying good vs = Inr ps \<Longrightarrow> set ps \<subseteq> set vs"
proof (induction vs arbitrary: ps)
  case (Cons x vs)
  obtain p seen where x: "x = (p, seen)" by (cases x)
  from Cons.prems obtain ok qs where "satisfying good vs = Inr qs" "ps = (if ok then (p, seen) # qs else qs)"
    by (auto simp: x)
  then show ?case using Cons.IH by (auto simp: x split: if_splits)
qed simp

lemma rank_sub:
  assumes "rank values n keys good = Inr ps" shows "set ps \<subseteq> set (dict_keys values)"
proof -
  obtain qs where q: "satisfying good values = Inr qs" using assms by (auto simp: rank_def)
  have "set ps \<subseteq> fst ` set qs" using assms by (auto simp: rank_def q Let_def rev_image_eqI)
  then show ?thesis using satisfying_sub [OF q] by auto
qed

lemma keep_paths_sub:
  assumes "keep_paths known raw existing ws = Inr (ps, ws')"
  shows "set ps \<subseteq> set known \<union> set existing"
  using assms by (auto simp: keep_paths_def Let_def)

text \<open>What the statistical reading returns.\<close>

lemma discover_statistically_Inr:
  assumes "discover_statistically vendor payloads = Inr r"
  obtains id_paths status_paths time_paths et tokens where
    "rank (path_values (map (\<lambda>p. flatten_payload p []) payloads)) (length payloads) ID_KEYS looks_like_identifier = Inr id_paths"
    "rank (path_values (map (\<lambda>p. flatten_payload p []) payloads)) (length payloads) STATUS_KEYS looks_like_status = Inr status_paths"
    "rank (path_values (map (\<lambda>p. flatten_payload p []) payloads)) (length payloads) TIME_KEYS looks_like_time = Inr time_paths"
    "et \<in> {''SHIPMENT'', ''INVOICE'', ''''}"
    "dr_profile r = \<lparr> vs_vendor = vendor, vs_entity_type = et,
        vs_id_paths = take 4 id_paths, vs_status_paths = take 4 status_paths,
        vs_time_paths = take 4 time_paths, vs_status_map = drop_unmapped (fst (map_statuses et tokens)),
        vs_source = ''DISCOVERED'', vs_sample_count = length payloads, vs_notes = [] \<rparr>"
    "dr_method r = STATISTICAL" "dr_sample_count r = length payloads"
proof -
  have et: "classify_entity_type samples p \<in> {''SHIPMENT'', ''INVOICE'', ''''}" for samples p
    by (simp add: classify_entity_type_def Let_def)
  define vals where "vals = path_values (map (\<lambda>p. flatten_payload p []) payloads)"
  note d = assms [unfolded discover_statistically_def Let_def length_map, folded vals_def]
  obtain ids where ids: "rank vals (length payloads) ID_KEYS looks_like_identifier = Inr ids"
    by (rule and_then_InrE [OF d])
  obtain sts where sts: "rank vals (length payloads) STATUS_KEYS looks_like_status = Inr sts"
    using d unfolding ids and_then.simps by (rule and_then_InrE)
  obtain ts where ts: "rank vals (length payloads) TIME_KEYS looks_like_time = Inr ts"
    using d unfolding ids sts and_then.simps by (rule and_then_InrE)
  from d show ?thesis unfolding ids sts ts and_then.simps
    by (intro that [OF ids [unfolded vals_def] sts [unfolded vals_def] ts [unfolded vals_def] et])
       (auto simp: case_prod_unfold)
qed

text \<open>What a merge that returns was made of.\<close>

lemma merge_Inr:
  assumes "merge_model_proposal base proposal samples = Inr r"
  obtains entries ids sts ts w1 w2 w3 w4 et m u tw nts where
    "is_object proposal" "merged_type (dr_profile base) proposal = (et, tw)"
    "proposed_statuses (obj_get proposal ''status_map'') = Inr entries"
    "fold (merge_status (canonical_values et)) entries
       (vs_status_map (dr_profile base), dr_unmapped_statuses base, dr_warnings base @ tw) = (m, u, w1)"
    "keep_paths (concat (map dict_keys samples)) (obj_get proposal ''id_paths'') (vs_id_paths (dr_profile base)) w1 = Inr (ids, w2)"
    "keep_paths (concat (map dict_keys samples)) (obj_get proposal ''status_paths'') (vs_status_paths (dr_profile base)) w2 = Inr (sts, w3)"
    "keep_paths (concat (map dict_keys samples)) (obj_get proposal ''time_paths'') (vs_time_paths (dr_profile base)) w3 = Inr (ts, w4)"
    "dr_profile r = \<lparr> vs_vendor = vs_vendor (dr_profile base), vs_entity_type = et, vs_id_paths = take 4 ids,
        vs_status_paths = take 4 sts, vs_time_paths = take 4 ts, vs_status_map = m,
        vs_source = ''DISCOVERED'', vs_sample_count = dr_sample_count base,
        vs_notes = nts \<rparr>"
    "dr_method r = MODEL_ASSISTED" "dr_sample_count r = dr_sample_count base"
proof -
  let ?known = "concat (map dict_keys samples)" and ?p = "dr_profile base"
  have o: "is_object proposal" using assms by (auto simp: merge_model_proposal_def split: if_splits)
  obtain et tw where t: "merged_type ?p proposal = (et, tw)" by (cases "merged_type ?p proposal")
  note m1 = assms [unfolded merge_model_proposal_def Let_def t case_prod_conv]
  obtain entries where e: "proposed_statuses (obj_get proposal ''status_map'') = Inr entries"
    using m1 o by (cases "proposed_statuses (obj_get proposal ''status_map'')") simp_all
  obtain m u w1 where f: "fold (merge_status (canonical_values et)) entries
       (vs_status_map ?p, dr_unmapped_statuses base, dr_warnings base @ tw) = (m, u, w1)"
    by (metis prod.exhaust)
  note m3 = m1 [unfolded e and_then.simps f case_prod_conv]
  obtain ids w2 where k1: "keep_paths ?known (obj_get proposal ''id_paths'') (vs_id_paths ?p) w1 = Inr (ids, w2)"
    using m3 o by (cases "keep_paths ?known (obj_get proposal ''id_paths'') (vs_id_paths ?p) w1") auto
  note m4 = m3 [unfolded k1 and_then.simps case_prod_conv]
  obtain sts w3 where k2: "keep_paths ?known (obj_get proposal ''status_paths'') (vs_status_paths ?p) w2 = Inr (sts, w3)"
    using m4 o by (cases "keep_paths ?known (obj_get proposal ''status_paths'') (vs_status_paths ?p) w2") auto
  note m5 = m4 [unfolded k2 and_then.simps case_prod_conv]
  obtain ts w4 where k3: "keep_paths ?known (obj_get proposal ''time_paths'') (vs_time_paths ?p) w3 = Inr (ts, w4)"
    using m5 o by (cases "keep_paths ?known (obj_get proposal ''time_paths'') (vs_time_paths ?p) w3") auto
  note m6 = m5 [unfolded k3 and_then.simps case_prod_conv]
  show ?thesis by (rule that [OF o t e f k1 k2 k3]) (use m6 o in auto)
qed

section \<open>Properties of discovery\<close>

text \<open>The samples discovery looks at.\<close>

abbreviation usable :: "json list \<Rightarrow> json list" where
  "usable payloads \<equiv> filter (\<lambda>p. is_object p \<and> truthy p) payloads"

lemma discover_profile_Inr:
  assumes "discover_profile cfg client vendor payloads use_model = Inr r"
  obtains (statistical) base ws where "discover_statistically vendor (usable payloads) = Inr base"
      "r = base \<lparr> dr_method := STATISTICAL, dr_warnings := ws \<rparr>" "usable payloads \<noteq> []"
    | (merged) base proposal where "discover_statistically vendor (usable payloads) = Inr base"
      "ask_model client vendor (map (\<lambda>p. flatten_payload p []) (usable payloads)) = Inr proposal"
      "merge_model_proposal base proposal (map (\<lambda>p. flatten_payload p []) (usable payloads)) = Inr r"
      "usable payloads \<noteq> []"
proof -
  have ne: "usable payloads \<noteq> []" using assms unfolding discover_profile_def Let_def by (auto simp: Let_def)
  obtain base where b: "discover_statistically vendor (usable payloads) = Inr base"
    using assms ne by (cases "discover_statistically vendor (usable payloads)") (simp_all add: discover_profile_def Let_def)
  have base: "base = base \<lparr> dr_method := STATISTICAL, dr_warnings := dr_warnings base \<rparr>"
    by (rule discover_statistically_Inr [OF b]) (cases base, simp)
  show ?thesis
  proof (cases "case use_model of None \<Rightarrow> OPENAI_API_KEY cfg \<noteq> [] | Some b \<Rightarrow> b")
    case False
    then have "r = base" using assms ne b by (simp add: discover_profile_def Let_def)
    then show ?thesis using statistical [OF b] base ne by metis
  next
    case True
    show ?thesis
    proof (cases "ask_model client vendor (map (\<lambda>p. flatten_payload p []) (usable payloads))")
      case (Inl e)
      then show ?thesis using assms ne b True by (intro statistical [OF b]) (auto simp: discover_profile_def Let_def)
    next
      case (Inr proposal)
      then show ?thesis using assms ne b True by (intro merged [OF b Inr]) (auto simp: discover_profile_def Let_def)
    qed
  qed
qed

abbreviation profile_paths :: "vendor_profile_spec \<Rightarrow> string set" where
  "profile_paths p \<equiv> set (vs_id_paths p) \<union> set (vs_status_paths p) \<union> set (vs_time_paths p)"

abbreviation sample_paths :: "json list \<Rightarrow> string set" where
  "sample_paths payloads \<equiv> (\<Union>p \<in> set payloads. set (dict_keys (flatten_payload p [])))"

lemma statistical_paths:
  assumes "discover_statistically vendor payloads = Inr r"
  shows "profile_paths (dr_profile r) \<subseteq> sample_paths payloads"
  using assms
proof (cases rule: discover_statistically_Inr)
  case (1 ids sts ts et tokens)
  have sub: "set (dict_keys (path_values (map (\<lambda>p. flatten_payload p []) payloads))) \<subseteq> sample_paths payloads"
    using path_values_keys [of "map (\<lambda>p. flatten_payload p []) payloads"] by simp
  show ?thesis using rank_sub [OF 1(1)] rank_sub [OF 1(2)] rank_sub [OF 1(3)] sub unfolding 1(5)
    by (auto dest!: in_set_takeD)
qed

text \<open>Whatever the model proposes, every path of a discovered profile occurs in one of the
  samples, at most four of each kind are kept, and the profile is the requested vendor's.\<close>

theorem discovered_paths_exist:
  assumes "discover_profile cfg client vendor payloads use_model = Inr r"
  shows "profile_paths (dr_profile r) \<subseteq> sample_paths (usable payloads) \<and>
    length (vs_id_paths (dr_profile r)) \<le> 4 \<and> length (vs_status_paths (dr_profile r)) \<le> 4 \<and>
    length (vs_time_paths (dr_profile r)) \<le> 4 \<and> vs_vendor (dr_profile r) = vendor \<and>
    vs_sample_count (dr_profile r) = length (usable payloads)"
  using assms
proof (cases rule: discover_profile_Inr)
  case (statistical base ws)
  have "dr_profile r = dr_profile base" using statistical(2) by simp
  moreover have "length (vs_id_paths (dr_profile base)) \<le> 4 \<and> length (vs_status_paths (dr_profile base)) \<le> 4 \<and>
      length (vs_time_paths (dr_profile base)) \<le> 4 \<and> vs_vendor (dr_profile base) = vendor \<and>
      vs_sample_count (dr_profile base) = length (usable payloads)"
    by (rule discover_statistically_Inr [OF statistical(1)]) simp
  ultimately show ?thesis using statistical_paths [OF statistical(1)] by simp
next
  case (merged base proposal)
  note sub = statistical_paths [OF merged(1)]
  from merged(3) show ?thesis
  proof (cases rule: merge_Inr)
    case (1 entries ids sts ts w1 w2 w3 w4 et m u tw nts)
    define K where "K = sample_paths (usable payloads)"
    have known: "set (concat (map dict_keys (map (\<lambda>p. flatten_payload p []) (usable payloads)))) = K"
      by (simp add: K_def)
    have base: "set (vs_id_paths (dr_profile base)) \<subseteq> K" "set (vs_status_paths (dr_profile base)) \<subseteq> K"
        "set (vs_time_paths (dr_profile base)) \<subseteq> K"
      using sub unfolding K_def by auto
    have "set ids \<subseteq> K" "set sts \<subseteq> K" "set ts \<subseteq> K"
      using keep_paths_sub [OF 1(5), unfolded known] keep_paths_sub [OF 1(6), unfolded known]
        keep_paths_sub [OF 1(7), unfolded known] base by (meson Un_least order.trans subset_refl)+
    then have "profile_paths (dr_profile r) \<subseteq> K"
      unfolding 1(8) vendor_profile_spec.simps by (meson Un_least order.trans set_take_subset)
    then have "profile_paths (dr_profile r) \<subseteq> sample_paths (usable payloads)" by (simp only: K_def)
    moreover have "vs_vendor (dr_profile base) = vendor" "dr_sample_count base = length (usable payloads)"
      by (rule discover_statistically_Inr [OF merged(1)]; simp)+
    ultimately show ?thesis by (simp add: 1(8))
  qed
qed

lemma canonical_values_pair: "c \<in> set (canonical_values et) \<Longrightarrow> canonical_pair et c"
proof -
  have "dict_get ALLOWED_STATUSES ''SHIPMENT'' = Some ShipmentStatus_values"
      "dict_get ALLOWED_STATUSES ''INVOICE'' = Some InvoiceStatus_values"
      "list_all (\<lambda>c. c \<in> set ShipmentStatus_values) (map snd SHIPMENT_STATUS)"
      "list_all (\<lambda>c. c \<in> set InvoiceStatus_values) (map snd INVOICE_STATUS)" by code_simp+
  then have t: "list_all (canonical_pair ''SHIPMENT'') (map snd SHIPMENT_STATUS)"
      "list_all (canonical_pair ''INVOICE'') (map snd INVOICE_STATUS)"
    unfolding canonical_pair_def list_all_iff by simp_all
  show "c \<in> set (canonical_values et) \<Longrightarrow> canonical_pair et c"
    using t unfolding canonical_values_def status_table_def list_all_iff entity_type_value.simps
    by (auto split: if_splits)
qed

lemma in_dict_set: "x \<in> set (dict_set k v d) \<Longrightarrow> x = (k, v) \<or> x \<in> set d"
  by (induction d) (auto split: if_splits)

lemma match_token_canonical: "match_token (status_table et) t = Some c \<Longrightarrow> c \<in> set (canonical_values et)"
  by (auto simp: match_token_def canonical_values_def split: option.splits dest!: map_of_SomeD intro: rev_image_eqI)

lemma map_statuses_canonical:
  "(t, Some c) \<in> set (fst (map_statuses et tokens)) \<Longrightarrow> c \<in> set (canonical_values et)"
proof -
  have "(\<forall>(t, c) \<in> set m. \<forall>x. c = Some x \<longrightarrow> x \<in> set (canonical_values et)) \<Longrightarrow>
    \<forall>(t, c) \<in> set (fold (\<lambda>t m. dict_set t (match_token (status_table et) t) m) tokens m).
      \<forall>x. c = Some x \<longrightarrow> x \<in> set (canonical_values et)" for m
  proof (induction tokens arbitrary: m)
    case (Cons t tokens)
    have "\<forall>(s, c) \<in> set (dict_set t (match_token (status_table et) t) m). \<forall>x. c = Some x \<longrightarrow> x \<in> set (canonical_values et)"
      using Cons.prems match_token_canonical by (auto dest!: in_dict_set)
    then show ?case using Cons.IH by simp
  qed simp
  from this [of "[]"] show "(t, Some c) \<in> set (fst (map_statuses et tokens)) \<Longrightarrow> c \<in> set (canonical_values et)"
    by (auto simp: map_statuses_def)
qed

lemma statistical_canonical:
  assumes "discover_statistically vendor samples = Inr base"
  shows "(vs_entity_type (dr_profile base) \<in> set EntityType_values \<or> vs_entity_type (dr_profile base) = []) \<and>
    (\<forall>(t, c) \<in> set (vs_status_map (dr_profile base)). c \<in> set (canonical_values (vs_entity_type (dr_profile base))))"
proof (rule discover_statistically_Inr [OF assms])
  fix ids sts ts et tokens
  assume et: "et \<in> {''SHIPMENT'', ''INVOICE'', ''''}" and p: "dr_profile base = \<lparr> vs_vendor = vendor, vs_entity_type = et,
      vs_id_paths = take 4 ids, vs_status_paths = take 4 sts,
      vs_time_paths = take 4 ts, vs_status_map = drop_unmapped (fst (map_statuses et tokens)),
      vs_source = ''DISCOVERED'', vs_sample_count = length samples, vs_notes = [] \<rparr>"
  have "et \<in> set EntityType_values \<or> et = []" using et by (auto simp: EntityType_values_def)
  moreover have "c \<in> set (canonical_values et)" if "(t, c) \<in> set (drop_unmapped (fst (map_statuses et tokens)))" for t c
    using that map_statuses_canonical by (auto simp: drop_unmapped_def)
  ultimately show ?thesis unfolding p by auto
qed

lemma merging_keeps_canonical:
  assumes "fold (merge_status canonical) es (m0, u0, w0) = (m, u, w)" "\<forall>(t, c) \<in> set m0. c \<in> set canonical"
  shows "\<forall>(t, c) \<in> set m. c \<in> set canonical"
  using assms
proof (induction es arbitrary: m0 u0 w0)
  case (Cons e es)
  obtain m1 u1 w1 where s: "merge_status canonical e (m0, u0, w0) = (m1, u1, w1)"
    by (metis prod.exhaust)
  have "\<forall>(t, c) \<in> set m1. c \<in> set canonical"
    using s Cons.prems(2) by (auto simp: merge_status_def Let_def split: prod.splits if_splits dest!: in_dict_set)
  then show ?case using Cons.IH [of m1 u1 w1] Cons.prems(1) s by simp
qed simp

text \<open>C30. A discovered profile is canonical, i.e.\ what the write endpoint would accept, unless the model
  changed the entity type that the statistical reading had mapped statuses for.\<close>

theorem discovered_profile_is_canonical:
  assumes "discover_profile cfg client vendor payloads use_model = Inr r"
    and "discover_statistically vendor (usable payloads) = Inr base"
    and "vs_entity_type (dr_profile r) = vs_entity_type (dr_profile base) \<or> vs_status_map (dr_profile base) = []"
  shows "canonical_profile (Some (dr_profile r))"
proof -
  note base = statistical_canonical [OF assms(2)]
  from assms(1) show ?thesis
  proof (cases rule: discover_profile_Inr)
    case (statistical b ws)
    then have "dr_profile r = dr_profile base" using assms(2) by simp
    then show ?thesis using base canonical_values_pair
      by (auto simp: canonical_profile_def forced_type_def profile_map_def)
  next
    case (merged b proposal)
    then have b: "b = base" using assms(2) by simp
    from merged(3) show ?thesis unfolding b
    proof (cases rule: merge_Inr)
      case (1 entries ids sts ts w1 w2 w3 w4 et m u tw nts)
      have et: "et \<in> set EntityType_values \<or> et = []"
        using 1(2) base by (auto simp: merged_type_def Let_def split: if_splits)
      have start: "\<forall>(t, c) \<in> set (vs_status_map (dr_profile base)). c \<in> set (canonical_values et)"
        using assms(3) base unfolding 1(8) by auto
      show ?thesis using merging_keeps_canonical [OF 1(4) start] et canonical_values_pair
        by (auto simp: canonical_profile_def forced_type_def profile_map_def 1(8))
    qed
  qed
qed

text \<open>Identifiers that are numbers are never found: whole numbers up to 10^11 all read as timestamps,
  so a field of them is taken for a time and not for an identifier.\<close>

lemma small_number_is_time:
  assumes "0 \<le> i" "i \<le> 100000000000"
  shows "\<exists>t. parse_timestamp (JInt i) = Inr (Some t)"
proof -
  have "(100000000000 :: rat) < float_limit" by (simp add: float_limit_def)
  moreover have i: "of_int i \<le> (100000000000 :: rat)" using assms(2) by linarith
  ultimately have f: "py_float (JInt i) = Inr (Fin (of_int i))" using assms(1) by simp
  have us: "round_half_even (of_int i * 1000000) = i * 1000000"
    using round_half_even_of_int [of "i * 1000000"] by simp
  have "0 \<le> i * 1000000 div day_micros" "i * 1000000 div day_micros \<le> 1157408"
    using assms by (simp_all add: day_micros_def)
  then have "\<exists>t. fromtimestamp (Fin (of_int i)) = Some t"
    by (simp add: fromtimestamp_def us Let_def split: prod.split)
  then show ?thesis using f i by (simp add: from_number_def)
qed

lemma all_times_numbers:
  "\<forall>v \<in> set seen. \<exists>i. v = JInt i \<and> 0 \<le> i \<and> i \<le> 100000000000 \<Longrightarrow> all_times seen = Inr True"
proof (induction seen)
  case (Cons v seen)
  then obtain i where "v = JInt i" "0 \<le> i" "i \<le> 100000000000" by auto
  then obtain t where "parse_timestamp v = Inr (Some t)" using small_number_is_time [of i] by blast
  moreover have "all_times seen = Inr True" using Cons by simp
  ultimately show ?case by simp
qed simp

theorem numeric_identifiers_are_missed:
  assumes "\<forall>v \<in> set seen. \<exists>i. v = JInt i \<and> 0 \<le> i \<and> i \<le> 100000000000"
  shows "looks_like_identifier path seen = Inr False \<and> looks_like_time path seen = Inr True"
proof -
  have "list_all is_str_or_int seen" using assms by (auto simp: list_all_iff)
  then show ?thesis using all_times_numbers [OF assms] by (simp add: looks_like_identifier_def looks_like_time_def)
qed

definition well_shaped :: "json \<Rightarrow> bool" where
  "well_shaped proposal \<longleftrightarrow> is_object proposal \<and>
     (\<exists>kvs. proposed_statuses (obj_get proposal ''status_map'') = Inr kvs) \<and>
     (\<forall>field \<in> {''id_paths'', ''status_paths'', ''time_paths''}. \<exists>xs. loop_items (obj_get proposal field) = Inr xs)"

lemma keep_paths_total: "loop_items raw = Inr xs \<Longrightarrow> \<exists>r. keep_paths known raw existing ws = Inr r"
  by (auto simp: keep_paths_def Let_def)

lemma keep_paths_shape: "keep_paths known raw existing ws = Inr r \<Longrightarrow> \<exists>xs. loop_items raw = Inr xs"
  by (auto simp: keep_paths_def)

lemma merge_total:
  "(\<exists>r. merge_model_proposal base proposal samples = Inr r) \<longleftrightarrow> well_shaped proposal"
proof
  assume "\<exists>r. merge_model_proposal base proposal samples = Inr r"
  then obtain r where "merge_model_proposal base proposal samples = Inr r" by blast
  then show "well_shaped proposal"
  proof (cases rule: merge_Inr)
    case 1
    then show ?thesis using keep_paths_shape unfolding well_shaped_def by blast
  qed
next
  assume w: "well_shaped proposal"
  obtain et tw where t: "merged_type (dr_profile base) proposal = (et, tw)"
    by (cases "merged_type (dr_profile base) proposal")
  obtain kvs where e: "proposed_statuses (obj_get proposal ''status_map'') = Inr kvs" using w by (auto simp: well_shaped_def)
  obtain m u w1 where f: "fold (merge_status (canonical_values et)) kvs
       (vs_status_map (dr_profile base), dr_unmapped_statuses base, dr_warnings base @ tw) = (m, u, w1)"
    by (metis prod.exhaust)
  have k: "\<exists>ps w'. keep_paths known (obj_get proposal field) existing ws = Inr (ps, w')"
    if "field \<in> {''id_paths'', ''status_paths'', ''time_paths''}" for known field existing ws
    using that w keep_paths_total unfolding well_shaped_def by (metis prod.exhaust)
  let ?known = "concat (map dict_keys samples)" and ?p = "dr_profile base"
  obtain ids w2 where k1: "keep_paths ?known (obj_get proposal ''id_paths'') (vs_id_paths ?p) w1 = Inr (ids, w2)"
    using k by blast
  obtain sts w3 where k2: "keep_paths ?known (obj_get proposal ''status_paths'') (vs_status_paths ?p) w2 = Inr (sts, w3)"
    using k by blast
  obtain ts w4 where k3: "keep_paths ?known (obj_get proposal ''time_paths'') (vs_time_paths ?p) w3 = Inr (ts, w4)"
    using k by blast
  show "\<exists>r. merge_model_proposal base proposal samples = Inr r"
    using w unfolding merge_model_proposal_def Let_def t case_prod_conv e and_then.simps f k1 k2 k3
    by (simp add: well_shaped_def)
qed

text \<open>C31. Which replies break discovery: with the model in use and samples the statistical reading
  copes with, discovery returns a proposal exactly unless the model answers JSON that is not an
  object, or whose status map is not an object, or one of whose path fields cannot be iterated;
  a failing client or a reply that is not JSON never breaks it.\<close>

theorem discovery_breaks_iff_reply_misshapen:
  assumes "discover_statistically vendor (usable payloads) = Inr base" "usable payloads \<noteq> []"
  shows "(\<exists>r. discover_profile cfg client vendor payloads (Some True) = Inr r) \<longleftrightarrow>
    (case ask_model client vendor (map (\<lambda>p. flatten_payload p []) (usable payloads)) of
       Inl e \<Rightarrow> True | Inr proposal \<Rightarrow> well_shaped proposal)"
  using assms merge_total [of base _ "map (\<lambda>p. flatten_payload p []) (usable payloads)"]
  by (simp add: discover_profile_def Let_def split: sum.split)

section \<open>A changed entity type\<close>

definition courier_samples :: "json list" where
  "courier_samples =
     [JObj [(''tracking_number'', JStr ''T-1''), (''status'', JStr ''delivered'')],
      JObj [(''tracking_number'', JStr ''T-2''), (''status'', JStr ''collected'')]]"

definition courier_flats :: "flat list" where
  "courier_flats =
     [[(''tracking_number'', JStr ''T-1''), (''status'', JStr ''delivered'')],
      [(''tracking_number'', JStr ''T-2''), (''status'', JStr ''collected'')]]"

definition courier_values :: "(string, json list) dict" where
  "courier_values =
     [(''tracking_number'', [JStr ''T-1'', JStr ''T-2'']), (''status'', [JStr ''delivered'', JStr ''collected''])]"

definition courier_spec :: "string \<Rightarrow> vendor_profile_spec" where
  "courier_spec et =
     \<lparr> vs_vendor = ''courier'', vs_entity_type = et, vs_id_paths = [''tracking_number'', ''status''],
       vs_status_paths = [''status''], vs_time_paths = [],
       vs_status_map = [(''collected'', ''PICKED_UP''), (''delivered'', ''DELIVERED'')],
       vs_source = ''DISCOVERED'', vs_sample_count = 2, vs_notes = [] \<rparr>"

definition courier_base :: discovery_result where
  "courier_base =
     \<lparr> dr_profile = courier_spec ''SHIPMENT'', dr_method = STATISTICAL, dr_sample_count = 2,
       dr_unmapped_statuses = [], dr_warnings = [] \<rparr>"

lemma courier_flattened: "map (\<lambda>p. flatten_payload p []) courier_samples = courier_flats"
  by code_simp

lemma courier_path_values: "path_values courier_flats = courier_values"
  by code_simp

lemma courier_scores:
  "name_score ''tracking_number'' ID_KEYS = 19" "name_score ''status'' ID_KEYS = 0"
  "name_score ''status'' STATUS_KEYS = 15"
  by code_simp+

lemma courier_predicates:
  "satisfying looks_like_identifier courier_values = Inr courier_values"
  "satisfying looks_like_status courier_values = Inr [(''status'', [JStr ''delivered'', JStr ''collected''])]"
  "satisfying looks_like_time courier_values = Inr []"
  by code_simp+

lemma courier_ranks:
  "rank courier_values 2 ID_KEYS looks_like_identifier = Inr [''tracking_number'', ''status'']"
  "rank courier_values 2 STATUS_KEYS looks_like_status = Inr [''status'']"
  "rank courier_values 2 TIME_KEYS looks_like_time = Inr []"
  unfolding rank_def courier_predicates and_then.simps Let_def
  by (simp_all add: courier_values_def courier_scores)

lemma courier_type: "classify_entity_type courier_flats (Some ''tracking_number'') = ''SHIPMENT''"
  by code_simp

lemma courier_statuses:
  "map_statuses ''SHIPMENT'' (sort (remdups (map status_token [JStr ''delivered'', JStr ''collected'']))) =
     ([(''collected'', Some ''PICKED_UP''), (''delivered'', Some ''DELIVERED'')], [])"
proof -
  have "map status_token [JStr ''delivered'', JStr ''collected''] = [''delivered'', ''collected'']" by code_simp
  moreover have "sort (remdups [''delivered'', ''collected'']) = [''collected'', ''delivered'']" by code_simp
  moreover have "map_statuses ''SHIPMENT'' [''collected'', ''delivered''] =
      ([(''collected'', Some ''PICKED_UP''), (''delivered'', Some ''DELIVERED'')], [])" by code_simp
  ultimately show ?thesis by simp
qed

lemma courier_dropped:
  "drop_unmapped [(''collected'', Some ''PICKED_UP''), (''delivered'', Some ''DELIVERED'')] =
     [(''collected'', ''PICKED_UP''), (''delivered'', ''DELIVERED'')]"
  by (simp add: drop_unmapped_def)

lemma courier_read: "discover_statistically ''courier'' courier_samples = Inr courier_base"
proof -
  have "length courier_samples = 2" "length courier_flats = 2" by (simp_all add: courier_samples_def courier_flats_def)
  moreover have "dict_get courier_values ''status'' = Some [JStr ''delivered'', JStr ''collected'']"
    by (simp add: courier_values_def)
  ultimately show ?thesis
    unfolding discover_statistically_def Let_def courier_flattened courier_path_values
    by (simp add: courier_ranks courier_type courier_statuses courier_dropped courier_base_def courier_spec_def
        del: list.map)
qed

text \<open>The client of a model that answers with a fixed text.\<close>

definition answering :: "string \<Rightarrow> client" where
  "answering reply = (\<lambda>system user. Completed [Some reply] ''gpt'')"

definition type_only_reply :: string where
  "type_only_reply = ''{'' @ json_string ''entity_type'' @ '':'' @ json_string ''INVOICE'' @ ''}''"

lemma type_only_parsed: "json_loads type_only_reply = Inr (JObj [(''entity_type'', JStr ''INVOICE'')])"
  by code_simp

lemma courier_merged:
  "merge_model_proposal courier_base (JObj [(''entity_type'', JStr ''INVOICE'')]) courier_flats =
     Inr (courier_base \<lparr> dr_profile := courier_spec ''INVOICE'', dr_method := MODEL_ASSISTED \<rparr>)"
  by code_simp

lemma courier_usable: "usable courier_samples = courier_samples"
  by (simp add: courier_samples_def)

lemma courier_discovered:
  "discover_profile default_settings (answering type_only_reply) ''courier'' courier_samples (Some True) =
     Inr (courier_base \<lparr> dr_profile := courier_spec ''INVOICE'', dr_method := MODEL_ASSISTED \<rparr>)"
proof -
  have "courier_samples \<noteq> []" by (simp add: courier_samples_def)
  moreover have "ask_model (answering type_only_reply) ''courier'' courier_flats =
      Inr (JObj [(''entity_type'', JStr ''INVOICE'')])"
    using type_only_parsed by (simp add: ask_model_def answering_def type_only_reply_def)
  ultimately show ?thesis
    unfolding discover_profile_def Let_def courier_usable courier_read courier_flattened and_then.simps
    by (simp add: courier_merged)
qed

lemma courier_parcel:
  defines "flat \<equiv> [(''tracking_number'', JStr ''T-1''), (''status'', JStr ''delivered'')]"
  shows "flatten_payload (hd courier_samples) [] = flat"
    "entity_id_of flat (Some (courier_spec ''INVOICE'')) = (Some ''tracking_number'', ''T-1'')"
    "classify flat (Some ''tracking_number'') (Some (courier_spec ''INVOICE'')) = (''INVOICE'', 97/100)"
    "first_value flat (status_keys (Some (courier_spec ''INVOICE''))) = Some (JStr ''delivered'')"
    "status_of ''INVOICE'' (Some (JStr ''delivered'')) (Some (courier_spec ''INVOICE'')) = (''DELIVERED'', 97/100)"
    "first_value flat (time_keys (Some (courier_spec ''INVOICE''))) = None"
  unfolding flat_def by code_simp+

lemma courier_rejected:
  "from_dict (reading_dict ''INVOICE'' eid ''DELIVERED'' t score np) =
     Inl (ValueError ''Invalid canonical_status for entity_type'')"
proof -
  have "upper ''INVOICE'' = ''INVOICE''" "upper ''DELIVERED'' = ''DELIVERED''"
    "''INVOICE'' \<in> set EntityType_values" "''DELIVERED'' \<notin> set (the (dict_get ALLOWED_STATUSES ''INVOICE''))"
    by code_simp+
  then show ?thesis by (simp add: from_dict_def item_reading Let_def)
qed

text \<open>A model that only changes the entity type leaves the shipment statuses of the statistical
  reading in an invoice profile, although its own proposals are checked against the vocabulary:
  the profile is not canonical, and with it every delivered parcel raises ValueError, which the
  worker records as an unexpected failure.\<close>

theorem changed_type_breaks_profile:
  "\<exists>r. discover_profile default_settings (answering type_only_reply) ''courier'' courier_samples (Some True) = Inr r \<and>
     vs_entity_type (dr_profile r) = ''INVOICE'' \<and>
     dict_get (vs_status_map (dr_profile r)) ''delivered'' = Some ''DELIVERED'' \<and>
     (\<forall>now. rules_normalize (Some (dr_profile r)) now (hd courier_samples) =
        Inl (ValueError ''Invalid canonical_status for entity_type''))"
proof -
  let ?p = "courier_spec ''INVOICE''"
  have "event_time_of flat (Some ?p) now = Inr (now, 4/10, False)"
    if "first_value flat (time_keys (Some ?p)) = None" for flat now
    using that by (simp add: event_time_of_def generic_event_time_def courier_spec_def parse_option_def)
  then have "rules_normalize (Some ?p) now (hd courier_samples) =
      Inl (ValueError ''Invalid canonical_status for entity_type'')" for now
    unfolding rules_normalize_def Let_def courier_parcel(1)
    by (simp add: courier_parcel courier_rejected)
  then show ?thesis using courier_discovered by (simp add: courier_spec_def)
qed

section \<open>Witnesses\<close>

theorem discovered_paths_exist_witness:
  "\<exists>r. discover_profile default_settings (answering type_only_reply) ''courier'' courier_samples (Some True) = Inr r \<and>
     profile_paths (dr_profile r) \<subseteq> sample_paths courier_samples"
  using discovered_paths_exist [OF courier_discovered, unfolded courier_usable] courier_discovered by blast

theorem discovered_profile_is_canonical_witness:
  "canonical_profile (Some (courier_spec ''SHIPMENT''))"
proof -
  have "discover_profile default_settings (answering []) ''courier'' courier_samples (Some False) = Inr courier_base"
    unfolding discover_profile_def Let_def courier_usable courier_read and_then.simps
    by (simp add: courier_samples_def)
  from discovered_profile_is_canonical [OF this, of courier_base] show ?thesis
    by (simp only: courier_usable courier_read) (simp add: courier_base_def)
qed

theorem numeric_identifiers_are_missed_witness:
  "looks_like_identifier ''order_id'' [JInt 1001, JInt 1002] = Inr False \<and>
   looks_like_time ''order_id'' [JInt 1001, JInt 1002] = Inr True"
  by (rule numeric_identifiers_are_missed) auto

theorem discovery_breaks_iff_reply_misshapen_witness:
  "\<not> (\<exists>r. discover_profile default_settings (answering ''[1]'') ''courier'' courier_samples (Some True) = Inr r)"
proof -
  have "json_loads ''[1]'' = Inr (JArr [JInt 1])" by code_simp
  then have "ask_model (answering ''[1]'') ''courier'' courier_flats = Inr (JArr [JInt 1])"
    by (simp add: ask_model_def answering_def)
  then show ?thesis
    using discovery_breaks_iff_reply_misshapen [of "''courier''" courier_samples courier_base default_settings "answering ''[1]''"]
    unfolding courier_usable courier_flattened courier_read
    by (simp add: well_shaped_def courier_samples_def)
qed

end
