(* ===== verification/Commands.thy ===== *)
theory Commands
  imports Services Discovery Py_Loads
begin

text \<open>
  The operator tools around the services: \<open>discover_vendor_profile\<close>, \<open>seed_demo\<close> and
  \<open>scripts/send_webhooks.py\<close>.  The file system, the random generator and the network are
  arguments; styles of the terminal are left out, and so is the demo account of \<open>seed_demo\<close>, which
  concerns the framework's users only.
\<close>

section \<open>discover\_vendor\_profile\<close>

text \<open>A command ends with an exit message, or with an exception nobody caught.\<close>

datatype command_failure = CommandError string | Raised exn

text \<open>What a path given on the command line names: a directory with its JSON files, a file, nothing.\<close>

datatype named_path = Directory "(string \<times> string) list" | JsonFile string | Missing

definition load_file :: "string \<Rightarrow> string \<Rightarrow> command_failure + json list" where
  "load_file name text =
     (case json_loads text of
        Inl e \<Rightarrow> Inl (CommandError (name @ '' is not valid JSON: '' @ exn_str e))
      | Inr loaded \<Rightarrow> Inr (case loaded of JArr xs \<Rightarrow> xs | _ \<Rightarrow> [loaded]))"

fun load_files :: "(string \<times> string) list \<Rightarrow> command_failure + json list" where
  "load_files [] = Inr []"
| "load_files ((name, text) # files) =
     (case load_file name text of
        Inl e \<Rightarrow> Inl e
      | Inr xs \<Rightarrow> (case load_files files of Inl e \<Rightarrow> Inl e | Inr ys \<Rightarrow> Inr (xs @ ys)))"

definition files_of :: "string \<Rightarrow> named_path \<Rightarrow> command_failure + (string \<times> string) list" where
  "files_of raw path =
     (case path of
        Directory files \<Rightarrow> Inr (sort_key fst files)
      | JsonFile text \<Rightarrow> Inr [(raw, text)]
      | Missing \<Rightarrow> Inl (CommandError (''No such file or directory: '' @ raw)))"

fun load_paths :: "(string \<Rightarrow> named_path) \<Rightarrow> string list \<Rightarrow> command_failure + json list" where
  "load_paths fs [] = Inr []"
| "load_paths fs (raw # paths) =
     (case files_of raw (fs raw) of
        Inl e \<Rightarrow> Inl e
      | Inr files \<Rightarrow>
          (case load_files files of
             Inl e \<Rightarrow> Inl e
           | Inr xs \<Rightarrow> (case load_paths fs paths of Inl e \<Rightarrow> Inl e | Inr ys \<Rightarrow> Inr (xs @ ys))))"

definition joined_or :: "string \<Rightarrow> string list \<Rightarrow> string" where
  "joined_or none xs = (let s = join '', '' xs in if s = [] then none else s)"

definition left :: "nat \<Rightarrow> string \<Rightarrow> string" where
  "left w s = s @ replicate (w - length s) (CHR '' '')"

definition profile_lines :: "discovery_result \<Rightarrow> string list" where
  "profile_lines r =
     (let p = dr_profile r; m = sort_key fst (vs_status_map p) in
      [vs_vendor p @ ''  ('' @ dr_method r @ '', '' @ nat_str (dr_sample_count r) @ '' sample(s))'',
       ''  entity_type   '' @ (if vs_entity_type p = [] then ''(undecided)'' else vs_entity_type p),
       ''  id_paths      '' @ joined_or ''(none)'' (vs_id_paths p),
       ''  status_paths  '' @ joined_or ''(none)'' (vs_status_paths p),
       ''  time_paths    '' @ joined_or ''(none)'' (vs_time_paths p),
       ''  status_map''] @
      map (\<lambda>(token, canonical). ''    '' @ left 28 token @ '' -> '' @ canonical) m @
      (if m = [] then [''    (none)''] else []) @
      map (\<lambda>token. ''  unmapped status: '' @ token) (dr_unmapped_statuses r) @
      map (\<lambda>warning. ''  warning: '' @ warning) (dr_warnings r) @
      (if vs_notes p \<noteq> [] then [''  notes         '' @ vs_notes p] else []))"

record discover_options =
  do_vendor :: string
  do_paths :: "string list"
  do_from_stored :: nat
  do_persist :: bool
  do_no_model :: bool

definition discover_command ::
  "settings \<Rightarrow> client \<Rightarrow> (string \<Rightarrow> named_path) \<Rightarrow> discover_options \<Rightarrow> db \<Rightarrow> profile_cache \<Rightarrow>
     command_failure + string list \<times> profile_state" where
  "discover_command cfg client fs opts d c =
     (case load_paths fs (do_paths opts) of
        Inl e \<Rightarrow> Inl e
      | Inr loaded \<Rightarrow>
          (let payloads = loaded @ (if do_from_stored opts \<noteq> 0
                 then stored_payloads (do_vendor opts) (do_from_stored opts) d else []) in
           if payloads = [] then
             Inl (CommandError ''No payloads to learn from. Give JSON files, or --from-stored N to use what this vendor has already sent.'')
           else
             (case discover_profile cfg client (do_vendor opts) payloads
                     (if do_no_model opts then Some False else None) of
                Inl e \<Rightarrow> Inl (case e of DiscoveryError m \<Rightarrow> CommandError m | _ \<Rightarrow> Raised e)
              | Inr r \<Rightarrow>
                  (if do_persist opts
                   then (case store_profile (dr_profile r) (db_profiles d, c) of
                           Inl e \<Rightarrow> Inl (Raised e)
                         | Inr st \<Rightarrow>
                             Inr (profile_lines r @ [[CHR 0x0A] @ ''Saved profile for '' @ vs_vendor (dr_profile r) @ ''.''], st))
                   else Inr (profile_lines r @ [[CHR 0x0A] @
                               ''Proposal only. Re-run with --persist to save it, or edit it in the admin.''],
                             (db_profiles d, c))))))"

section \<open>seed\_demo\<close>

definition STATUS_CYCLE :: "(string, string \<times> string list) dict" where
  "STATUS_CYCLE =
     [(''maersk_shipment.json'',
       (''event_description'', [''collected'', ''departed'', ''arrived'', ''Loaded onboard and sailed''])),
      (''one_shipment.json'',
       (''status_text'', [''in_transit'', ''out_for_delivery'', ''delivered'', ''Cargo released to consignee''])),
      (''globalfreightpay_invoice.json'',
       (''message'', [''issued'', ''paid'', ''refunded'', ''settled in full''])),
      (''marine_advisory_unclassified.json'', (''severity'', [''low'', ''medium'', ''high'']))]"

definition SEED_ID_KEYS :: "string list" where
  "SEED_ID_KEYS = [''event_id'', ''externalEventId'', ''id'']"

definition SEED_TIME_KEYS :: "string list" where
  "SEED_TIME_KEYS = [''event_time'', ''occurred_at'', ''timestamp'', ''published_at'']"

type_synonym json_object = "(string, json) dict"

definition change_member :: "(json \<Rightarrow> json) \<Rightarrow> string \<Rightarrow> json_object \<Rightarrow> json_object" where
  "change_member f key payload =
     (case dict_get payload key of None \<Rightarrow> payload | Some v \<Rightarrow> dict_set key (f v) payload)"

definition seed_moment :: "rat \<Rightarrow> nat \<Rightarrow> string" where
  "seed_moment now index =
     (case fromtimestamp (Fin (now - of_nat (index * 3 * 3600))) of None \<Rightarrow> [] | Some t \<Rightarrow> isoformat t)"

definition seed_variant :: "string \<Rightarrow> json_object \<Rightarrow> nat \<Rightarrow> rat \<Rightarrow> json_object" where
  "seed_variant name template index now =
     (let payload = (case dict_get STATUS_CYCLE name of
            None \<Rightarrow> template
          | Some (status_key, statuses) \<Rightarrow>
              if statuses = [] then template
              else dict_set status_key (JStr (statuses ! (index mod length statuses))) template);
          suffix = ''-'' @ pad 2 index;
          numbered = fold (change_member (\<lambda>v. JStr (py_str v @ suffix)))
            (SEED_ID_KEYS @ [''shipment_reference'', ''container_no'', ''invoice_number'']) payload
      in fold (change_member (\<lambda>_. JStr (seed_moment now index))) SEED_TIME_KEYS numbered)"

text \<open>\<open>Path.stem\<close> of a name that ends in \<open>.json\<close>.\<close>

definition stem :: "string \<Rightarrow> string" where
  "stem name = (if length name \<le> 5 then name else take (length name - 5) name)"

definition seed_key :: "string \<Rightarrow> nat \<Rightarrow> string" where
  "seed_key name index = ''seed:'' @ stem name @ '':'' @ nat_str index"

definition seed_vendor :: "json_object \<Rightarrow> string" where
  "seed_vendor payload = (case dict_get payload ''vendor'' of None \<Rightarrow> ''unknown'' | Some v \<Rightarrow> py_str v)"

text \<open>One turn of the loop; the clocks are those of that turn.\<close>

definition seed_one ::
  "settings \<Rightarrow> (string \<Rightarrow> nat \<Rightarrow> context_of) \<Rightarrow> string \<times> json_object \<times> nat \<Rightarrow> gateway \<Rightarrow> (bool \<times> gateway) result" where
  "seed_one cfg ctx = (\<lambda>(name, template, index) g.
     let cx = ctx name index; payload = seed_variant name template index (cx_now cx) in
     and_then (ingest cfg cx (JObj payload) (seed_vendor payload) (Some (seed_key name index)) g)
       (\<lambda>((webhook, created), g'). Inr (created, g')))"

definition seed_plan :: "(string \<times> json_object) list \<Rightarrow> int \<Rightarrow> (string \<times> json_object \<times> nat) list" where
  "seed_plan samples per_vendor =
     concat (map (\<lambda>(name, template). map (\<lambda>index. (name, template, index)) [0 ..< nat (max 1 per_vendor)])
       (sort_key fst samples))"

text \<open>The samples by file name.  The message without samples leaves out the directory's path.\<close>

definition seed_demo ::
  "settings \<Rightarrow> (string \<Rightarrow> nat \<Rightarrow> context_of) \<Rightarrow> (string \<times> json_object) list \<Rightarrow> int \<Rightarrow> gateway \<Rightarrow>
     (string \<times> gateway) result" where
  "seed_demo cfg ctx samples per_vendor g =
     (if samples = [] then Inr (''No samples'', g)
      else and_then (run_all (seed_one cfg ctx) (seed_plan samples per_vendor) g) (\<lambda>(created, g').
        Inr (''Seeded '' @ nat_str (length (filter id created)) @ '' new webhook(s), skipped ''
             @ nat_str (length (filter Not created)) @ '' already present. ''
             @ nat_str (length (db_webhooks (gw_db g'))) @ '' stored, ''
             @ nat_str (length (filter (\<lambda>w. in_flight (rw_processing_status w)) (db_webhooks (gw_db g'))))
             @ '' awaiting the worker.'', g')))"

section \<open>Seeding again\<close>

lemma get_change_member: "dict_get (change_member f key p) k = (if k = key then map_option f (dict_get p k) else dict_get p k)"
  by (auto simp: change_member_def split: option.split)

lemma get_change_members: "k \<notin> set keys \<Longrightarrow> dict_get (fold (change_member f) keys p) k = dict_get p k"
  by (induction keys arbitrary: p) (simp_all add: get_change_member)

lemma seed_variant_stable:
  "k \<notin> set SEED_TIME_KEYS \<Longrightarrow> dict_get (seed_variant name t i now) k = dict_get (seed_variant name t i now') k"
  by (simp add: seed_variant_def Let_def get_change_members)

lemma first_named_cong:
  "(\<And>k. k \<in> set keys \<Longrightarrow> obj_get p k = obj_get p' k) \<Longrightarrow> first_named p keys = first_named p' keys"
  by (induction keys) (simp_all add: Let_def)

lemma seed_identity_stable:
  "extract_external_event_id (JObj (seed_variant name t i now)) = extract_external_event_id (JObj (seed_variant name t i now'))"
  "seed_vendor (seed_variant name t i now) = seed_vendor (seed_variant name t i now')"
proof -
  have "k \<notin> set SEED_TIME_KEYS" if "k \<in> set KNOWN_EVENT_ID_KEYS \<or> k = ''vendor''" for k
    using that by (auto simp: SEED_TIME_KEYS_def KNOWN_EVENT_ID_KEYS_def)
  note s = seed_variant_stable [OF this]
  show "extract_external_event_id (JObj (seed_variant name t i now)) = extract_external_event_id (JObj (seed_variant name t i now'))"
  proof -
    have "first_named (JObj (seed_variant name t i now)) KNOWN_EVENT_ID_KEYS =
        first_named (JObj (seed_variant name t i now')) KNOWN_EVENT_ID_KEYS"
      by (rule first_named_cong) (use s [of _ name t i now now'] in simp)
    then show ?thesis by (simp add: extract_external_event_id_def)
  qed
  show "seed_vendor (seed_variant name t i now) = seed_vendor (seed_variant name t i now')"
    using s [of "''vendor''" name t i now now'] by (simp add: seed_vendor_def)
qed

lemma seed_key_not_blank: "strip (seed_key name i) \<noteq> []"
proof -
  have "last (seed_key name i) \<in> set (nat_str i)" unfolding seed_key_def
    by (metis append_is_Nil_conv last_appendR last_in_set nat_str_nonempty)
  then have "\<not> is_space (last (seed_key name i))" using nat_str_digits digit_not_space by blast
  moreover have "\<not> is_space (hd (seed_key name i))" by (simp add: seed_key_def is_space_def py_whitespace_def)
  ultimately have "strip (seed_key name i) = seed_key name i"
    unfolding strip_def by (intro strip_by_fixed) simp
  then show ?thesis by (simp add: seed_key_def)
qed

text \<open>The delivery of one turn, and the rows it would find.\<close>

definition seed_delivery :: "string \<times> json_object \<times> nat \<Rightarrow> rat \<Rightarrow> instant \<Rightarrow> delivery" where
  "seed_delivery = (\<lambda>(name, t, i) now stamp.
     let p = seed_variant name t i now in delivery_of (JObj p) (seed_vendor p) (Some (seed_key name i)) stamp)"

definition present :: "string \<times> json_object \<times> nat \<Rightarrow> raw_webhook list \<Rightarrow> bool" where
  "present r ws \<longleftrightarrow> (\<exists>w \<in> set ws. \<forall>now stamp. same_key (seed_delivery r now stamp) w \<or> same_event (seed_delivery r now stamp) w)"

lemma seed_delivery_stable:
  "dl_vendor (seed_delivery r now stamp) = dl_vendor (seed_delivery r now' stamp')"
  "dl_external_event_id (seed_delivery r now stamp) = dl_external_event_id (seed_delivery r now' stamp')"
  "dl_idempotency_key (seed_delivery r now stamp) = dl_idempotency_key (seed_delivery r now' stamp')"
proof -
  obtain name t i where r: "r = (name, t, i)" by (cases r)
  show "dl_vendor (seed_delivery r now stamp) = dl_vendor (seed_delivery r now' stamp')"
    "dl_external_event_id (seed_delivery r now stamp) = dl_external_event_id (seed_delivery r now' stamp')"
    "dl_idempotency_key (seed_delivery r now stamp) = dl_idempotency_key (seed_delivery r now' stamp')"
    using seed_identity_stable [of name t i now now'] seed_key_not_blank [of name i]
    by (simp_all add: r seed_delivery_def Let_def delivery_of_def build_idempotency_key_def)
qed

lemma present_iff: "present r ws \<longleftrightarrow> (\<exists>w \<in> set ws. same_key (seed_delivery r now stamp) w \<or> same_event (seed_delivery r now stamp) w)"
  unfolding present_def same_key_def same_event_def
  using seed_delivery_stable [of r now stamp] by metis

lemma present_mono: "present r ws \<Longrightarrow> set ws \<subseteq> set ws' \<Longrightarrow> present r ws'"
  unfolding present_def by blast

lemma seed_one_alt:
  "seed_one cfg ctx r g = and_then (ingest cfg (ctx (fst r) (snd (snd r)))
       (dl_raw_payload (seed_delivery r (cx_now (ctx (fst r) (snd (snd r)))) (cx_stamp (ctx (fst r) (snd (snd r))))))
       (dl_vendor (seed_delivery r (cx_now (ctx (fst r) (snd (snd r)))) (cx_stamp (ctx (fst r) (snd (snd r))))))
       (Some (seed_key (fst r) (snd (snd r)))) g) (\<lambda>((webhook, created), g'). Inr (created, g'))"
  by (cases r) (simp add: seed_one_def seed_delivery_def Let_def delivery_of_def)

text \<open>A sample the columns can hold: the file's name and its JSON document, whose vendor is short enough.\<close>

definition storable_sample :: "string \<times> json_object \<Rightarrow> bool" where
  "storable_sample = (\<lambda>(name, template).
     storable_text name \<and> storable_json (JObj template) \<and> length (seed_vendor template) \<le> 128)"

lemma storable_change:
  assumes "storable_json (JObj p)" "\<And>v. storable_json v \<Longrightarrow> storable_json (f v)"
  shows "storable_json (JObj (change_member f key p))"
proof (cases "dict_get p key")
  case (Some v)
  have set: "set (dict_set key (f v) p) \<subseteq> insert (key, f v) (set p)"
    by (induction p) auto
  have "storable_text key \<and> storable_json (f v)"
    using Some assms by (auto dest!: map_of_SomeD)
  then show ?thesis using assms(1) Some set by (auto simp: change_member_def)
qed (use assms in \<open>simp add: change_member_def\<close>)

lemma storable_changes:
  assumes "\<And>v. storable_json v \<Longrightarrow> storable_json (f v)"
  shows "storable_json (JObj p) \<Longrightarrow> storable_json (JObj (fold (change_member f) keys p))"
  by (induction keys arbitrary: p) (simp_all add: storable_change [OF _ assms] del: storable_json.simps)

lemma storable_dict_set:
  "storable_json (JObj p) \<Longrightarrow> storable_text key \<Longrightarrow> storable_json v \<Longrightarrow> storable_json (JObj (dict_set key v p))"
  by (induction p) auto

lemma seed_statuses:
  "dict_get STATUS_CYCLE name = Some (key, statuses) \<Longrightarrow> storable_text key \<and> (\<forall>st \<in> set statuses. storable_text st) \<and>
     key \<noteq> ''vendor'' \<and> statuses \<noteq> []"
  by (auto simp: STATUS_CYCLE_def split: if_splits)

lemma storable_seed_variant:
  assumes "storable_json (JObj template)"
  shows "storable_json (JObj (seed_variant name template index now))"
proof -
  let ?p = "case dict_get STATUS_CYCLE name of None \<Rightarrow> template
    | Some (key, statuses) \<Rightarrow> if statuses = [] then template
        else dict_set key (JStr (statuses ! (index mod length statuses))) template"
  have "storable_json (JObj ?p)"
    using assms seed_statuses [of name]
    by (auto simp: storable_dict_set split: option.split simp del: storable_json.simps(5))
  moreover have "storable_json (JStr (py_str v @ ''-'' @ pad 2 index))" if "storable_json v" for v
    using that by (simp add: pad_def storable)
  moreover have "storable_json (JStr (seed_moment now index))"
    by (simp add: seed_moment_def storable split: option.split)
  ultimately show ?thesis unfolding seed_variant_def Let_def
    by (intro storable_changes) (simp_all del: storable_json.simps)
qed

lemma seed_variant_vendor: "seed_vendor (seed_variant name template index now) = seed_vendor template"
proof -
  have "''vendor'' \<notin> set (SEED_ID_KEYS @ [''shipment_reference'', ''container_no'', ''invoice_number''])"
    "''vendor'' \<notin> set SEED_TIME_KEYS" by (simp_all add: SEED_ID_KEYS_def SEED_TIME_KEYS_def)
  then have "dict_get (seed_variant name template index now) ''vendor'' = dict_get template ''vendor''"
    using seed_statuses [of name]
    by (auto simp: seed_variant_def Let_def get_change_members simp del: set_append fold_append split: option.split)
  then show ?thesis by (simp add: seed_vendor_def)
qed

lemma storable_seed_delivery:
  assumes "storable_sample (name, template)"
  shows "storable_delivery (seed_delivery (name, template, i) now stamp)"
proof -
  have "storable_text (seed_vendor template)"
    using assms storable_member [of "JObj template" "''vendor''"]
    by (auto simp: storable_sample_def seed_vendor_def storable split: option.split simp del: storable_json.simps)
  moreover have "storable_text (seed_key name i)"
    using assms by (simp add: seed_key_def stem_def storable_sample_def storable)
  ultimately show ?thesis
    using assms storable_seed_variant unfolding seed_delivery_def storable_sample_def
    by (simp add: Let_def seed_variant_vendor delivery_of_storable del: storable_json.simps)
qed

lemma seed_one_step:
  assumes "webhook_constraints (db_webhooks (gw_db g))" "storable_sample (fst r, fst (snd r))"
  shows "\<exists>g'. seed_one cfg ctx r g = Inr (\<not> present r (db_webhooks (gw_db g)), g') \<and>
    webhook_constraints (db_webhooks (gw_db g')) \<and> set (db_webhooks (gw_db g)) \<subseteq> set (db_webhooks (gw_db g')) \<and>
    present r (db_webhooks (gw_db g')) \<and> (present r (db_webhooks (gw_db g)) \<longrightarrow> g' = g)"
proof -
  obtain name t i where r: "r = (name, t, i)" by (cases r)
  define cx where "cx = ctx name i"
  define p where "p = seed_variant name t i (cx_now cx)"
  have one: "seed_one cfg ctx r g = and_then (ingest cfg cx (JObj p) (seed_vendor p) (Some (seed_key name i)) g)
      (\<lambda>((webhook, created), g'). Inr (created, g'))"
    by (simp add: r seed_one_def Let_def cx_def p_def)
  have q: "delivery_of (JObj p) (seed_vendor p) (Some (seed_key name i)) (cx_stamp cx) = seed_delivery r (cx_now cx) (cx_stamp cx)"
    by (simp add: r seed_delivery_def Let_def p_def)
  have ok: "storable_delivery (seed_delivery r (cx_now cx) (cx_stamp cx))"
    using storable_seed_delivery assms(2) by (simp add: r)
  note pres = present_iff [of r _ "cx_now cx" "cx_stamp cx"]
  show ?thesis
  proof (cases rule: ingest_cases [OF assms(1), of cfg cx "JObj p" "seed_vendor p" "Some (seed_key name i)"])
    case (1 w)
    have "present r (db_webhooks (gw_db g))"
    proof (rule ccontr)
      assume "\<not> present r (db_webhooks (gw_db g))"
      then have "\<forall>w' \<in> set (db_webhooks (gw_db g)). \<not> same_key (seed_delivery r (cx_now cx) (cx_stamp cx)) w' \<and>
          \<not> same_event (seed_delivery r (cx_now cx) (cx_stamp cx)) w'" using pres by blast
      then obtain row ws where "create_or_get (seed_delivery r (cx_now cx) (cx_stamp cx)) (db_webhooks (gw_db g)) = Inr ((row, True), ws)"
        using create_or_get_miss [of "db_webhooks (gw_db g)"] assms(1) ok by blast
      then show False using 1(2) by (simp add: ingest_def q split: prod.splits)
    qed
    then show ?thesis using 1 assms(1) one by simp
  next
    case (2 w rates queue)
    have "\<not> present r (db_webhooks (gw_db g))" using 2(2) pres q by simp
    moreover have "present r (db_webhooks (gw_db g) @ [w])"
      using new_webhook_same [of "seed_delivery r (cx_now cx) (cx_stamp cx)"] by (auto simp: pres 2(1) q)
    ultimately show ?thesis using 2(4,5) one by auto
  qed (use ok q in simp)
qed

lemma seed_all:
  assumes "webhook_constraints (db_webhooks (gw_db g))" "\<forall>r \<in> set plan. storable_sample (fst r, fst (snd r))"
  shows "\<exists>created g'. run_all (seed_one cfg ctx) plan g = Inr (created, g') \<and> length created = length plan \<and>
    webhook_constraints (db_webhooks (gw_db g')) \<and> set (db_webhooks (gw_db g)) \<subseteq> set (db_webhooks (gw_db g')) \<and>
    (\<forall>r \<in> set plan. present r (db_webhooks (gw_db g')))"
  using assms
proof (induction plan arbitrary: g)
  case (Cons r plan)
  obtain c g1 where 1: "seed_one cfg ctx r g = Inr (c, g1)" "webhook_constraints (db_webhooks (gw_db g1))"
      "set (db_webhooks (gw_db g)) \<subseteq> set (db_webhooks (gw_db g1))" "present r (db_webhooks (gw_db g1))"
    using seed_one_step [OF Cons.prems(1), of r cfg ctx] Cons.prems(2) by auto
  obtain cs g2 where 2: "run_all (seed_one cfg ctx) plan g1 = Inr (cs, g2)" "length cs = length plan"
      "webhook_constraints (db_webhooks (gw_db g2))" "set (db_webhooks (gw_db g1)) \<subseteq> set (db_webhooks (gw_db g2))"
      "\<forall>r \<in> set plan. present r (db_webhooks (gw_db g2))"
    using Cons.IH [OF 1(2)] Cons.prems(2) by auto
  then show ?case using 1 present_mono [OF 1(4) 2(4)] by auto
qed simp

lemma seed_none:
  assumes "webhook_constraints (db_webhooks (gw_db g))" "\<forall>r \<in> set plan. present r (db_webhooks (gw_db g))"
    and "\<forall>r \<in> set plan. storable_sample (fst r, fst (snd r))"
  shows "run_all (seed_one cfg ctx) plan g = Inr (replicate (length plan) False, g)"
  using assms(2,3)
proof (induction plan)
  case (Cons r plan)
  then have "seed_one cfg ctx r g = Inr (False, g)" using seed_one_step [OF assms(1), of r cfg ctx] by auto
  then show ?case using Cons by simp
qed simp

lemma seed_again:
  assumes "webhook_constraints (db_webhooks (gw_db g))" "samples \<noteq> []" "\<forall>sample \<in> set samples. storable_sample sample"
  shows "\<exists>message g'. seed_demo cfg ctx samples per_vendor g = Inr (message, g') \<and>
    (\<exists>rest. seed_demo cfg ctx' samples per_vendor g' =
       Inr (''Seeded 0 new webhook(s), skipped '' @ nat_str (length samples * nat (max 1 per_vendor))
            @ '' already present. '' @ rest, g'))"
proof -
  let ?plan = "seed_plan samples per_vendor"
  have plan: "\<forall>r \<in> set ?plan. storable_sample (fst r, fst (snd r))"
    using assms(3) by (auto simp: seed_plan_def)
  obtain created g' where s: "run_all (seed_one cfg ctx) ?plan g = Inr (created, g')"
      "webhook_constraints (db_webhooks (gw_db g'))" "\<forall>r \<in> set ?plan. present r (db_webhooks (gw_db g'))"
    using seed_all [OF assms(1) plan, of cfg ctx] by blast
  have "length (concat (map (\<lambda>(name, template). map (\<lambda>index. (name, template, index)) [0 ..< n]) xs)) = length xs * n"
    for xs :: "(string \<times> json_object) list" and n
    by (induction xs) auto
  then have len: "length ?plan = length samples * nat (max 1 per_vendor)"
    unfolding seed_plan_def by simp
  have zero: "nat_str 0 = ''0''" by code_simp
  obtain message where 1: "seed_demo cfg ctx samples per_vendor g = Inr (message, g')"
    using assms(2) s(1) by (simp add: seed_demo_def)
  have "seed_demo cfg ctx' samples per_vendor g' =
       Inr (''Seeded 0 new webhook(s), skipped '' @ nat_str (length samples * nat (max 1 per_vendor))
            @ '' already present. '' @ (nat_str (length (db_webhooks (gw_db g'))) @ '' stored, ''
             @ nat_str (length (filter (\<lambda>w. in_flight (rw_processing_status w)) (db_webhooks (gw_db g'))))
             @ '' awaiting the worker.''), g')"
    using assms(2) seed_none [OF s(2,3) plan] len zero by (simp add: seed_demo_def id_def)
  then show ?thesis using 1 by blast
qed

text \<open>With samples the columns can hold, seeding never fails, and seeding again with the same samples, at any later time, is a no-op:
  it creates no webhook, sends no task and changes nothing at all.\<close>

theorem seeding_twice_is_noop:
  assumes "webhook_constraints (db_webhooks (gw_db g))" "samples \<noteq> []" "\<forall>sample \<in> set samples. storable_sample sample"
  shows "\<exists>message g'. seed_demo cfg ctx samples per_vendor g = Inr (message, g') \<and>
    (\<exists>rest. seed_demo cfg ctx' samples per_vendor g' =
       Inr (''Seeded 0 new webhook(s), skipped '' @ nat_str (length samples * nat (max 1 per_vendor))
            @ '' already present. '' @ rest, g'))"
  by (rule seed_again [OF assms])

section \<open>The demo login\<close>

text \<open>
  \<open>_create_admin\<close>: the rows of the user table, and the hasher of \<open>set_password\<close> as an argument.
  The row that \<open>get_or_create\<close> inserts and the one that is saved afterwards are one step.
\<close>

record account =
  ac_username :: string
  ac_is_staff :: bool
  ac_is_superuser :: bool
  ac_email :: string
  ac_password :: string

definition quoted :: "string \<Rightarrow> string" where
  "quoted s = CHR 0x27 # s @ [CHR 0x27]"

definition create_admin ::
  "(string \<Rightarrow> string) \<Rightarrow> string \<Rightarrow> string \<Rightarrow> account list \<Rightarrow> string list \<times> account list" where
  "create_admin make_password username password users =
     (if password = [] then ([], users)
      else if \<exists>u \<in> set users. ac_username u = username
      then ([''Admin user '' @ quoted username @ '' already exists; left unchanged.''], users)
      else ([''Created demo superuser '' @ quoted username @ ''. This is a demo credential: do not pass ''
             @ ''--admin-password in any deployment that matters.''],
            users @ [\<lparr> ac_username = username, ac_is_staff = True, ac_is_superuser = True, ac_email = [],
                       ac_password = make_password password \<rparr>]))"

definition seed_handle ::
  "(string \<Rightarrow> string) \<Rightarrow> settings \<Rightarrow> (string \<Rightarrow> nat \<Rightarrow> context_of) \<Rightarrow> (string \<times> json_object) list \<Rightarrow> int \<Rightarrow>
     string \<Rightarrow> string \<Rightarrow> account list \<times> gateway \<Rightarrow> (string list \<times> account list \<times> gateway) result" where
  "seed_handle make_password cfg ctx samples per_vendor username password = (\<lambda>(users, g).
     let (lines, users') = create_admin make_password username password users in
     and_then (seed_demo cfg ctx samples per_vendor g) (\<lambda>(line, g'). Inr (lines @ [line], users', g')))"

lemma create_admin_keeps: "\<exists>new. snd (create_admin h username password users) = users @ new"
  by (simp add: create_admin_def)

lemma create_admin_again:
  "snd (create_admin h username password' (snd (create_admin h username password users))) =
     (if password = [] then snd (create_admin h username password' users) else snd (create_admin h username password users))"
  by (auto simp: create_admin_def)

text \<open>Without a password no account appears; accounts that exist keep their rows; and once the login
  is there, seeding with any other password changes no account.\<close>

theorem demo_login_is_opt_in:
  assumes "webhook_constraints (db_webhooks (gw_db g))" "samples \<noteq> []" "\<forall>sample \<in> set samples. storable_sample sample"
  shows "\<exists>message new g'. seed_handle h cfg ctx samples per_vendor username password (users, g) =
           Inr (message, users @ new, g') \<and> (password = [] \<longrightarrow> new = []) \<and>
           (password \<noteq> [] \<longrightarrow> (\<forall>password'. \<exists>message'.
              seed_handle h cfg ctx' samples per_vendor username password' (users @ new, g') =
              Inr (message', users @ new, g')))"
proof -
  obtain m g' rest where s: "seed_demo cfg ctx samples per_vendor g = Inr (m, g')"
      "seed_demo cfg ctx' samples per_vendor g' = Inr (rest, g')"
    using seed_again [OF assms] by blast
  obtain lines new where c: "create_admin h username password users = (lines, users @ new)"
    using create_admin_keeps [of h username password users] by (metis prod.collapse)
  have "snd (create_admin h username password' (users @ new)) = users @ new" if "password \<noteq> []" for password'
    using create_admin_again [of h username password' password users] that c by simp
  then have "\<exists>l. create_admin h username password' (users @ new) = (l, users @ new)" if "password \<noteq> []" for password'
    using that by (metis prod.collapse)
  then show ?thesis using s c
    by (fastforce simp: seed_handle_def create_admin_def split: if_splits)
qed

section \<open>send\_webhooks\<close>

definition SENT_SHIPMENT_STATUSES :: "string list" where
  "SENT_SHIPMENT_STATUSES =
     [''Loaded onboard and sailed'', ''Container picked up from shipper'', ''Out for final delivery'',
      ''Cargo released to consignee'']"

definition SENT_INVOICE_STATUSES :: "string list" where
  "SENT_INVOICE_STATUSES =
     [''freight invoice raised'', ''settled in full'', ''invoice voided due to correction'', ''refund completed'']"

text \<open>
  What the generators returned for one payload: eight hexadecimal digits of a UUID, the number of
  \<open>randint\<close>, the positions of the \<open>choice\<close>s, the printed amount, and the clock.
\<close>

record draws =
  dw_uid :: string
  dw_number :: nat
  dw_word :: nat
  dw_place :: nat
  dw_amount :: string
  dw_now :: rat

definition choice :: "'a list \<Rightarrow> nat \<Rightarrow> 'a" where
  "choice xs n = xs ! (n mod length xs)"

definition sent_iso_time :: "rat \<Rightarrow> nat \<Rightarrow> string" where
  "sent_iso_time now minutes =
     (case fromtimestamp (Fin (now + of_nat (minutes * 60))) of None \<Rightarrow> [] | Some t \<Rightarrow> isoformat t)"

definition build_payload :: "nat \<Rightarrow> draws \<Rightarrow> (string, string) dict" where
  "build_payload i dw =
     (let kind = i mod 4; suffix = pad 3 i @ ''-'' @ dw_uid dw in
      if kind = 0 then
        [(''vendor'', ''Maersk''), (''event_id'', ''MRSK-EVT-'' @ suffix),
         (''container_no'', ''MAEU24'' @ nat_str (dw_number dw)),
         (''event_description'', choice SENT_SHIPMENT_STATUSES (dw_word dw)),
         (''event_time'', sent_iso_time (dw_now dw) i),
         (''location'', choice [''SGSIN'', ''NLRTM'', ''USLAX'', ''AEJEA''] (dw_place dw))]
      else if kind = 1 then
        [(''vendor'', ''Ocean Network Express''), (''externalEventId'', ''ONE-'' @ suffix),
         (''shipment_reference'', ''ONEY'' @ nat_str (dw_number dw)),
         (''status_text'', choice SENT_SHIPMENT_STATUSES (dw_word dw)),
         (''occurred_at'', sent_iso_time (dw_now dw) (i + 1)),
         (''port'', choice [''JPYOK'', ''CNSHA'', ''USSAV'', ''NLRTM''] (dw_place dw))]
      else if kind = 2 then
        (let invoice_number = ''GFP-INV-'' @ nat_str (dw_number dw) in
         [(''vendor'', ''GlobalFreightPay''), (''id'', invoice_number @ ''-EVT-'' @ suffix),
          (''invoice_number'', invoice_number),
          (''message'', choice SENT_INVOICE_STATUSES (dw_word dw)),
          (''timestamp'', sent_iso_time (dw_now dw) (i + 2)),
          (''amount'', dw_amount dw), (''currency'', ''USD'')])
      else
        [(''vendor'', ''MarineAdvisoryFeed''), (''id'', ''MAR-ALERT-'' @ suffix),
         (''title'', choice [''Port congestion warning'', ''Weather advisory update'',
                             ''Berth capacity alert'', ''Navigation caution notice''] (dw_word dw)),
         (''body'', ''Advisory bulletin for regional marine traffic.''),
         (''published_at'', sent_iso_time (dw_now dw) (i + 3)),
         (''severity'', choice [''low'', ''medium'', ''high''] (dw_place dw))])"

text \<open>\<open>a or b or c\<close> over members that may be missing or empty; a missing last one is \<open>None\<close>.\<close>

fun first_truthy :: "(string, string) dict \<Rightarrow> string list \<Rightarrow> string" where
  "first_truthy p [] = ''None''"
| "first_truthy p [k] = (case dict_get p k of None \<Rightarrow> ''None'' | Some v \<Rightarrow> v)"
| "first_truthy p (k # ks) =
     (case dict_get p k of None \<Rightarrow> first_truthy p ks | Some v \<Rightarrow> if v = [] then first_truthy p ks else v)"

definition sent_request :: "(string, string) dict \<Rightarrow> string \<Rightarrow> request" where
  "sent_request payload correlation =
     \<lparr> rq_headers =
         [(''Content-Type'', ''application/json''),
          (''X-Webhook-Vendor'', (case dict_get payload ''vendor'' of None \<Rightarrow> ''unknown'' | Some v \<Rightarrow> v)),
          (''Idempotency-Key'', first_truthy payload [''event_id'', ''externalEventId'', ''id'']),
          (''X-Correlation-ID'', correlation)],
       rq_body = utf8 (''{'' @ join '', '' (map (\<lambda>(k, v). json_string k @ '': '' @ json_string v) payload) @ ''}''),
       rq_data = JObj (map (\<lambda>(k, v). (k, JStr v)) payload) \<rparr>"

text \<open>What \<open>urlopen\<close> did, and what is reported about it.\<close>

datatype http_result = Answered_with nat string | Http_error nat string | Request_failed string

record dispatch_result =
  dp_index :: nat
  dp_status_code :: nat
  dp_response_body :: string

definition post_payload :: "(request \<Rightarrow> http_result) \<Rightarrow> (string, string) dict \<Rightarrow> string \<Rightarrow> nat \<Rightarrow> dispatch_result" where
  "post_payload urlopen payload correlation index =
     (case urlopen (sent_request payload correlation) of
        Answered_with sc body \<Rightarrow> \<lparr> dp_index = index, dp_status_code = sc, dp_response_body = body \<rparr>
      | Http_error sc body \<Rightarrow> \<lparr> dp_index = index, dp_status_code = sc, dp_response_body = body \<rparr>
      | Request_failed m \<Rightarrow>
          \<lparr> dp_index = index, dp_status_code = 0, dp_response_body = ''request_error: '' @ m \<rparr>)"

text \<open>The lines \<open>main\<close> prints; the generators and the network may answer each turn differently.\<close>

definition send_main ::
  "(nat \<Rightarrow> request \<Rightarrow> http_result) \<Rightarrow> (nat \<Rightarrow> draws) \<Rightarrow> (nat \<Rightarrow> string) \<Rightarrow> string \<Rightarrow> nat \<Rightarrow> string list" where
  "send_main net rnd correlations endpoint n =
     (let results = map (\<lambda>i. post_payload (net i) (build_payload i (rnd i)) (correlations i) i) [1 ..< n + 1];
          accepted = length (filter (\<lambda>r. dp_status_code r = 202) results)
      in [''Dispatching '' @ nat_str n @ '' webhooks to '' @ endpoint] @
         map (\<lambda>r. ''['' @ pad 3 (dp_index r) @ ''] status='' @ nat_str (dp_status_code r) @ '' body='' @ dp_response_body r) results @
         [[CHR 0x0A] @ ''Summary'', ''Accepted (202): '' @ nat_str accepted,
          ''Failed/other:   '' @ nat_str (length results - accepted)])"

text \<open>The event id of each kind of payload.\<close>

definition sent_event_id :: "nat \<Rightarrow> draws \<Rightarrow> string" where
  "sent_event_id i dw =
     (let suffix = pad 3 i @ ''-'' @ dw_uid dw in
      if i mod 4 = 0 then ''MRSK-EVT-'' @ suffix
      else if i mod 4 = 1 then ''ONE-'' @ suffix
      else if i mod 4 = 2 then ''GFP-INV-'' @ nat_str (dw_number dw) @ ''-EVT-'' @ suffix
      else ''MAR-ALERT-'' @ suffix)"

lemma mod_four: "(i :: nat) mod 4 = 0 \<or> i mod 4 = 1 \<or> i mod 4 = 2 \<or> i mod 4 = 3"
  by presburger

lemma first_id_of_payload: "first_truthy (build_payload i dw) [''event_id'', ''externalEventId'', ''id''] = sent_event_id i dw"
  by (simp add: build_payload_def sent_event_id_def Let_def)

lemma hex_word_not_space:
  assumes "list_all (\<lambda>c. hex_val c \<noteq> None) uid" "uid \<noteq> []"
  shows "\<not> is_space (last uid)"
proof -
  have "hex_val (last uid) \<noteq> None" using assms by (auto simp: list_all_iff)
  then have "48 \<le> code (last uid) \<and> code (last uid) \<le> 102" by (auto simp: hex_val_def Let_def split: if_splits)
  moreover have "c \<in> set py_whitespace \<Longrightarrow> code c < 48 \<or> 102 < code c" for c
    by (auto simp: py_whitespace_def)
  ultimately show ?thesis unfolding is_space_def by fastforce
qed

lemma sent_event_id_stripped:
  assumes "list_all (\<lambda>c. hex_val c \<noteq> None) (dw_uid dw)" "dw_uid dw \<noteq> []"
  shows "strip (sent_event_id i dw) = sent_event_id i dw" "sent_event_id i dw \<noteq> []"
proof -
  have "last (sent_event_id i dw) = last (dw_uid dw)"
    using assms(2) by (simp add: sent_event_id_def Let_def)
  moreover have "\<not> is_space (hd (sent_event_id i dw))"
    by (simp add: sent_event_id_def Let_def is_space_def py_whitespace_def)
  ultimately show "strip (sent_event_id i dw) = sent_event_id i dw"
    using hex_word_not_space [OF assms] unfolding strip_def by (intro strip_by_fixed) simp
  show "sent_event_id i dw \<noteq> []" by (simp add: sent_event_id_def Let_def)
qed

lemma stored_same_ids:
  assumes "dl_vendor q' = dl_vendor q" "dl_external_event_id q' = dl_external_event_id q"
    and "dl_idempotency_key q' = dl_idempotency_key q" "create_or_get q ws = Inr ((w, False), ws')"
    and "storable_delivery q'"
  shows "create_or_get q' ws = Inr ((w, False), ws')"
proof -
  have "same_key q' = same_key q" "same_event q' = same_event q"
    by (simp_all add: fun_eq_iff same_key_def same_event_def assms(1-3))
  then show ?thesis using stored_match [OF assms(4)] match_stored [OF assms(5)] assms(2) by simp
qed

lemma ingest_same_ids:
  assumes "webhook_constraints (db_webhooks (gw_db g))"
    and "ingest cfg cx payload vendor (Some k) g = Inr ((w, created), g')"
    and "extract_external_event_id payload' = extract_external_event_id payload" "strip k \<noteq> []"
    and "storable_delivery (delivery_of payload' vendor (Some k) (cx_stamp cx'))"
  shows "ingest cfg cx' payload' vendor (Some k) g' = Inr ((w, False), g')"
proof -
  have again: "ingest cfg cx payload vendor (Some k) g' = Inr ((w, False), g')"
    by (rule ingest_again [OF assms(1,2)])
  let ?q = "delivery_of payload vendor (Some k) (cx_stamp cx)"
  obtain ws where ws: "create_or_get ?q (db_webhooks (gw_db g')) = Inr ((w, False), ws)"
      "g' \<lparr> gw_db := (gw_db g') \<lparr> db_webhooks := ws \<rparr> \<rparr> = g'"
    using again by (auto simp: ingest_def Let_def split: prod.splits if_splits)
  have "create_or_get (delivery_of payload' vendor (Some k) (cx_stamp cx')) (db_webhooks (gw_db g')) = Inr ((w, False), ws)"
    by (rule stored_same_ids [OF _ _ _ ws(1) assms(5)])
       (use assms(3,4) in \<open>simp_all add: delivery_of_def Let_def build_idempotency_key_def\<close>)
  then show ?thesis using ws(2) by (simp add: ingest_def)
qed

lemma sent_headers:
  assumes "list_all (\<lambda>c. hex_val c \<noteq> None) (dw_uid dw)" "dw_uid dw \<noteq> []"
    and rq: "rq = sent_request (build_payload i dw) correlation"
  shows "obj_get (rq_data rq) ''vendor'' = JStr (resolve_vendor (rq_headers rq) (rq_data rq))"
    and "resolve_vendor (rq_headers rq) (rq_data rq) =
      [''Maersk'', ''Ocean Network Express'', ''GlobalFreightPay'', ''MarineAdvisoryFeed''] ! (i mod 4)"
    and "resolve_idempotency_key (rq_headers rq) = Some (take 255 (sent_event_id i dw))"
    and "extract_external_event_id (rq_data rq) = Some (take 255 (sent_event_id i dw))"
    and "header_get (rq_headers rq) SIGNATURE_HEADER = None"
    and "is_object (rq_data rq) \<and> truthy (rq_data rq)"
proof -
  note ids = sent_event_id_stripped [OF assms(1,2), of i]
  have low: "lower ''Idempotency-Key'' = ''idempotency-key''" "lower ''X-Webhook-Vendor'' = ''x-webhook-vendor''"
    "lower ''Content-Type'' = ''content-type''" "lower ''X-Correlation-ID'' = ''x-correlation-id''"
    "lower SIGNATURE_HEADER = ''x-webhook-signature''"
    by (code_simp)+
  have names: "strip ''Maersk'' = ''Maersk''" "strip ''Ocean Network Express'' = ''Ocean Network Express''"
    "strip ''GlobalFreightPay'' = ''GlobalFreightPay''" "strip ''MarineAdvisoryFeed'' = ''MarineAdvisoryFeed''"
    by code_simp+
  have vendor: "dict_get (build_payload i dw) ''vendor'' =
      Some ([''Maersk'', ''Ocean Network Express'', ''GlobalFreightPay'', ''MarineAdvisoryFeed''] ! (i mod 4))"
    using mod_four [of i] by (elim disjE) (simp_all add: build_payload_def Let_def)
  have members: "obj_get (rq_data rq) k = (case dict_get (build_payload i dw) k of None \<Rightarrow> JNull | Some v \<Rightarrow> JStr v)" for k
    by (simp add: rq sent_request_def map_of_map split: option.split)
  have stripped: "strip ([''Maersk'', ''Ocean Network Express'', ''GlobalFreightPay'', ''MarineAdvisoryFeed''] ! (i mod 4)) =
      [''Maersk'', ''Ocean Network Express'', ''GlobalFreightPay'', ''MarineAdvisoryFeed''] ! (i mod 4)"
    using mod_four [of i] by (elim disjE) (simp_all add: names)
  show v: "resolve_vendor (rq_headers rq) (rq_data rq) =
      [''Maersk'', ''Ocean Network Express'', ''GlobalFreightPay'', ''MarineAdvisoryFeed''] ! (i mod 4)"
    using mod_four [of i] vendor stripped
    by (elim disjE) (simp_all add: resolve_vendor_def rq sent_request_def header_get_def low VENDOR_HEADER_def MAX_VENDOR_LENGTH_def)
  show "obj_get (rq_data rq) ''vendor'' = JStr (resolve_vendor (rq_headers rq) (rq_data rq))"
    by (simp only: members v vendor option.case)
  show "resolve_idempotency_key (rq_headers rq) = Some (take 255 (sent_event_id i dw))"
    using ids first_id_of_payload [of i dw]
    by (simp add: resolve_idempotency_key_def rq sent_request_def header_get_def low IDEMPOTENCY_HEADER_def
        MAX_IDEMPOTENCY_HEADER_LENGTH_def Let_def del: first_truthy.simps)
  show "header_get (rq_headers rq) SIGNATURE_HEADER = None"
    by (simp add: rq sent_request_def header_get_def low)
  have "build_payload i dw \<noteq> []" by (simp add: build_payload_def Let_def)
  then show "is_object (rq_data rq) \<and> truthy (rq_data rq)" by (simp add: rq sent_request_def)
  have "first_named (rq_data rq) KNOWN_EVENT_ID_KEYS = Some (JStr (sent_event_id i dw))"
    using mod_four [of i] ids
    by (elim disjE) (simp_all add: KNOWN_EVENT_ID_KEYS_def members build_payload_def Let_def sent_event_id_def)
  then show "extract_external_event_id (rq_data rq) = Some (take 255 (sent_event_id i dw))"
    using \<open>is_object _ \<and> _\<close> by (simp add: extract_external_event_id_def)
qed

lemma hex_word_storable: "list_all (\<lambda>c. hex_val c \<noteq> None) uid \<Longrightarrow> storable_text uid"
  by (auto simp: storable_text_def list_all_iff hex_val_def Let_def)

lemma storable_choice: "\<forall>x \<in> set xs. storable_text x \<Longrightarrow> xs \<noteq> [] \<Longrightarrow> storable_text (choice xs n)"
  by (simp add: choice_def)

lemma storable_sent:
  assumes "list_all (\<lambda>c. hex_val c \<noteq> None) (dw_uid dw)" "storable_text (dw_amount dw)"
    and rq: "rq = sent_request (build_payload i dw) correlation"
  shows "storable_json (rq_data rq)" "storable_text (sent_event_id i dw)"
proof -
  have time: "storable_text (sent_iso_time now minutes)" for now minutes
    by (simp add: sent_iso_time_def storable split: option.split)
  note parts = hex_word_storable [OF assms(1)] assms(2) time storable_choice storable SENT_SHIPMENT_STATUSES_def
    SENT_INVOICE_STATUSES_def pad_def
  have "\<forall>(k, v) \<in> set (build_payload i dw). storable_text k \<and> storable_text v"
    using mod_four [of i] by (elim disjE) (simp_all add: build_payload_def Let_def parts)
  then show "storable_json (rq_data rq)" by (auto simp: rq sent_request_def)
  show "storable_text (sent_event_id i dw)" by (simp add: sent_event_id_def Let_def parts)
qed

lemma sent_delivery_storable:
  assumes "list_all (\<lambda>c. hex_val c \<noteq> None) (dw_uid dw)" "storable_text (dw_amount dw)"
    and rq: "rq = sent_request (build_payload i dw) correlation"
  shows "storable_delivery (delivery_of (rq_data rq)
    ([''Maersk'', ''Ocean Network Express'', ''GlobalFreightPay'', ''MarineAdvisoryFeed''] ! (i mod 4))
    (Some (take 255 (sent_event_id i dw))) stamp)"
  using mod_four [of i] storable_sent [OF assms]
  by (elim disjE) (intro delivery_of_storable; simp add: storable)+

lemma post_of_sent:
  assumes "read_request (rq_headers rq) (rq_data rq) (rq_body rq) SIGNATURE_HEADER = Inr iw"
    and "verify_signature cfg (iw_vendor iw) (iw_raw_body iw) (iw_signature iw) = Inr ()"
  shows "WebhookIngestionView_post cfg cx rq g =
    and_then (ingest cfg cx (iw_payload iw) (iw_vendor iw) (iw_idempotency_key iw) g)
      (\<lambda>((webhook, created), g'). Inr ((202, Body (rw_id webhook)), g'))"
  using assms by (simp add: WebhookIngestionView_post_def)

text \<open>The script and the service agree on what identifies a delivery: the vendor and the event id
  the service reads out of a request are the ones the script put into its payload and its
  \<open>Idempotency-Key\<close>.  So a rerun with the same ids is a no-op, whatever else was drawn afresh: it is
  accepted, answered with the same webhook, and changes nothing.\<close>

theorem resent_ids_are_noop:
  assumes "webhook_constraints (db_webhooks (gw_db g))"
    and "list_all (\<lambda>c. hex_val c \<noteq> None) (dw_uid dw)" "dw_uid dw \<noteq> []"
    and "dw_uid dw' = dw_uid dw" "dw_number dw' = dw_number dw" "storable_text (dw_amount dw')"
    and "WebhookIngestionView_post cfg cx (sent_request (build_payload i dw) cid) g = Inr ((202, b), g')"
  shows "WebhookIngestionView_post cfg cx' (sent_request (build_payload i dw') cid') g' = Inr ((202, b), g')"
proof -
  let ?rq = "sent_request (build_payload i dw) cid" and ?rq' = "sent_request (build_payload i dw') cid'"
  let ?v = "[''Maersk'', ''Ocean Network Express'', ''GlobalFreightPay'', ''MarineAdvisoryFeed''] ! (i mod 4)"
  let ?k = "take 255 (sent_event_id i dw)"
  have same: "sent_event_id i dw' = sent_event_id i dw" using assms(4,5) by (simp add: sent_event_id_def Let_def)
  note h = sent_headers [OF assms(2,3) refl, of i cid]
  have hex': "list_all (\<lambda>c. hex_val c \<noteq> None) (dw_uid dw')" "dw_uid dw' \<noteq> []" using assms(2-4) by simp_all
  note h' = sent_headers [OF hex' refl, of i cid', unfolded same]
  let ?iw = "\<lambda>rq. \<lparr> iw_vendor = ?v, iw_payload = rq_data rq, iw_raw_body = rq_body rq,
      iw_idempotency_key = Some ?k, iw_signature = None \<rparr> :: inbound_webhook"
  have r: "read_request (rq_headers ?rq) (rq_data ?rq) (rq_body ?rq) SIGNATURE_HEADER = Inr (?iw ?rq)"
    unfolding read_request_Inr using h by simp
  have r': "read_request (rq_headers ?rq') (rq_data ?rq') (rq_body ?rq') SIGNATURE_HEADER = Inr (?iw ?rq')"
    unfolding read_request_Inr using h' by simp
  have sig: "verify_signature cfg ?v (rq_body ?rq) None = Inr ()"
  proof (cases "verify_signature cfg ?v (rq_body ?rq) None")
    case (Inl e)
    then have "WebhookIngestionView_post cfg cx ?rq g \<noteq> Inr ((202, b), g')"
      using r by (simp add: WebhookIngestionView_post_def split: exn.splits)
    then show ?thesis using assms(7) by simp
  qed simp
  then have sig': "verify_signature cfg ?v (rq_body ?rq') None = Inr ()"
    by (auto simp: verify_signature_def split: option.splits if_splits)
  obtain w created where i1: "ingest cfg cx (rq_data ?rq) ?v (Some ?k) g = Inr ((w, created), g')" "b = Body (rw_id w)"
    using assms(7) post_of_sent [OF r, of cfg cx g] sig by auto
  have "strip ?k \<noteq> []"
    using resolve_idempotency_key_not_blank [OF h(3)] .
  then have "ingest cfg cx' (rq_data ?rq') ?v (Some ?k) g' = Inr ((w, False), g')"
    using ingest_same_ids [OF assms(1) i1(1)] h(4) h'(4) sent_delivery_storable [OF hex'(1) assms(6) refl, of i cid' "cx_stamp cx'"]
    by (simp add: same)
  then show ?thesis using post_of_sent [OF r', of cfg cx' g'] sig' i1(2) by simp
qed

section \<open>Witnesses\<close>

lemma maersk_storable: "\<forall>sample \<in> set [(''maersk_shipment.json'', [(''vendor'', JStr ''Maersk'')])]. storable_sample sample"
  by (simp add: storable_sample_def seed_vendor_def)

theorem seeding_twice_is_noop_witness:
  "\<exists>message g' rest. seed_demo default_settings (\<lambda>_ _. at_noon) [(''maersk_shipment.json'', [(''vendor'', JStr ''Maersk'')])] 2 empty_gateway
      = Inr (message, g') \<and>
     seed_demo default_settings (\<lambda>_ i. at_noon \<lparr> cx_now := of_nat i \<rparr>) [(''maersk_shipment.json'', [(''vendor'', JStr ''Maersk'')])] 2 g' =
       Inr (''Seeded 0 new webhook(s), skipped '' @ nat_str (1 * nat (max 1 2)) @ '' already present. '' @ rest, g')"
  using seeding_twice_is_noop [OF empty_gateway_ok _ maersk_storable, of
      default_settings "\<lambda>_ _. at_noon" 2 "\<lambda>_ i. at_noon \<lparr> cx_now := of_nat i \<rparr>"]
  by simp

theorem demo_login_is_opt_in_witness:
  "\<exists>message new g'. seed_handle id default_settings (\<lambda>_ _. at_noon) [(''maersk_shipment.json'', [(''vendor'', JStr ''Maersk'')])] 2
       ''demo'' ''x'' ([], empty_gateway) = Inr (message, [] @ new, g') \<and>
     (\<exists>message'. seed_handle id default_settings (\<lambda>_ _. at_noon) [(''maersk_shipment.json'', [(''vendor'', JStr ''Maersk'')])] 2
       ''demo'' ''y'' ([] @ new, g') = Inr (message', [] @ new, g'))"
  using demo_login_is_opt_in [OF empty_gateway_ok _ maersk_storable, of
      id default_settings "\<lambda>_ _. at_noon" 2 "''demo''" "''x''" "[]" "\<lambda>_ _. at_noon"]
  by blast

definition sample_draws :: draws where
  "sample_draws = \<lparr> dw_uid = ''0a1b2c3d'', dw_number = 123456, dw_word = 0, dw_place = 0, dw_amount = ''150.00'', dw_now = 0 \<rparr>"

lemma unsigned_by_default: "verify_signature default_settings vendor body sig = Inr ()"
  by (simp add: verify_signature_def secret_for_vendor_def secrets_def default_settings_def parse_signing_secrets_def
      parse_secret_pair_def strip_def strip_by_def lstrip_by_def)

theorem resent_ids_are_noop_witness:
  "\<exists>b g'. WebhookIngestionView_post default_settings at_noon (sent_request (build_payload 4 sample_draws) ''c1'') empty_gateway
      = Inr ((202, b), g') \<and>
     WebhookIngestionView_post default_settings at_noon
       (sent_request (build_payload 4 (sample_draws \<lparr> dw_word := 3, dw_now := 86400 \<rparr>)) ''c2'') g' = Inr ((202, b), g')"
proof -
  have hex: "list_all (\<lambda>c. hex_val c \<noteq> None) (dw_uid sample_draws)" "dw_uid sample_draws \<noteq> []"
    by (simp_all add: sample_draws_def hex_val_def Let_def)
  let ?rq = "sent_request (build_payload 4 sample_draws) ''c1''"
  have r: "read_request (rq_headers ?rq) (rq_data ?rq) (rq_body ?rq) SIGNATURE_HEADER =
      Inr \<lparr> iw_vendor = resolve_vendor (rq_headers ?rq) (rq_data ?rq), iw_payload = rq_data ?rq, iw_raw_body = rq_body ?rq,
        iw_idempotency_key = resolve_idempotency_key (rq_headers ?rq), iw_signature = header_get (rq_headers ?rq) SIGNATURE_HEADER \<rparr>"
    unfolding read_request_Inr using sent_headers(6) [OF hex refl, of 4 "''c1''"] by simp
  obtain w c g' where "ingest default_settings at_noon (rq_data ?rq) (resolve_vendor (rq_headers ?rq) (rq_data ?rq))
      (resolve_idempotency_key (rq_headers ?rq)) empty_gateway = Inr ((w, c), g')"
  proof (cases rule: ingest_cases [OF empty_gateway_ok, of default_settings at_noon "rq_data ?rq"
      "resolve_vendor (rq_headers ?rq) (rq_data ?rq)" "resolve_idempotency_key (rq_headers ?rq)"])
    case (3 m)
    have "storable_text (dw_amount sample_draws)" by (simp add: sample_draws_def)
    from sent_delivery_storable [OF hex(1) this refl, of 4 "''c1''" "cx_stamp at_noon"] 3(1)
    show ?thesis using sent_headers(2,3) [OF hex refl, of 4 "''c1''"] by simp
  qed blast+
  then have "WebhookIngestionView_post default_settings at_noon ?rq empty_gateway = Inr ((202, Body (rw_id w)), g')"
    using post_of_sent [OF r, of default_settings at_noon empty_gateway] unsigned_by_default by simp
  then show ?thesis
    using resent_ids_are_noop [OF empty_gateway_ok hex _ _ _ \<open>WebhookIngestionView_post _ _ _ _ = _\<close>,
        of "sample_draws \<lparr> dw_word := 3, dw_now := 86400 \<rparr>" at_noon "''c2''"] by (auto simp: sample_draws_def)
qed

end
