(* ===== verification/Urls.thy ===== *)
theory Urls
  imports Py_Text Py_Hash
begin

text \<open>
  The URL tables \<open>config/urls.py\<close> and \<open>apps/*/urls.py\<close>, and Django's resolution of them: the
  patterns are tried in order, an included table is tried on the rest of the path and falls
  through when it has no match, and each converter of the tables stands between two slashes and
  matches no slash.  Request ids are the numbers of the UUIDs in the paths.
\<close>

section \<open>UUIDs\<close>

primrec hex_word :: "nat \<Rightarrow> nat \<Rightarrow> string" where
  "hex_word 0 n = []"
| "hex_word (Suc w) n = hex_word w (n div 16) @ [hex_digit (n mod 16)]"

definition uuid_str :: "nat \<Rightarrow> string" where
  "uuid_str n = hex_word 8 (n div 16 ^ 24) @ ''-'' @ hex_word 4 (n div 16 ^ 20) @ ''-'' @
     hex_word 4 (n div 16 ^ 16) @ ''-'' @ hex_word 4 (n div 16 ^ 12) @ ''-'' @ hex_word 12 n"

definition lower_hex :: "char \<Rightarrow> nat option" where
  "lower_hex c = find (\<lambda>d. hex_digit d = c) [0 ..< 16]"

definition hex_value :: "string \<Rightarrow> nat" where
  "hex_value s = foldl (\<lambda>n c. 16 * n + (case lower_hex c of None \<Rightarrow> 0 | Some d \<Rightarrow> d)) 0 s"

definition uuid_of :: "string \<Rightarrow> nat option" where
  "uuid_of s =
     (let groups = split_on (CHR ''-'') s in
      if map length groups = [8, 4, 4, 4, 12] \<and> list_all (\<lambda>c. lower_hex c \<noteq> None) (concat groups)
      then Some (hex_value (concat groups)) else None)"

section \<open>Patterns\<close>

datatype part =
    Lit string
  | IntPart
  | StrPart
  | UuidPart

datatype arg =
    IntArg nat
  | StrArg string
  | UuidArg nat

text \<open>One segment of a route; the names of the arguments do not matter here.\<close>

definition part_of :: "string \<Rightarrow> part" where
  "part_of seg =
     (if starts_with ''<int:'' seg then IntPart
      else if starts_with ''<str:'' seg then StrPart
      else if starts_with ''<uuid:'' seg then UuidPart
      else Lit seg)"

definition route_parts :: "string \<Rightarrow> part list" where
  "route_parts route = map part_of (split_on (CHR ''/'') route)"

fun match_part :: "part \<Rightarrow> string \<Rightarrow> arg list option" where
  "match_part (Lit l) seg = (if seg = l then Some [] else None)"
| "match_part IntPart seg =
     (if seg \<noteq> [] \<and> list_all is_ascii_digit seg then Some [IntArg (digits_val seg)] else None)"
| "match_part StrPart seg = (if seg \<noteq> [] then Some [StrArg seg] else None)"
| "match_part UuidPart seg = map_option (\<lambda>n. [UuidArg n]) (uuid_of seg)"

fun match_parts :: "part list \<Rightarrow> string list \<Rightarrow> arg list option" where
  "match_parts [] [] = Some []"
| "match_parts (p # ps) (s # ss) =
     (case match_part p s of
        None \<Rightarrow> None
      | Some as \<Rightarrow> map_option (\<lambda>bs. as @ bs) (match_parts ps ss))"
| "match_parts ps ss = None"

fun drop_prefix :: "string \<Rightarrow> string \<Rightarrow> string option" where
  "drop_prefix [] s = Some s"
| "drop_prefix (c # p) [] = None"
| "drop_prefix (c # p) (d # s) = (if c = d then drop_prefix p s else None)"

section \<open>The tables\<close>

datatype view =
    AdminSite
  | SpectacularAPIView
  | SpectacularSwaggerView
  | SpectacularRedocView
  | HealthView
  | WebhookIngestionView
  | WebhookReplayView
  | LowConfidenceQueueView
  | ReviewQueueView
  | ReviewDecisionView
  | CalibrationView
  | VendorProfileListView
  | VendorDiscoveryView
  | VendorProfileDetailView
  | EntityStateView

text \<open>An application's own site takes every path below its route.\<close>

datatype url =
    Path string view
  | Include string "url list"
  | Site string view

definition ingestion_urlpatterns :: "url list" where
  "ingestion_urlpatterns =
     [Path ''health/'' HealthView,
      Path ''webhooks/'' WebhookIngestionView,
      Path ''webhooks/<uuid:webhook_id>/replay/'' WebhookReplayView]"

definition normalization_urlpatterns :: "url list" where
  "normalization_urlpatterns =
     [Path ''normalization/low-confidence/'' LowConfidenceQueueView,
      Path ''normalization/review-queue/'' ReviewQueueView,
      Path ''normalization/review-queue/<int:event_id>/'' ReviewDecisionView,
      Path ''normalization/calibration/'' CalibrationView,
      Path ''normalization/vendor-profiles/'' VendorProfileListView,
      Path ''normalization/vendor-profiles/discover/'' VendorDiscoveryView,
      Path ''normalization/vendor-profiles/<str:vendor>/'' VendorProfileDetailView]"

definition entities_urlpatterns :: "url list" where
  "entities_urlpatterns = [Path ''entities/state/'' EntityStateView]"

definition urlpatterns :: "url list" where
  "urlpatterns =
     [Site ''admin/'' AdminSite,
      Path ''api/schema/'' SpectacularAPIView,
      Path ''api/docs/'' SpectacularSwaggerView,
      Path ''api/redoc/'' SpectacularRedocView,
      Include ''api/'' ingestion_urlpatterns,
      Include ''api/'' normalization_urlpatterns,
      Include ''api/'' entities_urlpatterns]"

section \<open>Resolution\<close>

fun resolve :: "url list \<Rightarrow> string \<Rightarrow> (view \<times> arg list) option" where
  "resolve [] path = None"
| "resolve (Path route view # us) path =
     (case match_parts (route_parts route) (split_on (CHR ''/'') path) of
        Some args \<Rightarrow> Some (view, args)
      | None \<Rightarrow> resolve us path)"
| "resolve (Include route sub # us) path =
     (case drop_prefix route path of
        None \<Rightarrow> resolve us path
      | Some rest \<Rightarrow> (case resolve sub rest of Some found \<Rightarrow> Some found | None \<Rightarrow> resolve us path))"
| "resolve (Site route view # us) path =
     (case drop_prefix route path of None \<Rightarrow> resolve us path | Some rest \<Rightarrow> Some (view, []))"

definition resolve_path :: "string \<Rightarrow> (view \<times> arg list) option" where
  "resolve_path path = (case drop_prefix ''/'' path of None \<Rightarrow> None | Some rest \<Rightarrow> resolve urlpatterns rest)"

text \<open>The path of a view with its arguments, as a client writes it.\<close>

fun arg_str :: "arg \<Rightarrow> string" where
  "arg_str (IntArg n) = nat_str n"
| "arg_str (StrArg s) = s"
| "arg_str (UuidArg n) = uuid_str n"

fun fill_parts :: "part list \<Rightarrow> arg list \<Rightarrow> string list" where
  "fill_parts [] as = []"
| "fill_parts (Lit l # ps) as = l # fill_parts ps as"
| "fill_parts (p # ps) [] = [] # fill_parts ps []"
| "fill_parts (p # ps) (a # as) = arg_str a # fill_parts ps as"

section \<open>Hexadecimal words\<close>

lemma length_hex_word [simp]: "length (hex_word w n) = w"
  by (induction w arbitrary: n) simp_all

lemma hex_word_append: "hex_word (a + b) n = hex_word a (n div 16 ^ b) @ hex_word b n"
proof (induction b arbitrary: n)
  case (Suc b)
  have "hex_word (a + Suc b) n = hex_word (a + b) (n div 16) @ [hex_digit (n mod 16)]" by simp
  then show ?case using Suc.IH [of "n div 16"] by (simp add: div_mult2_eq)
qed simp

lemma lower_hex_digit: "d < 16 \<Longrightarrow> lower_hex (hex_digit d) = Some d"
proof -
  have "\<forall>d \<in> set [0 ..< 16]. lower_hex (hex_digit d) = Some d" by code_simp
  then show "d < 16 \<Longrightarrow> lower_hex (hex_digit d) = Some d" by simp
qed

lemma hex_word_lower: "c \<in> set (hex_word w n) \<Longrightarrow> lower_hex c \<noteq> None"
  by (induction w arbitrary: n) (auto simp: lower_hex_digit)

lemma hex_value_word: "hex_value (hex_word w n) = n mod 16 ^ w"
proof (induction w arbitrary: n)
  case (Suc w)
  have "n mod 16 ^ Suc w = 16 * (n div 16 mod 16 ^ w) + n mod 16"
    using mod_mult2_eq [of n 16 "16 ^ w"] by simp
  then show ?case using Suc.IH [of "n div 16"] by (simp add: hex_value_def lower_hex_digit)
qed (simp add: hex_value_def)

lemma separators_not_hex: "CHR ''-'' \<notin> set (hex_word w n)" "CHR ''/'' \<notin> set (hex_word w n)"
proof -
  have "lower_hex (CHR ''-'') = None" "lower_hex (CHR ''/'') = None" by code_simp+
  then show "CHR ''-'' \<notin> set (hex_word w n)" "CHR ''/'' \<notin> set (hex_word w n)"
    using hex_word_lower by metis+
qed

lemma split_on_sep: "c \<notin> set s \<Longrightarrow> split_on c (s @ c # t) = s # split_on c t"
  by (induction s) auto

lemma split_on_none: "c \<notin> set s \<Longrightarrow> split_on c s = [s]"
  by (induction s) auto

lemma uuid_groups:
  "split_on (CHR ''-'') (uuid_str n) =
     [hex_word 8 (n div 16 ^ 24), hex_word 4 (n div 16 ^ 20), hex_word 4 (n div 16 ^ 16),
      hex_word 4 (n div 16 ^ 12), hex_word 12 n]"
  by (simp add: uuid_str_def split_on_sep split_on_none separators_not_hex)

lemma uuid_joined:
  "hex_word 8 (n div 16 ^ 24) @ hex_word 4 (n div 16 ^ 20) @ hex_word 4 (n div 16 ^ 16) @
     hex_word 4 (n div 16 ^ 12) @ hex_word 12 n = hex_word 32 n"
  using hex_word_append [of 20 12 n] hex_word_append [of 16 4 "n div 16 ^ 12"]
    hex_word_append [of 12 4 "n div 16 ^ 16"] hex_word_append [of 8 4 "n div 16 ^ 20"]
  by (simp add: div_mult2_eq [symmetric])

lemma uuid_roundtrip: "n < 2 ^ 128 \<Longrightarrow> uuid_of (uuid_str n) = Some n"
  unfolding uuid_of_def uuid_groups Let_def
  using hex_value_word [of 32 n] hex_word_lower [of _ 32 n] uuid_joined [of n]
  by (simp add: list_all_iff)

lemma uuid_no_slash: "CHR ''/'' \<notin> set (uuid_str n)"
  by (simp add: uuid_str_def separators_not_hex)

section \<open>The table of the interface\<close>

text \<open>The patterns below \<open>/api/\<close>, flattened, and the part of the resolution that is a first match.\<close>

fun first_match :: "(part list \<times> view) list \<Rightarrow> string list \<Rightarrow> (view \<times> arg list) option" where
  "first_match [] segs = None"
| "first_match ((ps, v) # table) segs =
     (case match_parts ps segs of Some args \<Rightarrow> Some (v, args) | None \<Rightarrow> first_match table segs)"

definition api_table :: "(part list \<times> view) list" where
  "api_table =
     [([Lit ''schema'', Lit []], SpectacularAPIView),
      ([Lit ''docs'', Lit []], SpectacularSwaggerView),
      ([Lit ''redoc'', Lit []], SpectacularRedocView),
      ([Lit ''health'', Lit []], HealthView),
      ([Lit ''webhooks'', Lit []], WebhookIngestionView),
      ([Lit ''webhooks'', UuidPart, Lit ''replay'', Lit []], WebhookReplayView),
      ([Lit ''normalization'', Lit ''low-confidence'', Lit []], LowConfidenceQueueView),
      ([Lit ''normalization'', Lit ''review-queue'', Lit []], ReviewQueueView),
      ([Lit ''normalization'', Lit ''review-queue'', IntPart, Lit []], ReviewDecisionView),
      ([Lit ''normalization'', Lit ''calibration'', Lit []], CalibrationView),
      ([Lit ''normalization'', Lit ''vendor-profiles'', Lit []], VendorProfileListView),
      ([Lit ''normalization'', Lit ''vendor-profiles'', Lit ''discover'', Lit []], VendorDiscoveryView),
      ([Lit ''normalization'', Lit ''vendor-profiles'', StrPart, Lit []], VendorProfileDetailView),
      ([Lit ''entities'', Lit ''state'', Lit []], EntityStateView)]"

lemma first_match_append:
  "first_match (t @ u) segs = (case first_match t segs of Some m \<Rightarrow> Some m | None \<Rightarrow> first_match u segs)"
  by (induction t) (auto split: option.split)

lemma split_api: "split_on (CHR ''/'') (''api/'' @ rest) = ''api'' # split_on (CHR ''/'') rest"
  using split_on_sep [of "CHR ''/''" "''api''" rest] by simp

definition parsed :: "url \<Rightarrow> part list \<times> view" where
  "parsed u = (case u of Path r v \<Rightarrow> (route_parts r, v) | Include r us \<Rightarrow> ([], AdminSite) | Site r v \<Rightarrow> ([], v))"

text \<open>Below \<open>/api/\<close> the nested tables resolve as the flat one: the first pattern that matches the
  segments of the path, whichever application has it.\<close>

theorem resolve_api:
  "resolve_path (''/api/'' @ rest) = first_match api_table (split_on (CHR ''/'') rest)"
proof -
  let ?segs = "split_on (CHR ''/'') rest"
  have p: "list_all (\<lambda>u. case u of Path r v \<Rightarrow> True | _ \<Rightarrow> False) us \<Longrightarrow> resolve us rest = first_match (map parsed us) ?segs" for us
    by (induction us) (auto simp: parsed_def split: url.splits option.split)
  have s: "resolve ingestion_urlpatterns rest = first_match (map parsed ingestion_urlpatterns) ?segs"
    "resolve normalization_urlpatterns rest = first_match (map parsed normalization_urlpatterns) ?segs"
    "resolve entities_urlpatterns rest = first_match (map parsed entities_urlpatterns) ?segs"
    by (rule p, simp add: ingestion_urlpatterns_def normalization_urlpatterns_def entities_urlpatterns_def)+
  have t: "api_table = take 3 api_table @ map parsed ingestion_urlpatterns @ map parsed normalization_urlpatterns
      @ map parsed entities_urlpatterns" by code_simp
  have d: "route_parts ''api/schema/'' = Lit ''api'' # [Lit ''schema'', Lit []]"
    "route_parts ''api/docs/'' = Lit ''api'' # [Lit ''docs'', Lit []]"
    "route_parts ''api/redoc/'' = Lit ''api'' # [Lit ''redoc'', Lit []]"
    "take 3 api_table = [([Lit ''schema'', Lit []], SpectacularAPIView), ([Lit ''docs'', Lit []], SpectacularSwaggerView),
      ([Lit ''redoc'', Lit []], SpectacularRedocView)]" by code_simp+
  have lit: "match_parts (Lit ''api'' # ps) (''api'' # segs) = match_parts ps segs" for ps segs
    by (cases "match_parts ps segs") simp_all
  have pre: "drop_prefix ''/'' (''/api/'' @ rest) = Some (''api/'' @ rest)" "drop_prefix ''admin/'' (''api/'' @ rest) = None"
    "drop_prefix ''api/'' (''api/'' @ rest) = Some rest" by simp_all
  have "resolve_path (''/api/'' @ rest) = first_match (take 3 api_table @ map parsed ingestion_urlpatterns
      @ map parsed normalization_urlpatterns @ map parsed entities_urlpatterns) ?segs"
    unfolding resolve_path_def pre urlpatterns_def resolve.simps split_api d first_match_append option.case lit s
    by (simp only: first_match.simps append.simps split: option.split) simp
  then show ?thesis unfolding t [symmetric] .
qed

section \<open>Paths and back\<close>

fun fits :: "part list \<Rightarrow> arg list \<Rightarrow> bool" where
  "fits [] [] = True"
| "fits (Lit l # ps) as = fits ps as"
| "fits (IntPart # ps) (IntArg n # as) = fits ps as"
| "fits (StrPart # ps) (StrArg s # as) = (s \<noteq> [] \<and> CHR ''/'' \<notin> set s \<and> fits ps as)"
| "fits (UuidPart # ps) (UuidArg n # as) = (n < 2 ^ 128 \<and> fits ps as)"
| "fits ps as = False"

definition parts_of :: "view \<Rightarrow> part list" where
  "parts_of v = (case find (\<lambda>(ps, u). u = v) api_table of None \<Rightarrow> [] | Some (ps, u) \<Rightarrow> ps)"

definition api_url :: "view \<Rightarrow> arg list \<Rightarrow> string" where
  "api_url v args = ''/api/'' @ join ''/'' (fill_parts (parts_of v) args)"

lemma split_on_segments:
  "segs \<noteq> [] \<Longrightarrow> \<forall>s \<in> set segs. c \<notin> set s \<Longrightarrow> split_on c (join [c] segs) = segs"
  by (induction "[c]" segs rule: join.induct) (simp_all add: split_on_sep split_on_none)

lemma match_filled: "fits ps args \<Longrightarrow> match_parts ps (fill_parts ps args) = Some args"
  by (induction ps args rule: fits.induct)
     (auto simp: uuid_roundtrip list_all_iff nat_str_digits)

lemma fits_int: "fits [IntPart, Lit []] args \<longleftrightarrow> (\<exists>n. args = [IntArg n])"
  and fits_str: "fits [StrPart, Lit []] args \<longleftrightarrow> (\<exists>s. args = [StrArg s] \<and> s \<noteq> [] \<and> CHR ''/'' \<notin> set s)"
  and fits_uuid: "fits [UuidPart, Lit r, Lit []] args \<longleftrightarrow> (\<exists>n. args = [UuidArg n] \<and> n < 2 ^ 128)"
  and fits_none: "fits [Lit []] args \<longleftrightarrow> args = []"
  by (cases args rule: list.exhaust; cases "hd args"; cases "tl args"; simp)+

definition interface :: "view set" where
  "interface = {HealthView, WebhookIngestionView, WebhookReplayView, LowConfidenceQueueView, ReviewQueueView,
     ReviewDecisionView, CalibrationView, VendorProfileListView, VendorDiscoveryView, VendorProfileDetailView,
     EntityStateView}"

lemma parts_of_simps:
  "parts_of HealthView = [Lit ''health'', Lit []]"
  "parts_of WebhookIngestionView = [Lit ''webhooks'', Lit []]"
  "parts_of WebhookReplayView = [Lit ''webhooks'', UuidPart, Lit ''replay'', Lit []]"
  "parts_of LowConfidenceQueueView = [Lit ''normalization'', Lit ''low-confidence'', Lit []]"
  "parts_of ReviewQueueView = [Lit ''normalization'', Lit ''review-queue'', Lit []]"
  "parts_of ReviewDecisionView = [Lit ''normalization'', Lit ''review-queue'', IntPart, Lit []]"
  "parts_of CalibrationView = [Lit ''normalization'', Lit ''calibration'', Lit []]"
  "parts_of VendorProfileListView = [Lit ''normalization'', Lit ''vendor-profiles'', Lit []]"
  "parts_of VendorDiscoveryView = [Lit ''normalization'', Lit ''vendor-profiles'', Lit ''discover'', Lit []]"
  "parts_of VendorProfileDetailView = [Lit ''normalization'', Lit ''vendor-profiles'', StrPart, Lit []]"
  "parts_of EntityStateView = [Lit ''entities'', Lit ''state'', Lit []]"
  by (simp_all add: parts_of_def api_table_def)

lemma filled_no_slash:
  "fits ps args \<Longrightarrow> \<forall>l. Lit l \<in> set ps \<longrightarrow> CHR ''/'' \<notin> set l \<Longrightarrow> s \<in> set (fill_parts ps args) \<Longrightarrow> CHR ''/'' \<notin> set s"
  by (induction ps args rule: fits.induct) (auto simp: uuid_no_slash dest: nat_str_digits simp: is_ascii_digit_def)

lemma fill_parts_Nil: "fill_parts ps args = [] \<longleftrightarrow> ps = []"
  by (cases "(ps, args)" rule: fill_parts.cases) simp_all

lemma resolve_url:
  assumes "fits (parts_of v) args" "parts_of v \<noteq> []" "\<forall>l. Lit l \<in> set (parts_of v) \<longrightarrow> CHR ''/'' \<notin> set l"
  shows "resolve_path (api_url v args) = first_match api_table (fill_parts (parts_of v) args)"
proof -
  have "fill_parts (parts_of v) args \<noteq> []" using assms(2) by (simp add: fill_parts_Nil)
  then show ?thesis unfolding api_url_def resolve_api
    using split_on_segments filled_no_slash [OF assms(1,3)] by simp
qed

text \<open>C39. Every path a client builds from the tables reaches the view it was built for, with the arguments
  it was built from, with one exception: a vendor called \<open>discover\<close> has no profile path.\<close>

theorem url_roundtrip:
  assumes "v \<in> interface" "fits (parts_of v) args" "(v, args) \<noteq> (VendorProfileDetailView, [StrArg ''discover''])"
  shows "resolve_path (api_url v args) = Some (v, args)"
proof -
  have "parts_of v \<noteq> []" "\<forall>l. Lit l \<in> set (parts_of v) \<longrightarrow> CHR ''/'' \<notin> set l"
    using assms(1) by (auto simp: interface_def parts_of_simps)
  note r = resolve_url [OF assms(2) this]
  have m: "match_parts (parts_of v) (fill_parts (parts_of v) args) = Some args" by (rule match_filled [OF assms(2)])
  show ?thesis
    using assms m unfolding r interface_def
    by (auto simp: parts_of_simps api_table_def fits_int fits_str fits_uuid fits_none split: if_splits)
qed

lemma drop_prefix_Some: "drop_prefix p s = Some r \<longleftrightarrow> s = p @ r"
  by (induction p s rule: drop_prefix.induct) auto

lemma interface_below_api:
  assumes "resolve_path path = Some (v, args)" "v \<in> interface"
  shows "\<exists>rest. path = ''/api/'' @ rest"
proof -
  obtain p where p: "path = ''/'' @ p" "resolve urlpatterns p = Some (v, args)"
    using assms(1) by (auto simp: resolve_path_def drop_prefix_Some split: option.splits)
  have "\<exists>rest. p = ''api/'' @ rest"
    using p(2) assms(2) unfolding urlpatterns_def resolve.simps drop_prefix_Some [symmetric]
    by (auto simp: interface_def split: option.splits)
  then show ?thesis using p(1) by auto
qed

lemma match_profile:
  "match_parts [Lit a, Lit b, StrPart, Lit []] segs = Some args \<longleftrightarrow>
     (\<exists>s. segs = [a, b, s, []] \<and> s \<noteq> [] \<and> args = [StrArg s])"
  by (cases segs; cases "tl segs"; cases "tl (tl segs)"; cases "tl (tl (tl segs))"; cases "tl (tl (tl (tl segs)))")
     (auto split: option.splits if_splits)

text \<open>No path at all reaches the profile of a vendor that is called \<open>discover\<close> or has a slash in its
  name; the path written for the first is the discovery endpoint.\<close>

theorem unaddressable_vendors:
  assumes "resolve_path path = Some (VendorProfileDetailView, args)"
  shows "\<exists>vendor. args = [StrArg vendor] \<and> vendor \<noteq> [] \<and> CHR ''/'' \<notin> set vendor \<and> vendor \<noteq> ''discover''"
proof -
  obtain rest where rest: "path = ''/api/'' @ rest" using interface_below_api [OF assms] by (auto simp: interface_def)
  define segs where "segs = split_on (CHR ''/'') rest"
  have f: "first_match api_table segs = Some (VendorProfileDetailView, args)"
    using assms unfolding rest resolve_api segs_def .
  have m: "match_parts [Lit ''normalization'', Lit ''vendor-profiles'', StrPart, Lit []] segs = Some args"
    "match_parts [Lit ''normalization'', Lit ''vendor-profiles'', Lit ''discover'', Lit []] segs = None"
    using f unfolding api_table_def first_match.simps by (auto simp del: match_parts.simps split: option.splits)
  then obtain s where s: "segs = [''normalization'', ''vendor-profiles'', s, []]" "s \<noteq> []" "args = [StrArg s]"
    unfolding match_profile by blast
  have "CHR ''/'' \<notin> set s" using s(1) split_on_no_sep [of s "CHR ''/''" rest] unfolding segs_def by simp
  moreover have "s \<noteq> ''discover''" using m(2) s(1) by auto
  ultimately show ?thesis using s by blast
qed

section \<open>Witnesses\<close>

theorem url_roundtrip_witness:
  "resolve_path (api_url ReviewDecisionView [IntArg 7]) = Some (ReviewDecisionView, [IntArg 7])"
  by (rule url_roundtrip) (simp_all add: interface_def parts_of_simps)

theorem unaddressable_vendors_witness:
  "\<exists>vendor. [StrArg ''acme''] = [StrArg vendor] \<and> vendor \<noteq> [] \<and> CHR ''/'' \<notin> set vendor \<and> vendor \<noteq> ''discover''"
proof -
  have "resolve_path ''/api/normalization/vendor-profiles/acme/'' = Some (VendorProfileDetailView, [StrArg ''acme''])"
    by code_simp
  then show ?thesis by (rule unaddressable_vendors)
qed

end
