(* ===== verification/Calibration.thy ===== *)
theory Calibration
  imports Review
begin

text \<open>
  \<open>apps/normalization/calibration.py\<close>, the endpoint that serves it and the management command that
  prints it: where reviewers' decisions put the confidence threshold, per vendor.  The grouping
  and the aggregates are the database's: \<open>Count\<close>, \<open>Avg\<close>, \<open>Min\<close> and \<open>Max\<close> over the rows of a
  vendor, null over no row, with NaN above every other value as PostgreSQL orders it; averages are
  exact, and text is ordered by code points.
\<close>

section \<open>Aggregates\<close>

definition pg_less :: "pyfloat \<Rightarrow> pyfloat \<Rightarrow> bool" where
  "pg_less a b = (if b = NaN then a \<noteq> NaN else flt_less a b)"

definition pg_min :: "pyfloat list \<Rightarrow> pyfloat option" where
  "pg_min xs =
     (case xs of [] \<Rightarrow> None | x # ys \<Rightarrow> Some (foldl (\<lambda>a b. if pg_less b a then b else a) x ys))"

definition pg_max :: "pyfloat list \<Rightarrow> pyfloat option" where
  "pg_max xs =
     (case xs of [] \<Rightarrow> None | x # ys \<Rightarrow> Some (foldl (\<lambda>a b. if pg_less a b then b else a) x ys))"

fun flt_add :: "pyfloat \<Rightarrow> pyfloat \<Rightarrow> pyfloat" where
  "flt_add (Fin a) (Fin b) = Fin (a + b)"
| "flt_add NaN b = NaN"
| "flt_add a NaN = NaN"
| "flt_add PInf NInf = NaN"
| "flt_add NInf PInf = NaN"
| "flt_add PInf b = PInf"
| "flt_add a PInf = PInf"
| "flt_add NInf b = NInf"
| "flt_add a NInf = NInf"

fun flt_over :: "pyfloat \<Rightarrow> nat \<Rightarrow> pyfloat" where
  "flt_over (Fin a) n = Fin (a / of_nat n)"
| "flt_over x n = x"

definition pg_avg :: "pyfloat list \<Rightarrow> pyfloat option" where
  "pg_avg xs = (if xs = [] then None else Some (flt_over (foldl flt_add (Fin 0) xs) (length xs)))"

section \<open>The report\<close>

definition MIN_DECISIONS_FOR_ADVICE :: nat where
  "MIN_DECISIONS_FOR_ADVICE = 5"

definition SEPARATED :: string where
  "SEPARATED = ''separated''"

definition OVERLAPPING :: string where
  "OVERLAPPING = ''overlapping''"

definition ALL_REJECTED :: string where
  "ALL_REJECTED = ''all_rejected''"

definition INSUFFICIENT :: string where
  "INSUFFICIENT = ''insufficient_decisions''"

record vendor_calibration =
  vc_vendor :: string
  vc_events :: nat
  vc_held :: nat
  vc_reviewed :: nat
  vc_approved :: nat
  vc_rejected :: nat
  vc_mean_confidence :: "pyfloat option"
  vc_mean_confidence_approved :: "pyfloat option"
  vc_mean_confidence_rejected :: "pyfloat option"
  vc_lowest_approved :: "pyfloat option"
  vc_highest_rejected :: "pyfloat option"
  vc_verdict :: string
  vc_suggested_threshold :: "pyfloat option"
  vc_note :: string

definition hold_rate :: "vendor_calibration \<Rightarrow> rat" where
  "hold_rate v = (if vc_events v \<noteq> 0 then round3 (of_nat (vc_held v) / of_nat (vc_events v)) else 0)"

definition approval_rate :: "vendor_calibration \<Rightarrow> rat option" where
  "approval_rate v =
     (if vc_reviewed v \<noteq> 0 then Some (round3 (of_nat (vc_approved v) / of_nat (vc_reviewed v))) else None)"

record calibration =
  cr_current_threshold :: rat
  cr_vendors :: "vendor_calibration list"

text \<open>\<open>_round\<close>: a float that is not finite rounds to itself.\<close>

fun flt_round3 :: "pyfloat \<Rightarrow> pyfloat" where
  "flt_round3 (Fin r) = Fin (round3 r)"
| "flt_round3 x = x"

definition round_opt :: "pyfloat option \<Rightarrow> pyfloat option" where
  "round_opt = map_option flt_round3"

text \<open>The text of a float that was rounded to thousandths.\<close>

fun str_of_rounded :: "pyfloat \<Rightarrow> string" where
  "str_of_rounded (Fin r) = float_repr (round_half_even (r * 1000)) (-3)"
| "str_of_rounded x = float_2f x"

definition assess ::
  "rat \<Rightarrow> nat \<Rightarrow> nat \<Rightarrow> nat \<Rightarrow> pyfloat option \<Rightarrow> pyfloat option \<Rightarrow> string \<times> pyfloat option \<times> string" where
  "assess threshold reviewed approved rejected lowest_approved highest_rejected =
     (if reviewed < MIN_DECISIONS_FOR_ADVICE then
        (INSUFFICIENT, None,
         ''only '' @ nat_str reviewed @ '' decision(s) on file; '' @ nat_str MIN_DECISIONS_FOR_ADVICE
         @ '' needed before the threshold is worth moving'')
      else if approved = 0 then
        (ALL_REJECTED, None,
         ''every held event was rejected, so the gate is earning its keep here; the data cannot say whether it should hold more'')
      else if rejected = 0 \<or>
              (case (lowest_approved, highest_rejected) of
                 (Some lo, Some hi) \<Rightarrow> flt_less hi lo | _ \<Rightarrow> False) then
        (case round_opt lowest_approved of
           Some suggested \<Rightarrow>
             if flt_less suggested (Fin threshold) then
               (SEPARATED, Some suggested,
                ''confidence separates the '' @ nat_str approved @ '' approval(s) from the ''
                @ nat_str rejected @ '' rejection(s); a threshold of '' @ str_of_rounded suggested
                @ '' would have auto-applied every approved event and still held every rejected one'')
             else (SEPARATED, None,
                ''confidence separates approvals from rejections and the current threshold already sits at the right place'')
         | None \<Rightarrow> (SEPARATED, None,
                ''confidence separates approvals from rejections and the current threshold already sits at the right place''))
      else
        (OVERLAPPING, None,
         ''approved and rejected events overlap in confidence, so no threshold separates them; this vendor needs a profile rather than a different number''))"

definition decided :: "string \<Rightarrow> normalized_event list \<Rightarrow> pyfloat list" where
  "decided decision es = map ev_confidence_score (filter (\<lambda>e. ev_review_decision e = decision) es)"

text \<open>One row, from the events of one vendor.\<close>

definition calibrate :: "rat \<Rightarrow> string \<Rightarrow> normalized_event list \<Rightarrow> vendor_calibration" where
  "calibrate threshold vendor es =
     (let approved = length (decided APPROVE es); rejected = length (decided REJECT es);
          reviewed = approved + rejected;
          lowest_approved = round_opt (pg_min (decided APPROVE es));
          highest_rejected = round_opt (pg_max (decided REJECT es));
          (verdict, suggested, note) =
            assess threshold reviewed approved rejected lowest_approved highest_rejected
      in \<lparr> vc_vendor = vendor,
           vc_events = length es,
           vc_held = length (filter ev_requires_review es),
           vc_reviewed = reviewed,
           vc_approved = approved,
           vc_rejected = rejected,
           vc_mean_confidence = round_opt (pg_avg (map ev_confidence_score es)),
           vc_mean_confidence_approved = round_opt (pg_avg (decided APPROVE es)),
           vc_mean_confidence_rejected = round_opt (pg_avg (decided REJECT es)),
           vc_lowest_approved = lowest_approved,
           vc_highest_rejected = highest_rejected,
           vc_verdict = verdict,
           vc_suggested_threshold = suggested,
           vc_note = note \<rparr>)"

definition calibration_report :: "settings \<Rightarrow> instant option \<Rightarrow> db \<Rightarrow> calibration" where
  "calibration_report cfg since d =
     (let es = filter (\<lambda>e. case since of None \<Rightarrow> True | Some t \<Rightarrow> t \<le> ev_created_at e) (db_events d)
      in \<lparr> cr_current_threshold = LOW_CONFIDENCE_THRESHOLD cfg,
           cr_vendors = map (\<lambda>v. calibrate (LOW_CONFIDENCE_THRESHOLD cfg) v
                                (filter (\<lambda>e. event_vendor d e = v) es))
                          (sort (remdups (map (event_vendor d) es))) \<rparr>)"

definition CalibrationView_get :: "settings \<Rightarrow> db \<Rightarrow> calibration response" where
  "CalibrationView_get cfg d = (200, Body (calibration_report cfg None d))"

section \<open>The printed report\<close>

text \<open>The formats \<open>:<w\<close>, \<open>:>w\<close> and \<open>:.1f\<close> (of a value that is not negative); styles are left out.\<close>

definition ljust :: "nat \<Rightarrow> string \<Rightarrow> string" where
  "ljust w s = s @ replicate (w - length s) (CHR '' '')"

definition rjust :: "nat \<Rightarrow> string \<Rightarrow> string" where
  "rjust w s = replicate (w - length s) (CHR '' '') @ s"

definition float_1f :: "rat \<Rightarrow> string" where
  "float_1f r = (let c = nat (round_half_even (r * 10)) in nat_str (c div 10) @ ''.'' @ nat_str (c mod 10))"

definition calibration_header :: string where
  "calibration_header = ljust 24 ''vendor'' @ rjust 8 ''events'' @ rjust 7 ''held'' @ rjust 8 ''hold%''
     @ rjust 6 ''appr'' @ rjust 5 ''rej'' @ ''  verdict''"

definition calibration_line :: "vendor_calibration \<Rightarrow> string" where
  "calibration_line v =
     ljust 24 (take 23 (vc_vendor v)) @ rjust 8 (nat_str (vc_events v)) @ rjust 7 (nat_str (vc_held v))
     @ rjust 7 (float_1f (hold_rate v * 100)) @ ''%'' @ rjust 6 (nat_str (vc_approved v))
     @ rjust 5 (nat_str (vc_rejected v)) @ ''  '' @ vc_verdict v"

definition calibration_notes :: "vendor_calibration \<Rightarrow> string list" where
  "calibration_notes v =
     (vc_vendor v @ '': '' @ vc_note v) #
     (case vc_suggested_threshold v of
        None \<Rightarrow> []
      | Some s \<Rightarrow> [''  suggested LOW_CONFIDENCE_THRESHOLD='' @ str_of_rounded s])"

definition calibration_command :: "settings \<Rightarrow> db \<Rightarrow> string list" where
  "calibration_command cfg d =
     (let report = calibration_report cfg None d in
      (''Confidence gate calibration (threshold '' @ float_2f (Fin (cr_current_threshold report)) @ '')'') #
      (if cr_vendors report = [] then [''No normalized events yet.'']
       else calibration_header # replicate (length calibration_header) (CHR ''-'') #
            map calibration_line (cr_vendors report) @ [''''] @
            concat (map calibration_notes (cr_vendors report))))"

section \<open>What the aggregates are\<close>

lemma pg_less_trans: "pg_less a b \<Longrightarrow> pg_less b c \<Longrightarrow> pg_less a c"
  by (cases a; cases b; cases c) (auto simp: pg_less_def split: if_splits)

lemma pg_less_linear: "\<not> pg_less a b \<Longrightarrow> \<not> pg_less b a \<Longrightarrow> a = b"
  by (cases a; cases b) (auto simp: pg_less_def)

lemma pg_less_irrefl [simp]: "\<not> pg_less a a"
  by (cases a) (auto simp: pg_less_def)

lemma pg_not_less_trans: "\<not> pg_less b a \<Longrightarrow> \<not> pg_less c b \<Longrightarrow> \<not> pg_less c a"
  using pg_less_trans pg_less_linear by metis

lemma fold_min_bound:
  "(\<forall>y \<in> set (x # ys). \<not> pg_less y (foldl (\<lambda>a b. if pg_less b a then b else a) x ys)) \<and>
   foldl (\<lambda>a b. if pg_less b a then b else a) x ys \<in> set (x # ys)"
proof (induction ys arbitrary: x)
  case (Cons b ys)
  let ?m = "if pg_less b x then b else x"
  have m: "\<not> pg_less x ?m" "\<not> pg_less b ?m" using pg_less_trans [of b x b] by auto
  let ?f = "foldl (\<lambda>a b. if pg_less b a then b else a) ?m ys"
  have ih: "\<forall>y \<in> set (?m # ys). \<not> pg_less y ?f" "?f \<in> set (?m # ys)" using Cons.IH [of ?m] by blast+
  have "\<not> pg_less x ?f" "\<not> pg_less b ?f" using ih(1) m pg_not_less_trans by (meson list.set_intros(1))+
  moreover have "?f \<in> set (x # b # ys)" using ih(2) by (cases "pg_less b x") auto
  ultimately show ?case using ih(1) by simp
qed simp

lemma fold_max_bound:
  "(\<forall>y \<in> set (x # ys). \<not> pg_less (foldl (\<lambda>a b. if pg_less a b then b else a) x ys) y) \<and>
   foldl (\<lambda>a b. if pg_less a b then b else a) x ys \<in> set (x # ys)"
proof (induction ys arbitrary: x)
  case (Cons b ys)
  let ?m = "if pg_less x b then b else x"
  have m: "\<not> pg_less ?m x" "\<not> pg_less ?m b" using pg_less_trans [of x b x] by auto
  let ?f = "foldl (\<lambda>a b. if pg_less a b then b else a) ?m ys"
  have ih: "\<forall>y \<in> set (?m # ys). \<not> pg_less ?f y" "?f \<in> set (?m # ys)" using Cons.IH [of ?m] by blast+
  have "\<not> pg_less ?f x" "\<not> pg_less ?f b" using ih(1) m pg_not_less_trans by (meson list.set_intros(1))+
  moreover have "?f \<in> set (x # b # ys)" using ih(2) by (cases "pg_less x b") auto
  ultimately show ?case using ih(1) by simp
qed simp

lemma pg_min_Some:
  "pg_min xs = Some m \<Longrightarrow> m \<in> set xs \<and> (\<forall>x \<in> set xs. \<not> pg_less x m)"
  using fold_min_bound by (auto simp: pg_min_def split: list.splits)

lemma pg_max_Some:
  "pg_max xs = Some m \<Longrightarrow> m \<in> set xs \<and> (\<forall>x \<in> set xs. \<not> pg_less m x)"
  using fold_max_bound by (auto simp: pg_max_def split: list.splits)

lemma pg_extremes_None [simp]: "pg_min xs = None \<longleftrightarrow> xs = []" "pg_max xs = None \<longleftrightarrow> xs = []"
  by (simp_all add: pg_min_def pg_max_def split: list.splits)

section \<open>What the report says\<close>

lemma calibrate_simps [simp]:
  "vc_vendor (calibrate t v es) = v" "vc_events (calibrate t v es) = length es"
  "vc_held (calibrate t v es) = length (filter ev_requires_review es)"
  "vc_approved (calibrate t v es) = length (decided APPROVE es)"
  "vc_rejected (calibrate t v es) = length (decided REJECT es)"
  "vc_reviewed (calibrate t v es) = length (decided APPROVE es) + length (decided REJECT es)"
  by (simp_all add: calibrate_def Let_def split: prod.split)

lemma calibrate_suggestion:
  "vc_suggested_threshold (calibrate t v es) =
     fst (snd (assess t (length (decided APPROVE es) + length (decided REJECT es)) (length (decided APPROVE es))
       (length (decided REJECT es)) (round_opt (pg_min (decided APPROVE es)))
       (round_opt (pg_max (decided REJECT es)))))"
  by (simp add: calibrate_def Let_def split: prod.split)

lemma report_vendors:
  "map vc_vendor (cr_vendors (calibration_report cfg None d)) =
     sort (remdups (map (event_vendor d) (db_events d)))"
  by (simp add: calibration_report_def Let_def comp_def)

lemma report_row:
  "row \<in> set (cr_vendors (calibration_report cfg None d)) \<Longrightarrow>
     row = calibrate (LOW_CONFIDENCE_THRESHOLD cfg) (vc_vendor row)
             (filter (\<lambda>e. event_vendor d e = vc_vendor row) (db_events d))"
  by (auto simp: calibration_report_def Let_def)

text \<open>A suggestion is made only on evidence, and below the threshold in force.\<close>

lemma assess_suggestion:
  assumes "fst (snd (assess t reviewed approved rejected lo hi)) = Some s"
  shows "MIN_DECISIONS_FOR_ADVICE \<le> reviewed \<and> approved \<noteq> 0 \<and> round_opt lo = Some s \<and> flt_less s (Fin t) \<and>
    (rejected = 0 \<or> (\<exists>l h. lo = Some l \<and> hi = Some h \<and> flt_less h l))"
  using assms by (auto simp: assess_def split: if_splits option.splits)

definition in_thousandths :: "pyfloat \<Rightarrow> bool" where
  "in_thousandths x \<longleftrightarrow> (\<exists>k :: int. x = Fin (of_int k / 1000))"

lemma round_thousandths [simp]: "in_thousandths x \<Longrightarrow> flt_round3 x = x"
  by (auto simp: in_thousandths_def)

lemma decided_member:
  "x \<in> set (decided c es) \<longleftrightarrow> (\<exists>e \<in> set es. ev_review_decision e = c \<and> ev_confidence_score e = x)"
  by (auto simp: decided_def)

lemma suggestion_separates:
  assumes "vc_suggested_threshold (calibrate t v es) = Some s"
    and exact: "\<And>e. e \<in> set es \<Longrightarrow> ev_review_decision e \<in> {APPROVE, REJECT} \<Longrightarrow> in_thousandths (ev_confidence_score e)"
  shows "\<exists>c. s = Fin c \<and> c < t \<and> MIN_DECISIONS_FOR_ADVICE \<le> length (decided APPROVE es) + length (decided REJECT es) \<and>
    (\<forall>e \<in> set es. (ev_review_decision e = APPROVE \<longrightarrow> \<not> is_low_confidence (ev_confidence_score e) c) \<and>
                  (ev_review_decision e = REJECT \<longrightarrow> is_low_confidence (ev_confidence_score e) c))"
proof -
  note a = assess_suggestion [OF assms(1) [unfolded calibrate_suggestion]]
  obtain lo where lo: "pg_min (decided APPROVE es) = Some lo" "s = flt_round3 (flt_round3 lo)"
    using a by (auto simp: round_opt_def)
  note lo_min = pg_min_Some [OF lo(1)]
  have "in_thousandths lo" using lo_min exact by (auto simp: decided_member)
  then obtain k :: int where k: "lo = Fin (of_int k / 1000)" "s = lo" using lo(2) by (auto simp: in_thousandths_def)
  let ?c = "of_int k / 1000 :: rat"
  have approved: "\<not> is_low_confidence (ev_confidence_score e) ?c"
    if "e \<in> set es" "ev_review_decision e = APPROVE" for e
  proof -
    have "in_thousandths (ev_confidence_score e)" using exact that by simp
    moreover have "ev_confidence_score e \<in> set (decided APPROVE es)" using that by (auto simp: decided_member)
    then have "\<not> pg_less (ev_confidence_score e) lo" using lo_min by blast
    ultimately show ?thesis by (auto simp: in_thousandths_def k is_low_confidence_def pg_less_def)
  qed
  have rejected: "is_low_confidence (ev_confidence_score e) ?c"
    if "e \<in> set es" "ev_review_decision e = REJECT" for e
  proof -
    have "ev_confidence_score e \<in> set (decided REJECT es)" using that by (auto simp: decided_member)
    then have "decided REJECT es \<noteq> []" by auto
    then obtain hi where hi: "pg_max (decided REJECT es) = Some hi" by (cases "pg_max (decided REJECT es)") auto
    note hi_max = pg_max_Some [OF hi]
    have "in_thousandths hi" "in_thousandths (ev_confidence_score e)" "in_thousandths lo"
      using hi_max exact that \<open>in_thousandths lo\<close> by (auto simp: decided_member)
    moreover from this have "flt_less hi lo" using a hi lo(1) \<open>decided REJECT es \<noteq> []\<close> by (auto simp: round_opt_def)
    moreover have "\<not> pg_less hi (ev_confidence_score e)"
      using hi_max \<open>ev_confidence_score e \<in> _\<close> by blast
    ultimately show ?thesis by (auto simp: in_thousandths_def k is_low_confidence_def pg_less_def)
  qed
  have "?c < t" using a k lo by (auto simp: round_opt_def)
  then show ?thesis using approved rejected k a by blast
qed

text \<open>C28. The calibration advice is right when the decided confidences are thousandths, as those of
  the rule-based reader are: it is below the threshold in force, rests on at least five decisions,
  and the gate at the suggested threshold would let pass every event of the vendor that was
  approved and hold every one that was rejected.\<close>

theorem calibration_advice_is_sound:
  assumes "row \<in> set (cr_vendors (calibration_report cfg None d))"
    and "vc_suggested_threshold row = Some s"
    and "\<forall>e \<in> set (db_events d). ev_review_decision e \<in> {APPROVE, REJECT} \<longrightarrow> in_thousandths (ev_confidence_score e)"
  shows "\<exists>c. s = Fin c \<and> c < LOW_CONFIDENCE_THRESHOLD cfg \<and> 5 \<le> vc_reviewed row \<and>
    (\<forall>e \<in> set (db_events d). event_vendor d e = vc_vendor row \<longrightarrow>
       (ev_review_decision e = APPROVE \<longrightarrow> \<not> is_low_confidence (ev_confidence_score e) c) \<and>
       (ev_review_decision e = REJECT \<longrightarrow> is_low_confidence (ev_confidence_score e) c))"
proof -
  let ?es = "filter (\<lambda>e. event_vendor d e = vc_vendor row) (db_events d)"
  have row: "row = calibrate (LOW_CONFIDENCE_THRESHOLD cfg) (vc_vendor row) ?es" by (rule report_row [OF assms(1)])
  have "vc_suggested_threshold (calibrate (LOW_CONFIDENCE_THRESHOLD cfg) (vc_vendor row) ?es) = Some s"
    using row assms(2) by simp
  moreover have "in_thousandths (ev_confidence_score e)"
    if "e \<in> set ?es" "ev_review_decision e \<in> {APPROVE, REJECT}" for e
    using assms(3) that by auto
  ultimately obtain c where c: "s = Fin c" "c < LOW_CONFIDENCE_THRESHOLD cfg"
      "MIN_DECISIONS_FOR_ADVICE \<le> length (decided APPROVE ?es) + length (decided REJECT ?es)"
      "\<forall>e \<in> set ?es. (ev_review_decision e = APPROVE \<longrightarrow> \<not> is_low_confidence (ev_confidence_score e) c) \<and>
                  (ev_review_decision e = REJECT \<longrightarrow> is_low_confidence (ev_confidence_score e) c)"
    using suggestion_separates by blast
  have "vc_reviewed row = length (decided APPROVE ?es) + length (decided REJECT ?es)"
    by (subst row) simp
  then show ?thesis using c by (intro exI [of _ c]) (auto simp: MIN_DECISIONS_FOR_ADVICE_def)
qed

lemma sum_by_value:
  "distinct vs \<Longrightarrow> f ` set xs \<subseteq> set vs \<Longrightarrow> sum_list (map (\<lambda>v. length (filter (\<lambda>x. f x = v) xs)) vs) = length xs"
proof (induction vs arbitrary: xs)
  case (Cons v vs)
  let ?ys = "filter (\<lambda>x. f x \<noteq> v) xs"
  have "f ` set ?ys \<subseteq> set vs" using Cons.prems(2) by auto
  then have "sum_list (map (\<lambda>u. length (filter (\<lambda>x. f x = u) ?ys)) vs) = length ?ys"
    using Cons.IH [of ?ys] Cons.prems(1) by simp
  moreover have "map (\<lambda>u. length (filter (\<lambda>x. f x = u) ?ys)) vs = map (\<lambda>u. length (filter (\<lambda>x. f x = u) xs)) vs"
  proof (rule map_cong [OF refl])
    fix u assume "u \<in> set vs"
    then have "u \<noteq> v" using Cons.prems(1) by auto
    then have "(f x \<noteq> v \<and> f x = u) = (f x = u)" for x by auto
    then show "length (filter (\<lambda>x. f x = u) ?ys) = length (filter (\<lambda>x. f x = u) xs)" by simp
  qed
  ultimately have "sum_list (map (\<lambda>u. length (filter (\<lambda>x. f x = u) xs)) vs) = length ?ys"
    by (simp only:)
  then show ?case using sum_length_filter_compl [of "\<lambda>x. f x = v" xs] by simp
qed simp

lemma decided_bound: "length (decided APPROVE es) + length (decided REJECT es) \<le> length es"
  by (induction es) (auto simp: decided_def APPROVE_def REJECT_def)

text \<open>The report accounts for every event: each vendor with events has exactly one row, in
  order, the rows' event counts add up to the table, and no row has more held or more decided
  events than events.\<close>

theorem calibration_accounts_for_all:
  "(let rows = cr_vendors (calibration_report cfg None d) in
      sorted (map vc_vendor rows) \<and> distinct (map vc_vendor rows) \<and>
      set (map vc_vendor rows) = event_vendor d ` set (db_events d) \<and>
      sum_list (map vc_events rows) = length (db_events d) \<and>
      list_all (\<lambda>r. vc_held r \<le> vc_events r \<and> vc_reviewed r \<le> vc_events r \<and>
                    vc_reviewed r = vc_approved r + vc_rejected r) rows)"
proof -
  let ?rows = "cr_vendors (calibration_report cfg None d)"
  let ?vs = "sort (remdups (map (event_vendor d) (db_events d)))"
  have "map vc_events ?rows = map (\<lambda>v. length (filter (\<lambda>e. event_vendor d e = v) (db_events d))) ?vs"
    by (simp add: calibration_report_def Let_def comp_def)
  then have "sum_list (map vc_events ?rows) = length (db_events d)"
    using sum_by_value [of ?vs "event_vendor d" "db_events d"] by simp
  moreover have "vc_held r \<le> vc_events r \<and> vc_reviewed r \<le> vc_events r \<and>
      vc_reviewed r = vc_approved r + vc_rejected r" if r: "r \<in> set ?rows" for r
  proof -
    obtain v es where "r = calibrate (LOW_CONFIDENCE_THRESHOLD cfg) v es" using report_row [OF r] by blast
    then show ?thesis using decided_bound by simp
  qed
  then have "list_all (\<lambda>r. vc_held r \<le> vc_events r \<and> vc_reviewed r \<le> vc_events r \<and>
      vc_reviewed r = vc_approved r + vc_rejected r) ?rows" unfolding list_all_iff by blast
  ultimately show ?thesis unfolding Let_def report_vendors by simp
qed

section \<open>Rounded advice\<close>

text \<open>A table of decided events of one vendor.\<close>

definition ruling :: "nat \<times> pyfloat \<times> string \<Rightarrow> normalized_event" where
  "ruling = (\<lambda>(i, c, decision).
     (blank_event i 1 (Instant 9)) \<lparr> ev_confidence_score := c, ev_requires_review := True,
        ev_review_decision := decision, ev_reviewed_at := Some (Instant 20) \<rparr>)"

definition ruled_db :: "(pyfloat \<times> string) list \<Rightarrow> db" where
  "ruled_db rulings =
     empty_db \<lparr> db_webhooks := [\<lparr> rw_id = 1, rw_vendor = ''acme'', rw_external_event_id = None,
                  rw_idempotency_key = ''k'', rw_raw_payload = JNull, rw_processing_status = NORMALIZED,
                  rw_retry_count = 0, rw_error_message = [], rw_received_at = Instant 1 \<rparr>],
                db_events := map ruling (zip [1 ..< Suc (length rulings)] rulings) \<rparr>"

text \<open>The suggestion is rounded, so with other confidences the note is wrong: five approvals at
  0.4566 make the report suggest 0.457, said to auto-apply every approved event, but the gate at
  0.457 holds all five.\<close>

theorem rounded_advice_holds_approved:
  "map (\<lambda>r. (vc_vendor r, vc_suggested_threshold r))
       (cr_vendors (calibration_report default_settings None
          (ruled_db (replicate 5 (Fin (4566 / 10000), APPROVE))))) = [(''acme'', Some (Fin (457 / 1000)))] \<and>
   is_low_confidence (Fin (4566 / 10000)) (457 / 1000)"
  by code_simp

definition five_rulings :: db where
  "five_rulings = ruled_db [(Fin (55/100), APPROVE), (Fin (58/100), APPROVE), (Fin (6/10), APPROVE),
     (Fin (62/100), APPROVE), (Fin (3/10), REJECT)]"

theorem calibration_advice_is_sound_witness:
  "\<exists>row \<in> set (cr_vendors (calibration_report default_settings None five_rulings)).
     \<exists>c. vc_suggested_threshold row = Some (Fin c) \<and> c < 7 / 10"
proof -
  have "map vc_suggested_threshold (cr_vendors (calibration_report default_settings None five_rulings)) =
      [Some (Fin (55 / 100))]" by code_simp
  then obtain row where row: "row \<in> set (cr_vendors (calibration_report default_settings None five_rulings))"
      "vc_suggested_threshold row = Some (Fin (55 / 100))" by auto
  have "\<forall>e \<in> set (db_events five_rulings). ev_review_decision e \<in> {APPROVE, REJECT} \<longrightarrow>
      in_thousandths (ev_confidence_score e)"
    by (auto simp: five_rulings_def ruled_db_def ruling_def in_thousandths_def upt_rec
        intro: exI [of _ 550] exI [of _ 580] exI [of _ 600] exI [of _ 620] exI [of _ 300])
  from calibration_advice_is_sound [OF row this] obtain c where "Fin (55 / 100) = Fin c" "c < 7 / 10" by auto
  then show ?thesis using row by (intro bexI [of _ row] exI [of _ c]) simp_all
qed

end
