(* ===== verification/Gateway_System.thy ===== *)
theory Gateway_System
  imports Services "HOL-Library.Sublist"
begin

text \<open>
  The gateway as a whole: the web process, the broker, any number of workers and any number of
  reviewers over one database.  Every database transaction of the code is one step, so the steps
  of different workers and reviewers interleave; a worker is the phase its run of
  \<open>process_raw_webhook\<close> is in, with the objects that run holds in memory.  The broker delivers a
  task at least once (\<open>CELERY_TASK_ACKS_LATE\<close>, \<open>CELERY_TASK_REJECT_ON_WORKER_LOST\<close>): a task
  that was sent may be delivered at any time and again.
\<close>

section \<open>States\<close>

record deployment =
  dp_settings :: settings
  dp_client :: client
  dp_pins :: pinned
  dp_may_retry :: "nat \<Rightarrow> nat \<Rightarrow> bool"

text \<open>
  A run of the task: after the unlocked read (which saw the whole database), after the claim, after
  the backend answered, and after the reading was recorded.  The numbers are the webhook's id and
  Celery's count of retries.
\<close>

datatype job =
    Looked nat nat db
  | Holding nat raw_webhook
  | Answered nat raw_webhook "normalization_response result"
  | Written nat raw_webhook normalized_event

record system =
  sy_gateway :: gateway
  sy_jobs :: "nat \<rightharpoonup> job"
  sy_retries :: "(nat \<times> nat) list"  \<comment> \<open>webhook and retry count of the rescheduled tasks\<close>
  sy_open :: "normalized_event list"  \<comment> \<open>the events reviewers have loaded\<close>
  sy_loaded :: "raw_webhook list"  \<comment> \<open>the rows that replays have loaded\<close>

abbreviation sy_db :: "system \<Rightarrow> db" where
  "sy_db s \<equiv> gw_db (sy_gateway s)"

definition with_db :: "db \<Rightarrow> system \<Rightarrow> system" where
  "with_db d s = s \<lparr> sy_gateway := (sy_gateway s) \<lparr> gw_db := d \<rparr> \<rparr>"

definition with_profiles :: "profile_state \<Rightarrow> system \<Rightarrow> system" where
  "with_profiles st s = s \<lparr> sy_gateway := (sy_gateway s)
     \<lparr> gw_db := (sy_db s) \<lparr> db_profiles := fst st \<rparr>, gw_profile_cache := snd st \<rparr> \<rparr>"

definition set_job :: "nat \<Rightarrow> job option \<Rightarrow> system \<Rightarrow> system" where
  "set_job k j s = s \<lparr> sy_jobs := (sy_jobs s)(k := j) \<rparr>"

definition profile_state_of :: "system \<Rightarrow> profile_state" where
  "profile_state_of s = (db_profiles (sy_db s), gw_profile_cache (sy_gateway s))"

text \<open>The tasks the broker may deliver.\<close>

definition due :: "system \<Rightarrow> (nat \<times> nat) list" where
  "due s = map (\<lambda>(queue, wid). (wid, 0)) (gw_sent (sy_gateway s)) @ sy_retries s"

definition initial_system :: system where
  "initial_system = \<lparr> sy_gateway = empty_gateway, sy_jobs = Map.empty, sy_retries = [], sy_open = [],
     sy_loaded = [] \<rparr>"

section \<open>Steps\<close>

text \<open>Asking the backend: building it may already fail.\<close>

definition ask :: "profile_state normalizer result \<Rightarrow> raw_webhook \<Rightarrow> profile_state \<Rightarrow>
     normalization_response result \<times> profile_state" where
  "ask factory w st =
     (case factory of Inl e \<Rightarrow> (Inl e, st) | Inr run \<Rightarrow> run (rw_raw_payload w) (rw_vendor w) st)"

definition backend_of :: "deployment \<Rightarrow> rat \<Rightarrow> datetime \<Rightarrow> profile_state normalizer result" where
  "backend_of dp now arrival =
     get_normalizer (dp_settings dp)
       (default_registry (dp_settings dp) (dp_client dp) (dp_pins dp) now arrival)"

fun rescheduled :: "nat \<Rightarrow> nat \<Rightarrow> outcome \<Rightarrow> (nat \<times> nat) list" where
  "rescheduled wid attempt (Retrying delay) = [(wid, attempt + 1)]"
| "rescheduled wid attempt out = []"

text \<open>The row and the retry count of a run that holds a claim.\<close>

fun claimed_by :: "job \<Rightarrow> (nat \<times> raw_webhook) option" where
  "claimed_by (Looked wid attempt seen) = None"
| "claimed_by (Holding attempt w) = Some (attempt, w)"
| "claimed_by (Answered attempt w answer) = Some (attempt, w)"
| "claimed_by (Written attempt w e) = Some (attempt, w)"

inductive profile_change :: "profile_state \<Rightarrow> profile_state \<Rightarrow> bool" where
  get: "profile_change st (snd (VendorProfileDetailView_get pins now vendor st))"
| put: "VendorProfileDetailView_put vendor body st = Inr (resp, st') \<Longrightarrow> profile_change st st'"
| delete: "profile_change st (snd (VendorProfileDetailView_delete vendor st))"
| saved: "store_profile spec st = Inr st' \<Longrightarrow> profile_change st st'"
| admin_save: "admin_form_valid old obj (fst st) \<Longrightarrow> profile_change st (admin_save_model old obj st)"
| admin_delete: "profile_change st (admin_delete_model vendor st)"
| admin_delete_many: "profile_change st (admin_delete_queryset vendors st)"

datatype action =
    Post request
  | Replay nat "bool option"
  | BulkReplay nat
  | Reselect "nat set"
  | Load nat
  | ReplayLoaded raw_webhook bool
  | WriteProfile
  | Deliver nat
  | Claim nat
  | Skip nat
  | Normalise nat
  | Record nat
  | Gate nat
  | Fail nat
  | Interrupt nat
  | Lose nat
  | Open nat
  | Decide normalized_event string

inductive step :: "deployment \<Rightarrow> system \<Rightarrow> action \<Rightarrow> system \<Rightarrow> bool" for dp :: deployment where
  post: "WebhookIngestionView_post (dp_settings dp) cx rq (sy_gateway s) = Inr (resp, g) \<Longrightarrow>
    step dp s (Post rq) (s \<lparr> sy_gateway := g \<rparr>)"
| replay: "WebhookReplayView_post (dp_settings dp) wid force (sy_gateway s) = (resp, g) \<Longrightarrow>
    step dp s (Replay wid force) (s \<lparr> sy_gateway := g \<rparr>)"
| bulk_replay: "replay_failed_webhooks (dp_settings dp) limit (sy_gateway s) = (n, g) \<Longrightarrow>
    step dp s (BulkReplay limit) (s \<lparr> sy_gateway := g \<rparr>)"
| reselect: "replay_selected (dp_settings dp) selected (sy_gateway s) = (message, g) \<Longrightarrow>
    step dp s (Reselect selected) (s \<lparr> sy_gateway := g \<rparr>)"
| load: "w \<in> set (db_webhooks (sy_db s)) \<Longrightarrow>
    step dp s (Load (rw_id w)) (s \<lparr> sy_loaded := w # sy_loaded s \<rparr>)"
| replay_loaded: "w \<in> set (sy_loaded s) \<Longrightarrow>
    replay (dp_settings dp) w force (sy_gateway s) = (sent, g) \<Longrightarrow>
    step dp s (ReplayLoaded w force) (s \<lparr> sy_gateway := g, sy_loaded := remove1 w (sy_loaded s) \<rparr>)"
| write_profile: "profile_change (profile_state_of s) st \<Longrightarrow>
    step dp s WriteProfile (with_profiles st s)"
| deliver: "(wid, attempt) \<in> set (due s) \<Longrightarrow> sy_jobs s k = None \<Longrightarrow>
    step dp s (Deliver k) (set_job k (Some (Looked wid attempt (sy_db s))) s)"
| claim: "sy_jobs s k = Some (Looked wid attempt seen) \<Longrightarrow>
    claim_webhook wid seen (sy_db s) = (Claimed w, d) \<Longrightarrow>
    step dp s (Claim k) (set_job k (Some (Holding attempt w)) (with_db d s))"
| skip: "sy_jobs s k = Some (Looked wid attempt seen) \<Longrightarrow>
    claim_webhook wid seen (sy_db s) = (c, d) \<Longrightarrow> \<forall>w. c \<noteq> Claimed w \<Longrightarrow>
    step dp s (Skip k) (set_job k None (with_db d s))"
| normalise: "sy_jobs s k = Some (Holding attempt w) \<Longrightarrow>
    ask (backend_of dp now arrival) w (profile_state_of s) = (answer, st) \<Longrightarrow>
    step dp s (Normalise k) (set_job k (Some (Answered attempt w answer)) (with_profiles st s))"
| write_event: "sy_jobs s k = Some (Answered attempt w (Inr resp)) \<Longrightarrow>
    create_for_webhook (rw_id w) (resp_normalized resp) (resp_llm_model resp)
      (resp_prompt_version resp) now (sy_db s) = Inr (e, d) \<Longrightarrow>
    step dp s (Record k) (set_job k (Some (Written attempt w e)) (with_db d s))"
| refuse_event: "sy_jobs s k = Some (Answered attempt w (Inr resp)) \<Longrightarrow>
    create_for_webhook (rw_id w) (resp_normalized resp) (resp_llm_model resp)
      (resp_prompt_version resp) now (sy_db s) = Inl e \<Longrightarrow>
    handle_error (dp_may_retry dp) attempt w e (sy_db s) = (out, d) \<Longrightarrow>
    step dp s (Record k) (set_job k None (with_db d s))"
| gate: "sy_jobs s k = Some (Written attempt w e) \<Longrightarrow>
    apply_confidence_gate (dp_settings dp) e now (sy_db s) = (gate, d) \<Longrightarrow>
    step dp s (Gate k) (set_job k None (with_db d s))"
| fail: "sy_jobs s k = Some (Answered attempt w (Inl e)) \<Longrightarrow>
    handle_error (dp_may_retry dp) attempt w e (sy_db s) = (out, d) \<Longrightarrow>
    step dp s (Fail k) (set_job k None (with_db d s) \<lparr> sy_retries := sy_retries s @ rescheduled (rw_id w) attempt out \<rparr>)"
| interrupt: "sy_jobs s k = Some j \<Longrightarrow> claimed_by j = Some (attempt, w) \<Longrightarrow>
    handle_error (dp_may_retry dp) attempt w (OtherException m) (sy_db s) = (out, d) \<Longrightarrow>
    step dp s (Interrupt k) (set_job k None (with_db d s))"
| lose: "sy_jobs s k = Some j \<Longrightarrow> step dp s (Lose k) (set_job k None s)"
| open_event: "e \<in> set (db_events (sy_db s)) \<Longrightarrow> ev_requires_review e \<Longrightarrow>
    step dp s (Open (ev_id e)) (s \<lparr> sy_open := e # sy_open s \<rparr>)"
| decide: "e \<in> set (sy_open s) \<Longrightarrow>
    apply_review_decision e decision actor now (sy_db s) = Inr (updated, d) \<Longrightarrow>
    step dp s (Decide e decision) (with_db d s \<lparr> sy_open := remove1 e (sy_open s) \<rparr>)"

text \<open>Runs, and the states a gateway that starts empty can reach.\<close>

inductive run :: "deployment \<Rightarrow> system \<Rightarrow> action list \<Rightarrow> system \<Rightarrow> bool" for dp :: deployment where
  stop: "run dp s [] s"
| more: "run dp s acts s' \<Longrightarrow> step dp s' a s'' \<Longrightarrow> run dp s (acts @ [a]) s''"

definition reachable :: "deployment \<Rightarrow> system \<Rightarrow> bool" where
  "reachable dp s \<longleftrightarrow> (\<exists>acts. run dp initial_system acts s)"

inductive_cases step_PostE: "step dp s (Post rq) s'"
inductive_cases step_ClaimE: "step dp s (Claim k) s'"
inductive_cases step_GateE: "step dp s (Gate k) s'"
inductive_cases step_DecideE: "step dp s (Decide e decision) s'"
inductive_cases run_appendE: "run dp s (acts @ [a]) s''"

inductive_simps run_Nil [simp]: "run dp s [] s'"

section \<open>What no step takes back\<close>

text \<open>The columns of a webhook that are written once, and the link of an event to its webhook.\<close>

definition stored_part :: "raw_webhook \<Rightarrow> nat \<times> string \<times> string option \<times> string \<times> json \<times> instant" where
  "stored_part w = (rw_id w, rw_vendor w, rw_external_event_id w, rw_idempotency_key w,
     rw_raw_payload w, rw_received_at w)"

definition event_link :: "normalized_event \<Rightarrow> nat \<times> nat \<times> instant" where
  "event_link e = (ev_id e, ev_webhook e, ev_created_at e)"

definition not_older :: "latest option \<Rightarrow> latest option \<Rightarrow> bool" where
  "not_older a b \<longleftrightarrow> (\<forall>st t i. a = Some (st, t, i) \<longrightarrow> (\<exists>st' t' i'. b = Some (st', t', i') \<and> t \<le> t'))"

definition extends :: "db \<Rightarrow> db \<Rightarrow> bool" where
  "extends d d' \<longleftrightarrow>
     prefix (map stored_part (db_webhooks d)) (map stored_part (db_webhooks d')) \<and>
     prefix (map event_link (db_events d)) (map event_link (db_events d')) \<and>
     (\<forall>k. not_older (latest_of (db_states d) k) (latest_of (db_states d') k))"

lemma not_older_refl [simp]: "not_older a a"
  by (simp add: not_older_def)

lemma not_older_trans: "not_older a b \<Longrightarrow> not_older b c \<Longrightarrow> not_older a c"
  by (fastforce simp: not_older_def)

lemma extends_refl [simp]: "extends d d"
  by (simp add: extends_def)

lemma extends_trans:
  assumes "extends d d'" "extends d' d''"
  shows "extends d d''"
  unfolding extends_def
proof (intro conjI allI)
  show "prefix (map stored_part (db_webhooks d)) (map stored_part (db_webhooks d''))"
    by (rule prefix_order.order_trans) (use assms in \<open>auto simp: extends_def\<close>)
  show "prefix (map event_link (db_events d)) (map event_link (db_events d''))"
    by (rule prefix_order.order_trans) (use assms in \<open>auto simp: extends_def\<close>)
  show "not_older (latest_of (db_states d) k) (latest_of (db_states d'') k)" for k
    using assms not_older_trans unfolding extends_def by blast
qed

lemma extends_profiles [simp]:
  "extends (d \<lparr> db_profiles := ps \<rparr>) d' \<longleftrightarrow> extends d d'"
  "extends d (d' \<lparr> db_profiles := ps \<rparr>) \<longleftrightarrow> extends d d'"
  by (simp_all add: extends_def)

text \<open>An operation that writes only the columns of webhooks that may change.\<close>

definition touches_status :: "db \<Rightarrow> db \<Rightarrow> bool" where
  "touches_status d d' \<longleftrightarrow> map stored_part (db_webhooks d') = map stored_part (db_webhooks d) \<and>
     db_events d' = db_events d \<and> db_states d' = db_states d"

lemma touches_status_refl [simp]: "touches_status d d"
  by (simp add: touches_status_def)

lemma touches_status_profiles [simp]:
  "touches_status (d \<lparr> db_profiles := ps \<rparr>) d' \<longleftrightarrow> touches_status d d'"
  "touches_status d (d' \<lparr> db_profiles := ps \<rparr>) \<longleftrightarrow> touches_status d d'"
  by (simp_all add: touches_status_def)

lemma touches_status_extends: "touches_status d d' \<Longrightarrow> extends d d'"
  by (simp add: touches_status_def extends_def)

lemma touches_update:
  "(\<And>w. stored_part (f w) = stored_part w) \<Longrightarrow>
     touches_status d (d \<lparr> db_webhooks := update_row rw_id wid f (db_webhooks d) \<rparr>)"
  by (simp add: touches_status_def row_simps)

lemma touches_set_status: "touches_status d (set_status wid st d)"
  unfolding set_status_def by (rule touches_update) (simp add: stored_part_def)

lemma touches_claim: "claim_webhook wid seen d = (c, d') \<Longrightarrow> touches_status d d'"
  using touches_set_status by (auto simp: claim_webhook_def split: option.splits if_splits)

lemma touches_handle_error:
  assumes "handle_error may_retry attempt w e d = (out, d')"
  shows "touches_status d d'"
  using assms
proof (cases rule: handle_error_cases)
  case (dead m)
  have "touches_status d (record_retry w m d)"
    unfolding record_retry_def by (rule touches_update) (simp add: stored_part_def)
  moreover have "touches_status (record_retry w m d) d'"
    unfolding dead record_dead_letter_def by (rule touches_update) (simp add: stored_part_def)
  ultimately show ?thesis by (simp add: touches_status_def)
qed (auto simp: record_retry_def record_failure_def intro!: touches_update simp: stored_part_def)

lemma touches_replay_all:
  "replay_all cfg batch True g = (n, g') \<Longrightarrow> touches_status (gw_db g) (gw_db g')"
  by (auto simp: replay_all_forced touches_status_def stored_part_def replayed_def)

lemma touches_replay_endpoint:
  "WebhookReplayView_post cfg wid force g = (resp, g') \<Longrightarrow> touches_status (gw_db g) (gw_db g')"
  by (auto simp: WebhookReplayView_post_def replay_alt Let_def stored_part_def replayed_def
      intro!: touches_update split: option.splits if_splits)

lemma create_links:
  "create_for_webhook wid r m v now d = Inr (e, d') \<Longrightarrow>
     prefix (map event_link (db_events d)) (map event_link (db_events d')) \<and>
     map stored_part (db_webhooks d') = map stored_part (db_webhooks d) \<and> db_states d' = db_states d"
  by (auto simp: create_Inr update_or_create_event_def Let_def row_simps event_link_def stored_part_def
      split: option.splits)

lemma upsert_not_older:
  "not_older (latest_of states k) (latest_of (snd (upsert_if_newer e now states)) k)"
  by (cases "latest_of states k") (auto simp: latest_upsert not_older_def event_latest_def)

lemma gate_extends:
  "apply_confidence_gate cfg e now d = (gate, d') \<Longrightarrow> extends d d'"
  by (auto simp: apply_confidence_gate_def Let_def extends_def row_simps event_link_def upsert_not_older
      split: if_splits)

lemma decision_extends:
  "apply_review_decision e decision actor now d = Inr (u, d') \<Longrightarrow> extends d d'"
  using decision_Inr [of e decision actor now d u d']
  by (auto simp: extends_def row_simps event_link_def upsert_not_older)

section \<open>The invariant of the database\<close>

text \<open>
  The constraints of the tables, the links between them, and that everything stored is well
  formed: columns fit, events and entity states are canonical.
\<close>

definition webhook_ids :: "db \<Rightarrow> nat set" where
  "webhook_ids d = rw_id ` set (db_webhooks d)"

definition event_ids :: "db \<Rightarrow> nat set" where
  "event_ids d = ev_id ` set (db_events d)"

definition state_wf :: "db \<Rightarrow> entity_state \<Rightarrow> bool" where
  "state_wf d st \<longleftrightarrow> es_latest_event st \<in> event_ids d \<and>
     canonical_pair (es_entity_type st) (es_latest_status st) \<and> state_columns st"

definition db_ok :: "db \<Rightarrow> bool" where
  "db_ok d \<longleftrightarrow>
     webhook_constraints (db_webhooks d) \<and> event_constraints (db_events d) \<and>
     state_constraints (db_states d) \<and> list_all columns_fit (db_webhooks d) \<and>
     events_fit d \<and> events_wf d \<and>
     (\<forall>e \<in> set (db_events d). ev_webhook e \<in> webhook_ids d) \<and>
     (\<forall>st \<in> set (db_states d). state_wf d st)"

text \<open>An event a worker or a reviewer has in memory: its row exists, and what it says is canonical.\<close>

definition event_known :: "db \<Rightarrow> normalized_event \<Rightarrow> bool" where
  "event_known d e \<longleftrightarrow> ev_id e \<in> event_ids d \<and> event_wf e \<and> event_columns e"

lemma db_ok_profiles [simp]: "db_ok (d \<lparr> db_profiles := ps \<rparr>) = db_ok d"
  by (simp add: db_ok_def events_fit_def events_wf_def webhook_ids_def event_ids_def state_wf_def)

lemma prefix_subset: "prefix xs ys \<Longrightarrow> set xs \<subseteq> set ys"
  by (auto simp: prefix_def)

lemma ids_extend:
  assumes "extends d d'"
  shows "webhook_ids d \<subseteq> webhook_ids d'" "event_ids d \<subseteq> event_ids d'"
proof -
  have "map fst (map stored_part ws) = map rw_id ws" "map fst (map event_link es) = map ev_id es" for ws es
    by (simp_all add: stored_part_def event_link_def comp_def)
  then have "webhook_ids d = fst ` set (map stored_part (db_webhooks d))"
    "event_ids d = fst ` set (map event_link (db_events d))" for d
    unfolding webhook_ids_def event_ids_def by (metis list.set_map)+
  moreover have "set (map stored_part (db_webhooks d)) \<subseteq> set (map stored_part (db_webhooks d'))"
      "set (map event_link (db_events d)) \<subseteq> set (map event_link (db_events d'))"
    using assms unfolding extends_def by (blast dest: prefix_subset)+
  ultimately show "webhook_ids d \<subseteq> webhook_ids d'" "event_ids d \<subseteq> event_ids d'"
    by (metis image_mono)+
qed

lemma event_known_extends: "extends d d' \<Longrightarrow> event_known d e \<Longrightarrow> event_known d' e"
  unfolding event_known_def by (meson ids_extend(2) subsetD)

lemma state_wf_extends: "extends d d' \<Longrightarrow> state_wf d st \<Longrightarrow> state_wf d' st"
  unfolding state_wf_def by (meson ids_extend(2) subsetD)

lemma webhook_constraints_stored:
  assumes "map stored_part ws' = map stored_part ws"
  shows "webhook_constraints ws' = webhook_constraints ws"
proof -
  let ?key = "\<lambda>(i, v, x, k, p, t). (v, k)" and ?ext = "\<lambda>(i, v, x, k, p, t). (v, x)"
    and ?has = "\<lambda>(i, v, x, k, p, t). x \<noteq> None"
  have "webhook_constraints ws \<longleftrightarrow> distinct (map fst (map stored_part ws)) \<and>
      distinct (map ?key (map stored_part ws)) \<and> distinct (map ?ext (filter ?has (map stored_part ws)))" for ws
    by (simp add: webhook_constraints_def stored_part_def comp_def filter_map)
  then show ?thesis by (simp only: assms)
qed

lemma columns_fit_stored:
  assumes "map stored_part ws' = map stored_part ws"
  shows "list_all columns_fit ws' = list_all columns_fit ws"
proof -
  let ?fit = "\<lambda>(i, v, x, k, p, t). (varchar 128 v \<and> (case x of None \<Rightarrow> True | Some e \<Rightarrow> varchar 255 e) \<and>
     varchar 255 k \<and> storable_json p) \<and> v \<noteq> [] \<and> x \<noteq> Some []"
  have "list_all columns_fit ws = list_all ?fit (map stored_part ws)" for ws
    by (simp add: list_all_iff columns_fit_def webhook_columns_def stored_part_def)
  then show ?thesis by (simp only: assms)
qed

lemma touches_status_ok:
  assumes "touches_status d d'" "db_ok d"
  shows "db_ok d'"
proof -
  have w: "map stored_part (db_webhooks d') = map stored_part (db_webhooks d)"
    and e: "db_events d' = db_events d" "db_states d' = db_states d"
    using assms(1) by (simp_all add: touches_status_def)
  have "webhook_ids d' \<supseteq> webhook_ids d" using ids_extend touches_status_extends [OF assms(1)] by blast
  then show ?thesis
    using assms(2) webhook_constraints_stored [OF w] columns_fit_stored [OF w]
    by (auto simp: db_ok_def e events_fit_def events_wf_def event_ids_def state_wf_def)
qed

lemma touches_status_known: "touches_status d d' \<Longrightarrow> event_known d' e = event_known d e"
  by (simp add: touches_status_def event_known_def event_ids_def)

text \<open>Each operation keeps it.\<close>

lemma upsert_keeps_wf:
  assumes "event_known d e" "\<forall>st \<in> set states. state_wf d st"
    and "st \<in> set (snd (upsert_if_newer e now states))"
  shows "state_wf d st"
proof -
  have e: "state_wf d (state_of_event e now)"
    using assms(1)
    by (simp add: state_wf_def state_of_event_def event_known_def event_wf_def state_columns_def event_columns_def)
  show ?thesis
  proof (cases "first_row (\<lambda>s. state_key s = event_key e) states")
    case None
    then show ?thesis using assms e by (auto simp: upsert_if_newer_def Let_def)
  next
    case (Some s)
    then have "es_entity_type s = ev_entity_type e" "es_entity_id s = ev_entity_id e"
      by (auto dest: first_row_Some simp: state_key_def event_key_def)
    then have "state_wf d (s \<lparr> es_latest_status := ev_canonical_status e, es_latest_event_time := ev_event_time e,
        es_latest_event := ev_id e, es_updated_at := now \<rparr>)"
      using assms(1) by (simp add: state_wf_def event_known_def event_wf_def state_columns_def event_columns_def)
    then show ?thesis using assms(2,3) Some
      by (auto simp: upsert_if_newer_def Let_def in_save_row split: if_splits)
  qed
qed

lemma db_ok_upsert:
  assumes "db_ok d" "event_known d e"
  shows "db_ok (d \<lparr> db_states := snd (upsert_if_newer e now (db_states d)) \<rparr>)"
proof -
  have "state_wf (d \<lparr> db_states := ss \<rparr>) st = state_wf d st" for ss st
    by (simp add: state_wf_def event_ids_def)
  moreover have "\<forall>st \<in> set (snd (upsert_if_newer e now (db_states d))). state_wf d st"
    using upsert_keeps_wf [OF assms(2)] assms(1) unfolding db_ok_def by blast
  ultimately show ?thesis
    using assms(1) upsert_keeps_constraints [of "db_states d" e now]
    by (simp add: db_ok_def events_fit_def events_wf_def webhook_ids_def)
qed

text \<open>Writing the review columns of one event.\<close>

definition review_update :: "(normalized_event \<Rightarrow> normalized_event) \<Rightarrow> bool" where
  "review_update f \<longleftrightarrow> (\<forall>e. event_link (f e) = event_link e \<and> (event_wf e \<longrightarrow> event_wf (f e)) \<and>
     (event_columns e \<longrightarrow> event_columns (f e)))"

lemma db_ok_review_update:
  assumes "db_ok d" "review_update f"
  shows "db_ok (d \<lparr> db_events := update_row ev_id i f (db_events d) \<rparr>)"
proof -
  let ?d = "d \<lparr> db_events := update_row ev_id i f (db_events d) \<rparr>"
  have f: "ev_id (f e) = ev_id e" "ev_webhook (f e) = ev_webhook e" "event_wf e \<Longrightarrow> event_wf (f e)"
      "event_columns e \<Longrightarrow> event_columns (f e)" for e
    using assms(2) by (simp_all add: review_update_def event_link_def)
  have ids: "map ev_id (db_events ?d) = map ev_id (db_events d)" "map ev_webhook (db_events ?d) = map ev_webhook (db_events d)"
    using f by (simp_all add: row_simps)
  have "event_ids ?d = event_ids d" unfolding event_ids_def by (metis ids(1) list.set_map)
  moreover have "ev_webhook e \<in> webhook_ids d" if "e \<in> set (db_events ?d)" for e
    using that assms(1) f by (auto simp: db_ok_def in_update_row split: if_splits)
  moreover have "event_wf e \<and> event_columns e" if "e \<in> set (db_events ?d)" for e
    using that assms(1) f by (auto simp: db_ok_def events_wf_def events_fit_def in_update_row split: if_splits)
  ultimately show ?thesis using assms(1) ids
    by (simp add: db_ok_def webhook_ids_def state_wf_def event_constraints_def events_fit_def events_wf_def)
qed

lemma hold_is_review_update:
  "review_update (\<lambda>e. e \<lparr> ev_requires_review := True, ev_review_reason := take MAX_REVIEW_REASON reason \<rparr>)"
  by (simp add: review_update_def event_link_def event_wf_def event_columns_def MAX_REVIEW_REASON_def)

lemma decision_is_review_update:
  "decision \<in> set VALID_DECISIONS \<Longrightarrow> review_update (\<lambda>r. r \<lparr> ev_reviewed_at := Some now, ev_review_decision := decision,
     ev_review_reason := review_note e decision actor \<rparr>)"
  using short_reason(2) short_decision by (simp add: review_update_def event_link_def event_wf_def)

lemma gate_keeps_ok:
  assumes "db_ok d" "event_known d e" "apply_confidence_gate cfg e now d = (gate, d')"
  shows "db_ok d'"
  using assms db_ok_upsert [OF assms(1,2)] db_ok_review_update [OF assms(1) hold_is_review_update]
  by (auto simp: apply_confidence_gate_def Let_def split: if_splits)

lemma decision_keeps_ok:
  assumes "db_ok d" "event_known d e" "apply_review_decision e decision actor now d = Inr (u, d')"
  shows "db_ok d'"
proof -
  let ?ss = "if decision = APPROVE then snd (upsert_if_newer e now (db_states d)) else db_states d"
  have "d' = (d \<lparr> db_states := ?ss \<rparr>) \<lparr> db_events := update_row ev_id (ev_id e)
      (\<lambda>r. r \<lparr> ev_reviewed_at := Some now, ev_review_decision := decision,
              ev_review_reason := review_note e decision actor \<rparr>) (db_events (d \<lparr> db_states := ?ss \<rparr>)) \<rparr>"
    using assms(3) by (auto simp: apply_review_decision_def Let_def split: option.splits if_splits)
  moreover have "db_ok (d \<lparr> db_states := ?ss \<rparr>)"
    using db_ok_upsert [OF assms(1,2)] assms(1) by simp
  ultimately show ?thesis using db_ok_review_update [OF _ decision_is_review_update [OF decision_Inr(2) [OF assms(3)]]] by metis
qed

lemma create_keeps_ok:
  assumes "db_ok d" "wid \<in> webhook_ids d" "wf_result r"
    and c: "create_for_webhook wid r m v now d = Inr (e, d')"
  shows "db_ok d' \<and> event_known d' e \<and> extends d d'"
proof -
  note made = c [unfolded create_Inr, THEN conjunct2]
  note row = update_or_create_row [OF _ made]
  note links = create_links [OF c]
  have ec: "event_constraints (db_events d)" using assms(1) by (simp add: db_ok_def)
  have ext: "extends d d'" using links by (simp add: extends_def)
  have wf: "events_wf d' \<and> event_wf e" "events_fit d' \<and> event_columns e"
    using update_or_create_wf [OF _ assms(3) c] recording_fits [OF _ c] assms(1) by (simp_all add: db_ok_def)
  have "ev_webhook e' \<in> webhook_ids d'" if "e' \<in> set (db_events d')" for e'
  proof -
    have "e' \<in> set (db_events d) \<or> ev_webhook e' = wid"
      using that made
      by (auto simp: update_or_create_event_def Let_def in_update_row fill_event_def blank_event_def
          split: option.splits if_splits)
    moreover have "webhook_ids d \<subseteq> webhook_ids d'" by (rule ids_extend [OF ext])
    ultimately show ?thesis using assms(1,2) by (auto simp: db_ok_def)
  qed
  moreover have "\<forall>st \<in> set (db_states d'). state_wf d' st"
    using assms(1) links state_wf_extends [OF ext] by (auto simp: db_ok_def)
  moreover have "webhook_constraints (db_webhooks d') \<and> list_all columns_fit (db_webhooks d')"
    using assms(1) links webhook_constraints_stored columns_fit_stored unfolding db_ok_def by blast
  ultimately have "db_ok d'"
    using assms(1) row(1) [OF ec] wf links by (auto simp: db_ok_def)
  moreover have "event_known d' e" using row(6) [OF ec] wf by (simp add: event_known_def event_ids_def)
  ultimately show ?thesis using ext by blast
qed

lemma post_effect:
  assumes "db_ok (gw_db g)" "WebhookIngestionView_post cfg cx rq g = Inr (resp, g')"
  shows "g' = g \<or> (\<exists>w queue. gw_db g' = (gw_db g) \<lparr> db_webhooks := db_webhooks (gw_db g) @ [w] \<rparr> \<and>
     gw_sent g' = gw_sent g @ [(queue, rw_id w)] \<and> rw_processing_status w = RECEIVED \<and>
     rw_raw_payload w = rq_data rq \<and> rw_id w \<notin> webhook_ids (gw_db g) \<and> columns_fit w \<and>
     webhook_constraints (db_webhooks (gw_db g) @ [w]))"
proof -
  have wc: "webhook_constraints (db_webhooks (gw_db g))" using assms(1) by (simp add: db_ok_def)
  show ?thesis
  proof (cases rule: post_cases [OF wc, of cfg cx rq])
    case (2 payload vendor supplied w created g1)
    then have g1: "g1 = g'" using assms(2) by auto
    have v: "vendor \<noteq> []" using resolve_vendor_bounds [of "rq_headers rq" "rq_data rq"] 2(3) by simp
    show ?thesis
    proof (cases rule: ingest_cases [OF wc, of cfg cx payload vendor supplied])
      case (2 w' rates queue)
      moreover have "columns_fit w'" using new_webhook_fits [OF v] 2(1,6) by simp
      moreover have "rw_processing_status w' = RECEIVED" "rw_id w' \<notin> webhook_ids (gw_db g)"
        using fresh_key_notin [of "map rw_id (db_webhooks (gw_db g))"]
        by (simp_all add: 2(1) new_webhook_def webhook_ids_def)
      moreover have "rw_raw_payload w' = rq_data rq"
        by (simp add: 2(1) new_webhook_def delivery_of_def Let_def \<open>payload = rq_data rq\<close>)
      ultimately show ?thesis using \<open>ingest _ _ _ _ _ _ = Inr ((w, created), g1)\<close> g1 by auto
    qed (use 2 g1 in auto)
  qed (use assms(2) in auto)
qed

lemma post_keeps_ok:
  assumes "db_ok (gw_db g)" "WebhookIngestionView_post cfg cx rq g = Inr (resp, g')"
  shows "db_ok (gw_db g') \<and> extends (gw_db g) (gw_db g') \<and>
    snd ` set (gw_sent g') \<subseteq> snd ` set (gw_sent g) \<union> webhook_ids (gw_db g')"
  using post_effect [OF assms]
proof (elim disjE exE conjE)
  fix w queue assume w: "gw_db g' = (gw_db g) \<lparr> db_webhooks := db_webhooks (gw_db g) @ [w] \<rparr>"
     "gw_sent g' = gw_sent g @ [(queue, rw_id w)]" "columns_fit w"
     "webhook_constraints (db_webhooks (gw_db g) @ [w])"
  have ext: "extends (gw_db g) (gw_db g')" by (simp add: extends_def w)
  have "ev_webhook e \<in> webhook_ids (gw_db g')" if "e \<in> set (db_events (gw_db g))" for e
    using that assms(1) ids_extend(1) [OF ext] by (auto simp: db_ok_def)
  then have "db_ok (gw_db g')" using assms(1) w
    by (simp add: db_ok_def events_fit_def events_wf_def state_wf_def event_ids_def)
  then show ?thesis using ext by (auto simp: w webhook_ids_def)
qed (use assms(1) in auto)

section \<open>The invariant of the system\<close>

definition row_known :: "db \<Rightarrow> raw_webhook \<Rightarrow> bool" where
  "row_known d w \<longleftrightarrow> stored_part w \<in> stored_part ` set (db_webhooks d)"

fun job_ok :: "db \<Rightarrow> job \<Rightarrow> bool" where
  "job_ok d (Looked wid attempt seen) \<longleftrightarrow> wid \<in> webhook_ids d \<and> extends seen d"
| "job_ok d (Holding attempt w) \<longleftrightarrow> row_known d w"
| "job_ok d (Answered attempt w answer) \<longleftrightarrow> row_known d w \<and>
     (\<forall>resp. answer = Inr resp \<longrightarrow> wf_result (resp_normalized resp))"
| "job_ok d (Written attempt w e) \<longleftrightarrow> row_known d w \<and> event_known d e \<and> ev_webhook e = rw_id w"

definition system_ok :: "system \<Rightarrow> bool" where
  "system_ok s \<longleftrightarrow> db_ok (sy_db s) \<and> (\<forall>t \<in> set (due s). fst t \<in> webhook_ids (sy_db s)) \<and>
     (\<forall>k j. sy_jobs s k = Some j \<longrightarrow> job_ok (sy_db s) j) \<and>
     (\<forall>e \<in> set (sy_open s). event_known (sy_db s) e \<and> ev_requires_review e) \<and>
     rw_id ` set (sy_loaded s) \<subseteq> webhook_ids (sy_db s)"

lemma row_known_extends: 
  assumes "extends d d'" "row_known d w" shows "row_known d' w"
proof -
  have "set (map stored_part (db_webhooks d)) \<subseteq> set (map stored_part (db_webhooks d'))"
    using assms(1) unfolding extends_def by (blast dest: prefix_subset)
  then show ?thesis using assms(2) by (auto simp: row_known_def)
qed

lemma row_known_id: "row_known d w \<Longrightarrow> rw_id w \<in> webhook_ids d"
  by (auto simp: row_known_def webhook_ids_def stored_part_def)

lemma job_ok_extends: "extends d d' \<Longrightarrow> job_ok d j \<Longrightarrow> job_ok d' j"
  using row_known_extends event_known_extends extends_trans ids_extend(1)
  by (cases j) (simp_all, blast+)

lemma claimed_row_known:
  assumes "extends seen d" "claim_webhook wid seen d = (Claimed w, d')"
  shows "row_known d w \<and> rw_id w = wid \<and> webhook_by_id wid seen = Some w \<and> d' = set_status wid PROCESSING d \<and>
    rw_processing_status w \<noteq> NORMALIZED"
proof -
  have w: "webhook_by_id wid seen = Some w" "d' = set_status wid PROCESSING d" "rw_processing_status w \<noteq> NORMALIZED"
    using assms(2) by (auto simp: claim_webhook_def split: option.splits if_splits)
  then have "w \<in> set (db_webhooks seen)" "rw_id w = wid" by (auto dest: webhook_by_id_Some)
  then have "row_known seen w" by (auto simp: row_known_def)
  then show ?thesis using w row_known_extends [OF assms(1)] \<open>rw_id w = wid\<close> by blast
qed

lemma with_db_simps [simp]:
  "sy_db (with_db d s) = d" "sy_jobs (with_db d s) = sy_jobs s" "sy_open (with_db d s) = sy_open s"
  "due (with_db d s) = due s" "sy_retries (with_db d s) = sy_retries s" "sy_loaded (with_db d s) = sy_loaded s"
  by (simp_all add: with_db_def due_def)

lemma with_profiles_simps [simp]:
  "sy_db (with_profiles st s) = (sy_db s) \<lparr> db_profiles := fst st \<rparr>" "sy_jobs (with_profiles st s) = sy_jobs s"
  "sy_open (with_profiles st s) = sy_open s" "due (with_profiles st s) = due s"
  "sy_retries (with_profiles st s) = sy_retries s" "sy_loaded (with_profiles st s) = sy_loaded s"
  by (simp_all add: with_profiles_def due_def)

lemma set_job_simps [simp]:
  "sy_db (set_job k j s) = sy_db s" "sy_jobs (set_job k j s) = (sy_jobs s)(k := j)"
  "sy_open (set_job k j s) = sy_open s" "due (set_job k j s) = due s"
  "sy_gateway (set_job k j s) = sy_gateway s" "sy_retries (set_job k j s) = sy_retries s"
  "sy_loaded (set_job k j s) = sy_loaded s"
  by (simp_all add: set_job_def due_def)

text \<open>The selected backend answers with canonical readings, whatever the model does.\<close>

lemma backend_answers_wf:
  assumes "ask (backend_of dp now arrival) w st = (Inr resp, st')"
  shows "wf_result (resp_normalized resp)"
proof -
  obtain run where run: "backend_of dp now arrival = Inr run" "run (rw_raw_payload w) (rw_vendor w) st = (Inr resp, st')"
    using assms by (auto simp: ask_def split: sum.splits)
  then have "run = openai_backend (dp_settings dp) (dp_client dp) (dp_pins dp) now \<or>
      run = rules_backend (dp_pins dp) now arrival"
    unfolding backend_of_def backend_selection_default by (metis Inl_Inr_False Inr_inject)
  then show ?thesis using run(2) openai.run_wf rules.run_wf by metis
qed

text \<open>What a step has to establish.\<close>

lemma system_ok_step:
  assumes "system_ok s" "db_ok (sy_db s')" "extends (sy_db s) (sy_db s')"
    and "\<forall>k j. sy_jobs s' k = Some j \<longrightarrow> sy_jobs s k = Some j \<or> job_ok (sy_db s') j"
    and "fst ` set (due s') \<subseteq> fst ` set (due s) \<union> webhook_ids (sy_db s')"
    and "\<forall>e \<in> set (sy_open s'). e \<in> set (sy_open s) \<or> (event_known (sy_db s') e \<and> ev_requires_review e)"
    and "rw_id ` set (sy_loaded s') \<subseteq> rw_id ` set (sy_loaded s) \<union> webhook_ids (sy_db s')"
  shows "system_ok s' \<and> extends (sy_db s) (sy_db s')"
proof -
  have "job_ok (sy_db s') j" if "sy_jobs s' k = Some j" for k j
    using assms(4) that assms(1) job_ok_extends [OF assms(3)] unfolding system_ok_def by blast
  moreover have "fst t \<in> webhook_ids (sy_db s')" if "t \<in> set (due s')" for t
  proof -
    have "fst t \<in> fst ` set (due s) \<union> webhook_ids (sy_db s')" using that assms(5) by blast
    then show ?thesis using assms(1) ids_extend(1) [OF assms(3)] unfolding system_ok_def by auto
  qed
  moreover have "event_known (sy_db s') e \<and> ev_requires_review e" if "e \<in> set (sy_open s')" for e
    using assms(6) that assms(1) event_known_extends [OF assms(3)] unfolding system_ok_def by blast
  moreover have "rw_id ` set (sy_loaded s') \<subseteq> webhook_ids (sy_db s')"
  proof -
    have "rw_id ` set (sy_loaded s) \<subseteq> webhook_ids (sy_db s)" using assms(1) by (simp add: system_ok_def)
    then show ?thesis using assms(7) ids_extend(1) [OF assms(3)] by (meson Un_least order_trans order_refl)
  qed
  ultimately show ?thesis using assms(2,3) unfolding system_ok_def by simp
qed

lemma job_of_ok: "system_ok s \<Longrightarrow> sy_jobs s k = Some j \<Longrightarrow> job_ok (sy_db s) j"
  by (simp add: system_ok_def)

lemma db_of_ok: "system_ok s \<Longrightarrow> db_ok (sy_db s)"
  by (simp add: system_ok_def)

lemma due_ids: "fst ` set (due s) = snd ` set (gw_sent (sy_gateway s)) \<union> fst ` set (sy_retries s)"
  by (simp add: due_def image_Un image_image case_prod_beta)

lemma claimed_by_ok: "claimed_by j = Some (attempt, w) \<Longrightarrow> job_ok d j \<Longrightarrow> row_known d w"
  by (cases j) auto

lemma replay_all_sent:
  "replay_all cfg batch True g = (n, g') \<Longrightarrow> gw_sent g' = gw_sent g @ map (\<lambda>w. (NORMALIZATION_BULK_QUEUE cfg, rw_id w)) batch"
  by (auto simp: replay_all_forced)

lemma replay_endpoint_effect:
  assumes "WebhookReplayView_post cfg wid force g = (resp, g')"
  shows "g' = g \<or> (wid \<in> webhook_ids (gw_db g) \<and> g' = g
     \<lparr> gw_db := (gw_db g) \<lparr> db_webhooks := update_row rw_id wid replayed (db_webhooks (gw_db g)) \<rparr>,
       gw_sent := gw_sent g @ [(NORMALIZATION_BULK_QUEUE cfg, wid)] \<rparr>)"
proof (cases "webhook_by_id wid (gw_db g)")
  case (Some w)
  then have "rw_id w = wid" "wid \<in> webhook_ids (gw_db g)"
    by (auto simp: webhook_ids_def dest: webhook_by_id_Some)
  then show ?thesis using assms Some
    by (cases force) (auto simp: WebhookReplayView_post_def replay_alt split: if_splits)
qed (use assms in \<open>auto simp: WebhookReplayView_post_def\<close>)

lemma replay_endpoint_sent:
  "WebhookReplayView_post cfg wid force g = (resp, g') \<Longrightarrow>
     snd ` set (gw_sent g') \<subseteq> snd ` set (gw_sent g) \<union> webhook_ids (gw_db g)"
  using replay_endpoint_effect [of cfg wid force g resp g'] by auto

text \<open>The steps that replay webhooks, and the steps of a worker that only touch a status.\<close>

lemma replaying_ok:
  assumes "system_ok s" "touches_status (sy_db s) (gw_db g)"
    and "snd ` set (gw_sent g) \<subseteq> snd ` set (gw_sent (sy_gateway s)) \<union> webhook_ids (sy_db s)"
  shows "system_ok (s \<lparr> sy_gateway := g \<rparr>) \<and> extends (sy_db s) (gw_db g)"
proof -
  have ext: "extends (sy_db s) (gw_db g)" by (rule touches_status_extends [OF assms(2)])
  have "fst ` set (due (s \<lparr> sy_gateway := g \<rparr>)) \<subseteq> fst ` set (due s) \<union> webhook_ids (gw_db g)"
    using assms(3) ids_extend(1) [OF ext] unfolding due_ids by auto
  then have "system_ok (s \<lparr> sy_gateway := g \<rparr>) \<and> extends (sy_db s) (sy_db (s \<lparr> sy_gateway := g \<rparr>))"
    by (intro system_ok_step [OF assms(1)])
       (use touches_status_ok [OF assms(2) db_of_ok [OF assms(1)]] ext in auto)
  then show ?thesis by simp
qed

lemma batch_of_table:
  "set batch \<subseteq> set (db_webhooks d) \<Longrightarrow> rw_id ` set batch \<subseteq> webhook_ids d"
  by (auto simp: webhook_ids_def)

lemma failing_ok:
  assumes "system_ok s" "sy_jobs s k = Some j" "claimed_by j = Some (attempt, w)"
    and "handle_error may_retry attempt w e (sy_db s) = (out, d)"
    and "fst ` set tasks \<subseteq> {rw_id w}"
  shows "system_ok (set_job k None (with_db d s) \<lparr> sy_retries := sy_retries s @ tasks \<rparr>) \<and> extends (sy_db s) d"
proof -
  let ?s = "set_job k None (with_db d s) \<lparr> sy_retries := sy_retries s @ tasks \<rparr>"
  have t: "touches_status (sy_db s) d" by (rule touches_handle_error [OF assms(4)])
  have "row_known (sy_db s) w" using claimed_by_ok [OF assms(3) job_of_ok [OF assms(1,2)]] .
  then have "rw_id w \<in> webhook_ids d"
    using ids_extend(1) [OF touches_status_extends [OF t]] row_known_id by blast
  moreover have db: "sy_db ?s = d" by (simp add: set_job_def)
  moreover have "fst ` set (due ?s) = fst ` set (due s) \<union> fst ` set tasks"
    by (simp add: due_def set_job_def with_db_def image_Un) blast
  ultimately have "system_ok ?s \<and> extends (sy_db s) (sy_db ?s)"
    by (intro system_ok_step [OF assms(1)])
       (use assms(5) touches_status_extends [OF t] touches_status_ok [OF t db_of_ok [OF assms(1)]]
        in \<open>auto split: if_splits\<close>)
  then show ?thesis using db by simp
qed

lemma failing_ok':
  assumes "system_ok s" "sy_jobs s k = Some j" "claimed_by j = Some (attempt, w)"
    and "handle_error may_retry attempt w e (sy_db s) = (out, d)"
  shows "system_ok (set_job k None (with_db d s)) \<and> extends (sy_db s) d"
proof -
  have "set_job k None (with_db d s) \<lparr> sy_retries := sy_retries s @ [] \<rparr> = set_job k None (with_db d s)"
    by (simp add: set_job_def with_db_def)
  then show ?thesis using failing_ok [OF assms, of "[]"] by (simp only: image_empty set_simps empty_subsetI simp_thms)
qed

lemma rescheduled_ids: "fst ` set (rescheduled wid attempt out) \<subseteq> {wid}"
  by (cases out) auto

lemma loading_ok:
  assumes "system_ok s" "rw_id ` set ws \<subseteq> webhook_ids (sy_db s)"
  shows "system_ok (s \<lparr> sy_loaded := ws \<rparr>)"
  using system_ok_step [of s "s \<lparr> sy_loaded := ws \<rparr>"] assms db_of_ok [OF assms(1)] by (auto simp: due_def)

lemma replay_touches: "replay cfg w force g = (sent, g') \<Longrightarrow> touches_status (gw_db g) (gw_db g')"
  by (auto simp: replay_alt stored_part_def replayed_def intro!: touches_update split: if_splits)

lemma replay_loaded_ok:
  assumes "system_ok s" "w \<in> set (sy_loaded s)" "replay cfg w force (sy_gateway s) = (sent, g)"
  shows "system_ok (s \<lparr> sy_gateway := g, sy_loaded := remove1 w (sy_loaded s) \<rparr>) \<and> extends (sy_db s) (gw_db g)"
proof -
  have ids: "rw_id ` set (sy_loaded s) \<subseteq> webhook_ids (sy_db s)" using assms(1) by (simp add: system_ok_def)
  then have "rw_id w \<in> webhook_ids (sy_db s)" using imageI [OF assms(2), of rw_id] by (rule subsetD)
  then have known: "insert (rw_id w) (snd ` set (gw_sent (sy_gateway s))) \<subseteq> snd ` set (gw_sent (sy_gateway s)) \<union> webhook_ids (sy_db s)"
    by simp
  have "snd ` set (gw_sent g) \<subseteq> insert (rw_id w) (snd ` set (gw_sent (sy_gateway s)))"
    using assms(3) unfolding replay_alt by (auto split: if_splits)
  from subset_trans [OF this known]
  have "snd ` set (gw_sent g) \<subseteq> snd ` set (gw_sent (sy_gateway s)) \<union> webhook_ids (sy_db s)" .
  note ok = replaying_ok [OF assms(1) replay_touches [OF assms(3)] this]
  have "rw_id ` set (remove1 w (sy_loaded s)) \<subseteq> webhook_ids (gw_db g)"
    using image_mono [OF set_remove1_subset, of rw_id w "sy_loaded s"] ids ids_extend(1) [of "sy_db s" "gw_db g"] ok
    by (meson order_trans)
  then show ?thesis using loading_ok [of "s \<lparr> sy_gateway := g \<rparr>" "remove1 w (sy_loaded s)"] ok by simp
qed

lemma replay_all_ok:
  assumes "system_ok s" "set batch \<subseteq> set (db_webhooks (sy_db s))"
    and "replay_all cfg batch True (sy_gateway s) = (n, g)"
  shows "system_ok (s \<lparr> sy_gateway := g \<rparr>) \<and> extends (sy_db s) (gw_db g)"
  by (rule replaying_ok [OF assms(1) touches_replay_all [OF assms(3)]])
     (use batch_of_table [OF assms(2)] in \<open>auto simp: replay_all_sent [OF assms(3)]\<close>)

lemma status_step_ok:
  assumes "system_ok s" "touches_status (sy_db s) d" "\<forall>j'. j = Some j' \<longrightarrow> job_ok d j'"
  shows "system_ok (set_job k j (with_db d s)) \<and> extends (sy_db s) d"
  using system_ok_step [of s "set_job k j (with_db d s)"] assms(1) touches_status_extends [OF assms(2)]
    touches_status_ok [OF assms(2) db_of_ok [OF assms(1)]] assms(3)
  by (auto split: if_splits)

lemma recording_ok:
  assumes "system_ok s" "sy_jobs s k = Some (Answered attempt w (Inr resp))"
    and c: "create_for_webhook (rw_id w) (resp_normalized resp) m v now (sy_db s) = Inr (e, d)"
  shows "system_ok (set_job k (Some (Written attempt w e)) (with_db d s)) \<and> extends (sy_db s) d"
proof -
  have j: "row_known (sy_db s) w" "wf_result (resp_normalized resp)"
    using job_of_ok [OF assms(1,2)] by auto
  note ok = create_keeps_ok [OF db_of_ok [OF assms(1)] row_known_id [OF j(1)] j(2) c]
  moreover have "ev_webhook e = rw_id w"
    using update_or_create_row(4) [OF _ c [unfolded create_Inr, THEN conjunct2]] db_of_ok [OF assms(1)]
    by (simp add: db_ok_def)
  ultimately have "job_ok d (Written attempt w e)" using row_known_extends j(1) by auto
  then show ?thesis
    using system_ok_step [of s "set_job k (Some (Written attempt w e)) (with_db d s)"] assms(1) ok
    by (auto split: if_splits)
qed

lemma gating_ok:
  assumes "system_ok s" "sy_jobs s k = Some (Written attempt w e)"
    and "apply_confidence_gate cfg e now (sy_db s) = (gate, d)"
  shows "system_ok (set_job k None (with_db d s)) \<and> extends (sy_db s) d"
  using system_ok_step [of s "set_job k None (with_db d s)"] gate_extends [OF assms(3)]
    gate_keeps_ok [OF db_of_ok [OF assms(1)] _ assms(3)] job_of_ok [OF assms(1,2)] assms(1)
  by (auto split: if_splits)

lemma deciding_ok:
  assumes "system_ok s" "e \<in> set (sy_open s)"
    and "apply_review_decision e decision actor now (sy_db s) = Inr (u, d)"
  shows "system_ok (with_db d s \<lparr> sy_open := remove1 e (sy_open s) \<rparr>) \<and> extends (sy_db s) d"
proof -
  let ?s = "with_db d s \<lparr> sy_open := remove1 e (sy_open s) \<rparr>"
  have "event_known (sy_db s) e" using assms(1,2) by (simp add: system_ok_def)
  then have "db_ok d" using decision_keeps_ok [OF db_of_ok [OF assms(1)] _ assms(3)] by blast
  moreover have "sy_db ?s = d" "due ?s = due s" "sy_jobs ?s = sy_jobs s" by (simp_all add: with_db_def due_def)
  ultimately show ?thesis
    using system_ok_step [of s ?s] decision_extends [OF assms(3)] assms(1) set_remove1_subset [of e "sy_open s"]
    by (auto simp del: set_remove1_subset)
qed

lemma backend_answer_ok:
  assumes "system_ok s" "sy_jobs s k = Some (Holding attempt w)"
    and "ask (backend_of dp now arrival) w st0 = (answer, st)"
  shows "system_ok (set_job k (Some (Answered attempt w answer)) (with_profiles st s))"
proof -
  have "row_known (sy_db s) w" using job_of_ok [OF assms(1,2)] by simp
  then have "job_ok (sy_db s \<lparr> db_profiles := fst st \<rparr>) (Answered attempt w answer)"
    using backend_answers_wf [of dp now arrival w st0 _ st] assms(3) by (auto simp: row_known_def)
  then show ?thesis
    using system_ok_step [of s "set_job k (Some (Answered attempt w answer)) (with_profiles st s)"]
      db_of_ok [OF assms(1)] assms(1)
    by (auto split: if_splits)
qed

lemma step_ok:
  assumes "step dp s a s'" "system_ok s"
  shows "system_ok s' \<and> extends (sy_db s) (sy_db s')"
  using assms(1)
proof cases
  case (post cx rq resp g)
  note p = post_keeps_ok [OF db_of_ok [OF assms(2)] post(3)]
  then have "fst ` set (due s') \<subseteq> fst ` set (due s) \<union> webhook_ids (sy_db s')"
    unfolding due_ids post by auto
  then show ?thesis using system_ok_step [of s s'] p assms(2) by (simp add: post)
next
  case (replay wid force resp g)
  show ?thesis unfolding replay
    using replaying_ok [OF assms(2) touches_replay_endpoint [OF replay(3)] replay_endpoint_sent [OF replay(3)]] by simp
next
  case (bulk_replay limit n g)
  have "set (failed_batch limit (sy_db s)) \<subseteq> set (db_webhooks (sy_db s))"
    by (auto simp: failed_batch_def dest: in_set_takeD)
  from replay_all_ok [OF assms(2) this] bulk_replay show ?thesis by (simp add: replay_failed_webhooks_def)
next
  case (reselect selected message g)
  obtain n where n: "replay_all (dp_settings dp) (filter (\<lambda>w. rw_id w \<in> selected) (db_webhooks (sy_db s))) True (sy_gateway s) = (n, g)"
    using reselect(3) by (auto simp: replay_selected_def split: prod.splits)
  show ?thesis unfolding reselect using replay_all_ok [OF assms(2) _ n] by auto
next
  case (load w)
  have "rw_id ` set (w # sy_loaded s) \<subseteq> webhook_ids (sy_db s)"
    using load(3) assms(2) by (auto simp: system_ok_def webhook_ids_def)
  from loading_ok [OF assms(2) this] show ?thesis by (simp add: load)
next
  case (replay_loaded w force sent g)
  show ?thesis unfolding replay_loaded(1,2) using replay_loaded_ok [OF assms(2) replay_loaded(3,4)] by simp
next
  case (write_profile st)
  then show ?thesis using system_ok_step [of s s'] assms(2) db_of_ok [OF assms(2)] by simp
next
  case (deliver wid attempt k)
  have "wid \<in> webhook_ids (sy_db s)" using assms(2) deliver(3) by (auto simp: system_ok_def)
  then show ?thesis using system_ok_step [of s s'] assms(2) db_of_ok [OF assms(2)]
    by (auto simp: deliver split: if_splits)
next
  case (claim k wid attempt seen w d)
  have "extends seen (sy_db s)" using job_of_ok [OF assms(2) claim(3)] by simp
  from claimed_row_known [OF this claim(4)] have "row_known (sy_db s) w" by blast
  then have "job_ok d (Holding attempt w)"
    using row_known_extends [OF touches_status_extends [OF touches_claim [OF claim(4)]]] by simp
  then have "\<forall>j'. Some (Holding attempt w) = Some j' \<longrightarrow> job_ok d j'" by simp
  from status_step_ok [OF assms(2) touches_claim [OF claim(4)] this, of k] show ?thesis by (simp add: claim)
next
  case (skip k wid attempt seen c d)
  then show ?thesis using status_step_ok [OF assms(2) touches_claim [OF skip(4)], of None] by simp
next
  case (normalise k attempt w now arrival answer st)
  then show ?thesis using backend_answer_ok [OF assms(2) normalise(3,4)] by simp
next
  case (write_event k attempt w resp now e d)
  then show ?thesis using recording_ok [OF assms(2) write_event(3,4)] by simp
next
  case (gate k attempt w e now gate d)
  then show ?thesis using gating_ok [OF assms(2) gate(3,4)] by simp
next
  case (fail k attempt w e out d)
  then show ?thesis
    using failing_ok [OF assms(2) fail(3) _ fail(4) rescheduled_ids] by (simp add: set_job_def)
next
  case (refuse_event k attempt w resp now e out d)
  then show ?thesis using failing_ok' [OF assms(2) refuse_event(3) _ refuse_event(5)] by simp
next
  case (interrupt k j attempt w m out d)
  then show ?thesis using failing_ok' [OF assms(2) interrupt(3,4,5)] by simp
next
  case (lose k j)
  then show ?thesis using system_ok_step [of s s'] assms(2) db_of_ok [OF assms(2)] by (auto split: if_splits)
next
  case (open_event e)
  have "event_known (sy_db s) e" using db_of_ok [OF assms(2)] open_event(3)
    by (simp add: event_known_def event_ids_def db_ok_def events_wf_def events_fit_def)
  then show ?thesis using system_ok_step [of s s'] assms(2) db_of_ok [OF assms(2)]
    by (auto simp: open_event due_def)
next
  case (decide e actor now updated d)
  then show ?thesis using deciding_ok [OF assms(2)] by (simp add: with_db_def)
qed

section \<open>What every reachable state satisfies\<close>

lemma initial_ok: "system_ok initial_system"
  by (simp add: system_ok_def initial_system_def empty_gateway_def empty_db_def db_ok_def due_def
      webhook_constraints_def event_constraints_def state_constraints_def events_fit_def events_wf_def)

lemma run_ok: "run dp s acts s' \<Longrightarrow> system_ok s \<Longrightarrow> system_ok s' \<and> extends (sy_db s) (sy_db s')"
  by (induction rule: run.induct) (auto dest: step_ok intro: extends_trans)

lemma reachable_ok: "reachable dp s \<Longrightarrow> system_ok s"
  using run_ok initial_ok unfolding reachable_def by blast

text \<open>C2. In every state the gateway can reach, under any interleaving of requests, workers, losses of
  workers, replays, profile edits and reviewers, and whatever the model answers: the tables keep
  their constraints, columns fit, every event belongs to a stored webhook and every entity state
  to a stored event, and all events and entity states are canonical.\<close>

theorem reachable_is_sound:
  assumes "reachable dp s"
  shows "webhook_constraints (db_webhooks (sy_db s)) \<and> event_constraints (db_events (sy_db s)) \<and>
    state_constraints (db_states (sy_db s)) \<and> events_fit (sy_db s) \<and>
    list_all columns_fit (db_webhooks (sy_db s)) \<and>
    (\<forall>e \<in> set (db_events (sy_db s)). event_wf e \<and> ev_webhook e \<in> webhook_ids (sy_db s)) \<and>
    (\<forall>st \<in> set (db_states (sy_db s)). es_latest_event st \<in> event_ids (sy_db s) \<and>
       canonical_pair (es_entity_type st) (es_latest_status st) \<and> state_columns st)"
proof -
  have "db_ok (sy_db s)" by (rule db_of_ok [OF reachable_ok [OF assms]])
  then show ?thesis unfolding db_ok_def events_wf_def state_wf_def by blast
qed

lemma image_sub_member: "f ` A \<subseteq> f ` B \<Longrightarrow> x \<in> A \<Longrightarrow> \<exists>y \<in> B. f y = f x"
  by (metis image_eqI imageE subsetD)

text \<open>C12. History is kept: in any run a stored webhook keeps its vendor, keys, payload and arrival
  time, an event keeps its webhook, and an entity's latest event time never goes back.\<close>

theorem history_is_kept:
  assumes "reachable dp s" "run dp s acts s'"
  shows "(\<forall>w \<in> set (db_webhooks (sy_db s)). \<exists>w' \<in> set (db_webhooks (sy_db s')).
            rw_id w' = rw_id w \<and> rw_vendor w' = rw_vendor w \<and> rw_idempotency_key w' = rw_idempotency_key w \<and>
            rw_external_event_id w' = rw_external_event_id w \<and> rw_raw_payload w' = rw_raw_payload w \<and>
            rw_received_at w' = rw_received_at w) \<and>
         (\<forall>e \<in> set (db_events (sy_db s)). \<exists>e' \<in> set (db_events (sy_db s')).
            ev_id e' = ev_id e \<and> ev_webhook e' = ev_webhook e) \<and>
         (\<forall>k st t i. latest_of (db_states (sy_db s)) k = Some (st, t, i) \<longrightarrow>
            (\<exists>st' t' i'. latest_of (db_states (sy_db s')) k = Some (st', t', i') \<and> t \<le> t'))"
proof -
  have ext: "extends (sy_db s) (sy_db s')" using run_ok [OF assms(2) reachable_ok [OF assms(1)]] by blast
  then have "stored_part ` set (db_webhooks (sy_db s)) \<subseteq> stored_part ` set (db_webhooks (sy_db s'))"
      "event_link ` set (db_events (sy_db s)) \<subseteq> event_link ` set (db_events (sy_db s'))"
    unfolding extends_def by (metis prefix_subset list.set_map)+
  then have "\<forall>w \<in> set (db_webhooks (sy_db s)). \<exists>w' \<in> set (db_webhooks (sy_db s')). stored_part w' = stored_part w"
    "\<forall>e \<in> set (db_events (sy_db s)). \<exists>e' \<in> set (db_events (sy_db s')). event_link e' = event_link e"
    by (blast intro: image_sub_member)+
  then show ?thesis using ext by (auto simp: extends_def not_older_def stored_part_def event_link_def)
qed

text \<open>C4. Entity states change in two ways only, in every state that meets the invariant: the gate trusted a reading a worker had just recorded,
  or a reviewer approved an event that was held and, when loaded, not yet decided.\<close>

theorem states_change_only_when_trusted:
  assumes "system_ok s" "step dp s a s'" "db_states (sy_db s') \<noteq> db_states (sy_db s)"
  shows "\<exists>e now. db_states (sy_db s') = snd (upsert_if_newer e now (db_states (sy_db s))) \<and>
    event_wf e \<and>
    ((\<exists>k attempt w. a = Gate k \<and> sy_jobs s k = Some (Written attempt w e) \<and> ev_webhook e = rw_id w \<and>
        \<not> is_low_confidence (ev_confidence_score e) (LOW_CONFIDENCE_THRESHOLD (dp_settings dp))) \<or>
     (a = Decide e APPROVE \<and> e \<in> set (sy_open s) \<and> pending e))"
proof -
  note ok = assms(1)
  from assms(2) show ?thesis
  proof cases
    case (post cx rq resp g)
    then show ?thesis using assms(3) post_effect [OF db_of_ok [OF ok] post(3)] by auto
  next
    case (replay wid force resp g)
    then show ?thesis using assms(3) touches_replay_endpoint [OF replay(3)] by (simp add: touches_status_def)
  next
    case (bulk_replay limit n g)
    then show ?thesis using assms(3) touches_replay_all by (simp add: replay_failed_webhooks_def touches_status_def)
  next
    case (reselect selected message g)
    then show ?thesis using assms(3) touches_replay_all
      by (auto simp: replay_selected_def touches_status_def split: prod.splits)
  next
    case (replay_loaded w force sent g)
    then show ?thesis using assms(3) replay_touches [OF replay_loaded(4)] by (simp add: touches_status_def)
  next
    case (claim k wid attempt seen w d)
    then show ?thesis using assms(3) touches_claim by (simp add: touches_status_def)
  next
    case (skip k wid attempt seen c d)
    then show ?thesis using assms(3) touches_claim by (simp add: touches_status_def)
  next
    case (write_event k attempt w resp now e d)
    then show ?thesis using assms(3) create_links by simp
  next
    case (gate k attempt w e now gate d)
    have "event_wf e" "ev_webhook e = rw_id w" using job_of_ok [OF ok gate(3)] by (auto simp: event_known_def)
    then show ?thesis using gate assms(3)
      by (intro exI [of _ e] exI [of _ now])
         (auto simp: apply_confidence_gate_def Let_def split: if_splits)
  next
    case (fail k attempt w e out d)
    then show ?thesis using assms(3) touches_handle_error by (simp add: touches_status_def set_job_def)
  next
    case (refuse_event k attempt w resp now e out d)
    then show ?thesis using assms(3) touches_handle_error [OF refuse_event(5)] by (simp add: touches_status_def)
  next
    case (interrupt k j attempt w m out d)
    then show ?thesis using assms(3) touches_handle_error [OF interrupt(5)] by (simp add: touches_status_def)
  next
    case (decide e decision actor now updated d)
    note dd = decision_Inr [OF decide(4)]
    have "event_wf e" using decide(3) ok by (simp add: system_ok_def event_known_def)
    moreover have "pending e" using decide(3) dd(1) ok by (simp add: system_ok_def pending_def)
    ultimately show ?thesis using assms(3) dd(4) decide
      by (intro exI [of _ e] exI [of _ now]) (auto simp: with_db_def split: if_splits)
  qed (use assms(3) in \<open>simp_all add: with_db_def\<close>)
qed

end
