(* ===== verification/System_Runs.thy ===== *)
theory System_Runs
  imports Gateway_System
begin

text \<open>
  What runs of the whole gateway do: an undisturbed run of a worker is the task function, a webhook
  in PROCESSING has a worker unless one was lost, what happens when one is lost, and what two
  reviewers do to each other.
\<close>

section \<open>Composing steps\<close>

lemma run_one: "step dp s a s' \<Longrightarrow> run dp s [a] s'"
  using more [OF stop, of dp s a s'] by simp

lemma run_snoc: "run dp s acts s' \<Longrightarrow> step dp s' a s'' \<Longrightarrow> run dp s (acts @ [a]) s''"
  by (rule more)

lemma run_trans: "run dp s' acts' s'' \<Longrightarrow> run dp s acts s' \<Longrightarrow> run dp s (acts @ acts') s''"
proof (induction rule: run.induct)
  case (more s acts' t a t')
  then show ?case using run_snoc [of dp _ "acts @ acts'"] by fastforce
qed simp

lemma run_Cons: "step dp s a s' \<Longrightarrow> run dp s' acts s'' \<Longrightarrow> run dp s (a # acts) s''"
  using run_trans [OF _ run_one] by fastforce

lemma run_reachable: "reachable dp s \<Longrightarrow> run dp s acts s' \<Longrightarrow> reachable dp s'"
  unfolding reachable_def using run_trans by blast

lemma set_job_twice [simp]: "set_job k j (set_job k i s) = set_job k j s"
  by (simp add: set_job_def)

lemma with_db_twice [simp]: "with_db d (with_db d' s) = with_db d s"
  by (simp add: with_db_def)

lemma set_job_same: "sy_jobs s k = j \<Longrightarrow> set_job k j s = s"
  by (simp add: set_job_def fun_upd_idem)

section \<open>An undisturbed run is the task\<close>

text \<open>A system as one run of the task leaves it: the world, and the task it rescheduled.\<close>

definition after_task :: "system \<Rightarrow> world \<Rightarrow> (nat \<times> nat) list \<Rightarrow> system" where
  "after_task s w tasks =
     s \<lparr> sy_gateway := (sy_gateway s) \<lparr> gw_db := fst w, gw_profile_cache := snd w \<rparr>,
         sy_retries := sy_retries s @ tasks \<rparr>"

lemma work_steps:
  assumes "sy_jobs s k = Some (Holding attempt w)" "sy_db s = d" "gw_profile_cache (sy_gateway s) = c"
    and "work_on (dp_settings dp) (backend_of dp now arrival) (dp_may_retry dp) attempt stamp w (d, c) = (out, d', c')"
  shows "\<exists>acts. set acts \<subseteq> {Normalise k, Record k, Gate k, Fail k} \<and>
    run dp s acts (after_task (set_job k None s) (d', c') (rescheduled (rw_id w) attempt out))"
proof -
  let ?f = "backend_of dp now arrival"
  obtain answer ps c1 where ask: "ask ?f w (profile_state_of s) = (answer, ps, c1)"
    by (cases "ask ?f w (profile_state_of s)")
  have st: "profile_state_of s = (db_profiles d, c)" using assms(2,3) by (simp add: profile_state_of_def)
  let ?d1 = "d \<lparr> db_profiles := ps \<rparr>"
  define s1 where "s1 = set_job k (Some (Answered attempt w answer)) (with_profiles (ps, c1) s)"
  have 1: "step dp s (Normalise k) s1"
    unfolding s1_def by (rule step.normalise [OF assms(1) ask])
  have db1: "sy_db s1 = ?d1" using assms(2) by (simp add: s1_def)
  show ?thesis
  proof (cases answer)
    case (Inl e)
    have h: "handle_error (dp_may_retry dp) attempt w e ?d1 = (out, d')" "c' = c1"
      using assms(4) ask unfolding Inl work_on_def ask_def st
      by (auto split: sum.splits prod.splits simp: assms(2) [symmetric])
    have "step dp s1 (Fail k) (set_job k None (with_db d' s1) \<lparr> sy_retries := sy_retries s1 @ rescheduled (rw_id w) attempt out \<rparr>)"
      using step.fail [of s1 k attempt w e dp out d'] h(1) db1 by (simp add: s1_def Inl)
    moreover have "set_job k None (with_db d' s1) \<lparr> sy_retries := sy_retries s1 @ rescheduled (rw_id w) attempt out \<rparr> =
        after_task (set_job k None s) (d', c') (rescheduled (rw_id w) attempt out)"
      by (simp add: h(2) s1_def after_task_def set_job_def with_db_def with_profiles_def)
    ultimately show ?thesis using run_Cons [OF 1 run_one] by (intro exI [of _ "[Normalise k, Fail k]"]) simp
  next
    case answered: (Inr resp)
    show ?thesis
    proof (cases "create_for_webhook (rw_id w) (resp_normalized resp) (resp_llm_model resp)
        (resp_prompt_version resp) stamp ?d1")
      case (Inl e)
      have h: "handle_error (dp_may_retry dp) attempt w e ?d1 = (out, d')" "c' = c1"
        using assms(4) ask Inl unfolding answered work_on_def ask_def st
        by (auto split: sum.splits prod.splits simp: assms(2) [symmetric])
      have "rescheduled (rw_id w) attempt out = []"
        using h(1) Inl by (auto simp: create_Inl too_long_def)
      then have "set_job k None (with_db d' s1) = after_task (set_job k None s) (d', c') (rescheduled (rw_id w) attempt out)"
        by (simp add: h(2) s1_def after_task_def set_job_def with_db_def with_profiles_def)
      moreover have "step dp s1 (Record k) (set_job k None (with_db d' s1))"
        by (rule step.refuse_event [where now = stamp and resp = resp and e = e])
           (use db1 Inl h(1) in \<open>simp_all add: s1_def answered\<close>)
      ultimately show ?thesis using run_Cons [OF 1 run_one] by (intro exI [of _ "[Normalise k, Record k]"]) simp
    next
      case (Inr ed)
      then obtain e d2 where e: "create_for_webhook (rw_id w) (resp_normalized resp) (resp_llm_model resp)
        (resp_prompt_version resp) stamp ?d1 = Inr (e, d2)" by (metis prod.exhaust)
      obtain gate d3 where g: "apply_confidence_gate (dp_settings dp) e stamp d2 = (gate, d3)" by (metis prod.exhaust)
      have out: "out = Processed gate" "d' = d3" "c' = c1"
        using assms(4) ask e g unfolding answered work_on_def ask_def st by (auto split: sum.splits)
      define s2 where "s2 = set_job k (Some (Written attempt w e)) (with_db d2 s1)"
      have 2: "step dp s1 (Record k) s2"
        unfolding s2_def
        by (rule step.write_event [where now = stamp and resp = resp])
           (use db1 e in \<open>simp_all add: s1_def answered\<close>)
      have db2: "sy_db s2 = d2" by (simp add: s2_def)
      have 3: "step dp s2 (Gate k) (set_job k None (with_db d3 s2))"
        by (rule step.gate [of _ _ attempt w e _ stamp gate]) (use g db2 in \<open>simp_all add: s2_def\<close>)
      have "set_job k None (with_db d3 s2) = after_task (set_job k None s) (d', c') (rescheduled (rw_id w) attempt out)"
        by (simp add: out s1_def s2_def after_task_def set_job_def with_db_def with_profiles_def)
      then show ?thesis using run_Cons [OF 1 run_Cons [OF 2 run_one [OF 3]]]
        by (intro exI [of _ "[Normalise k, Record k, Gate k]"]) simp
    qed
  qed
qed

lemma task_run:
  assumes "(wid, attempt) \<in> set (due s)" "sy_jobs s k = None"
    and "process_raw_webhook (dp_settings dp) (backend_of dp now arrival) (dp_may_retry dp) attempt stamp wid
           (sy_db s, gw_profile_cache (sy_gateway s)) = (out, w')"
  shows "\<exists>acts. set acts \<subseteq> {Claim k, Skip k, Normalise k, Record k, Gate k, Fail k} \<and>
    run dp s (Deliver k # acts) (after_task s w' (rescheduled wid attempt out))"
proof -
  let ?d = "sy_db s" and ?c = "gw_profile_cache (sy_gateway s)"
  define s1 where "s1 = set_job k (Some (Looked wid attempt ?d)) s"
  have 1: "step dp s (Deliver k) s1" unfolding s1_def by (rule step.deliver [OF assms(1,2)])
  obtain c d1 where c: "claim_webhook wid ?d ?d = (c, d1)" by (metis prod.exhaust)
  show ?thesis
  proof (cases "\<exists>w. c = Claimed w")
    case True
    then obtain w where w: "c = Claimed w" by blast
    then have id: "rw_id w = wid" using claimed_row_known [of ?d ?d wid w d1] c by simp
    define s2 where "s2 = set_job k (Some (Holding attempt w)) (with_db d1 s1)"
    have 2: "step dp s1 (Claim k) s2"
      unfolding s2_def by (rule step.claim) (use c w in \<open>simp_all add: s1_def\<close>)
    obtain d' c' where w': "w' = (d', c')" by (cases w')
    have "work_on (dp_settings dp) (backend_of dp now arrival) (dp_may_retry dp) attempt stamp w (d1, ?c) = (out, d', c')"
      using assms(3) c w w' by (simp add: process_raw_webhook_def)
    moreover have "sy_jobs s2 k = Some (Holding attempt w)" "sy_db s2 = d1" "gw_profile_cache (sy_gateway s2) = ?c"
      by (simp_all add: s2_def s1_def with_db_def set_job_def)
    ultimately obtain acts where acts: "set acts \<subseteq> {Normalise k, Record k, Gate k, Fail k}"
        "run dp s2 acts (after_task (set_job k None s2) (d', c') (rescheduled (rw_id w) attempt out))"
      using work_steps by blast
    have "after_task (set_job k None s2) (d', c') (rescheduled (rw_id w) attempt out) =
        after_task s w' (rescheduled wid attempt out)"
      using assms(2) id w' by (simp add: s2_def s1_def after_task_def set_job_def with_db_def fun_upd_idem)
    then show ?thesis using run_Cons [OF 1 run_Cons [OF 2 acts(2)]] acts(1)
      by (intro exI [of _ "Claim k # acts"]) auto
  next
    case False
    then have "w' = (d1, ?c)" "out = Skipped"
      using assms(3) c by (cases c; simp add: process_raw_webhook_def)+
    moreover have "step dp s1 (Skip k) (set_job k None (with_db d1 s1))"
      by (rule step.skip) (use c False in \<open>simp_all add: s1_def\<close>)
    moreover have "set_job k None (with_db d1 s1) = after_task s (d1, ?c) []"
      using assms(2) by (simp add: s1_def after_task_def set_job_def with_db_def fun_upd_idem)
    ultimately show ?thesis using run_Cons [OF 1 run_one]
      by (intro exI [of _ "[Skip k]"]) auto
  qed
qed

text \<open>C8. The steps refine the task: a worker that is not disturbed between its transactions does
  exactly what \<open>process_raw_webhook\<close> does in one go, to the database, to the profile cache and to
  the tasks that are rescheduled.\<close>

theorem undisturbed_run_is_task:
  assumes "(wid, attempt) \<in> set (due s)" "sy_jobs s k = None"
    and "process_raw_webhook (dp_settings dp) (backend_of dp now arrival) (dp_may_retry dp) attempt stamp wid
           (sy_db s, gw_profile_cache (sy_gateway s)) = (out, w')"
  shows "\<exists>acts. set acts \<subseteq> {Claim k, Skip k, Normalise k, Record k, Gate k, Fail k} \<and>
    run dp s (Deliver k # acts) (after_task s w' (rescheduled wid attempt out))"
  using assms by (rule task_run)

section \<open>Webhooks in PROCESSING\<close>

definition in_progress :: "db \<Rightarrow> nat set" where
  "in_progress d = rw_id ` {w \<in> set (db_webhooks d). rw_processing_status w = PROCESSING}"

text \<open>The webhooks a run has claimed and not yet written a result for, and all it has claimed.\<close>

fun busy_with :: "job \<Rightarrow> nat set" where
  "busy_with (Holding attempt w) = {rw_id w}"
| "busy_with (Answered attempt w answer) = {rw_id w}"
| "busy_with j = {}"

definition busy :: "system \<Rightarrow> nat \<Rightarrow> bool" where
  "busy s wid \<longleftrightarrow> (\<exists>k j. sy_jobs s k = Some j \<and> wid \<in> busy_with j)"

definition claimed :: "system \<Rightarrow> nat \<Rightarrow> bool" where
  "claimed s wid \<longleftrightarrow> (\<exists>k j attempt w. sy_jobs s k = Some j \<and> claimed_by j = Some (attempt, w) \<and> rw_id w = wid)"

lemma in_progress_update:
  assumes "\<And>w. rw_id (f w) = rw_id w" "\<And>w. rw_processing_status (f w) \<noteq> PROCESSING"
  shows "in_progress (d \<lparr> db_webhooks := update_row rw_id wid f (db_webhooks d) \<rparr>) = in_progress d - {wid}"
  using assms by (auto simp: in_progress_def in_update_row image_iff split: if_splits)

lemma in_progress_other [simp]:
  "in_progress (d \<lparr> db_profiles := ps \<rparr>) = in_progress d" "in_progress (d \<lparr> db_events := es \<rparr>) = in_progress d"
  "in_progress (d \<lparr> db_states := ss \<rparr>) = in_progress d"
  by (simp_all add: in_progress_def)

lemma in_progress_claim:
  "claim_webhook wid seen d = (Claimed w, d') \<Longrightarrow> in_progress d' \<subseteq> insert wid (in_progress d)"
  by (auto simp: claim_webhook_def set_status_def in_progress_def in_update_row image_iff
      split: option.splits if_splits)

lemma in_progress_skip:
  "claim_webhook wid seen d = (c, d') \<Longrightarrow> \<forall>w. c \<noteq> Claimed w \<Longrightarrow> d' = d"
  by (auto simp: claim_webhook_def split: option.splits if_splits)

lemma in_progress_records [simp]:
  "in_progress (record_failure wid m d) = in_progress d - {wid}"
  "in_progress (record_retry w m d) = in_progress d - {rw_id w}"
  "in_progress (record_dead_letter wid m d) = in_progress d - {wid}"
  unfolding record_failure_def record_retry_def record_dead_letter_def
  by (rule in_progress_update; simp)+

lemma in_progress_handle_error:
  assumes "handle_error may_retry attempt w e d = (out, d')"
  shows "in_progress d' = in_progress d - {rw_id w}"
  using assms by (cases rule: handle_error_cases) auto

lemma in_progress_create:
  assumes "create_for_webhook wid r m v now d = Inr (e, d')"
  shows "in_progress d' = in_progress d - {wid}"
proof -
  have "db_webhooks d' = update_row rw_id wid (\<lambda>w. w \<lparr> rw_processing_status := NORMALIZED, rw_error_message := [] \<rparr>) (db_webhooks d)"
    using assms by (auto simp: create_Inr update_or_create_event_def Let_def split: option.splits)
  then have "in_progress d' = in_progress (d \<lparr> db_webhooks := update_row rw_id wid
      (\<lambda>w. w \<lparr> rw_processing_status := NORMALIZED, rw_error_message := [] \<rparr>) (db_webhooks d) \<rparr>)"
    by (simp add: in_progress_def)
  then show ?thesis by (simp add: in_progress_update)
qed

lemma in_progress_same: "db_webhooks d' = db_webhooks d \<Longrightarrow> in_progress d' = in_progress d"
  by (simp add: in_progress_def)

lemma gate_webhooks: "apply_confidence_gate cfg e now d = (gate, d') \<Longrightarrow> db_webhooks d' = db_webhooks d"
  by (auto simp: apply_confidence_gate_def Let_def split: if_splits)

lemma in_progress_replay_all:
  "replay_all cfg batch True g = (n, g') \<Longrightarrow> in_progress (gw_db g') = in_progress (gw_db g) - rw_id ` set batch"
  by (auto simp: replay_all_forced in_progress_def replayed_def image_iff split: if_splits)

lemma in_progress_post:
  assumes "db_ok (gw_db g)" "WebhookIngestionView_post cfg cx rq g = Inr (resp, g')"
  shows "in_progress (gw_db g') = in_progress (gw_db g)"
  using post_effect [OF assms] by (auto simp: in_progress_def)

lemma in_progress_replay:
  "WebhookReplayView_post cfg wid force g = (resp, g') \<Longrightarrow> in_progress (gw_db g') \<subseteq> in_progress (gw_db g)"
  using replay_endpoint_effect [of cfg wid force g resp g'] by (auto simp: in_progress_update)

lemma in_progress_loaded:
  "replay cfg w force g = (sent, g') \<Longrightarrow> in_progress (gw_db g) - {rw_id w} \<subseteq> in_progress (gw_db g') \<and>
     in_progress (gw_db g') \<subseteq> in_progress (gw_db g)"
  by (auto simp: replay_alt in_progress_update split: if_splits)

lemma busy_set_job: "busy (set_job k j s) wid \<longleftrightarrow>
    (case j of None \<Rightarrow> False | Some j' \<Rightarrow> wid \<in> busy_with j') \<or>
    (\<exists>k' j'. k' \<noteq> k \<and> sy_jobs s k' = Some j' \<and> wid \<in> busy_with j')"
  by (auto simp: busy_def split: option.splits)

lemma busy_keep:
  "busy s wid \<Longrightarrow> sy_jobs s k = Some j \<Longrightarrow> wid \<notin> busy_with j \<Longrightarrow> busy (set_job k j' s) wid"
  unfolding busy_set_job by (metis busy_def option.inject)

lemma busy_jobs [simp]:
  "busy (with_db d s) = busy s" "busy (with_profiles st s) = busy s"
  "busy (s \<lparr> sy_gateway := g \<rparr>) = busy s" "busy (s \<lparr> sy_open := es \<rparr>) = busy s"
  "busy (s \<lparr> sy_retries := ts \<rparr>) = busy s" "busy (s \<lparr> sy_loaded := ws \<rparr>) = busy s"
  by (simp_all add: fun_eq_iff busy_def)

lemma busy_step:
  assumes "step dp s a s'" "system_ok s" "\<forall>k. a \<noteq> Lose k"
    and "\<forall>wid \<in> in_progress (sy_db s). busy s wid"
  shows "\<forall>wid \<in> in_progress (sy_db s'). busy s' wid"
  using assms(1)
proof cases
  case (post cx rq resp g)
  then show ?thesis using assms(4) in_progress_post [OF db_of_ok [OF assms(2)] post(3)] by simp
next
  case (replay wid force resp g)
  then show ?thesis using assms(4) in_progress_replay [OF replay(3)] by auto
next
  case (bulk_replay limit n g)
  then show ?thesis using assms(4) in_progress_replay_all by (simp add: replay_failed_webhooks_def)
next
  case (reselect selected message g)
  then show ?thesis using assms(4) in_progress_replay_all
    by (auto simp: replay_selected_def split: prod.splits)
next
  case (replay_loaded w force sent g)
  then show ?thesis using assms(4) in_progress_loaded [OF replay_loaded(4)] by auto
next
  case (deliver wid attempt k)
  then show ?thesis using assms(4) by (auto simp: busy_def split: if_splits) (metis option.simps(3))
next
  case (claim k wid attempt seen w d)
  have "rw_id w = wid" using claimed_row_known [OF _ claim(4)] job_of_ok [OF assms(2) claim(3)] by simp
  then have "busy s' wid" by (auto simp: claim(2) busy_set_job)
  moreover have "busy s' x" if "busy s x" for x
    using busy_keep [OF that claim(3), of "Some (Holding attempt w)"] by (simp add: claim(2) busy_set_job)
  ultimately show ?thesis using in_progress_claim [OF claim(4)] assms(4) by (auto simp: claim(2))
next
  case (skip k wid attempt seen c d)
  have "busy s' x" if "busy s x" for x using busy_keep [OF that skip(3), of None] by (simp add: skip(2) busy_set_job)
  then show ?thesis using assms(4) in_progress_skip [OF skip(4,5)] by (simp add: skip(2))
next
  case (normalise k attempt w now arrival answer st)
  have "busy s' x" if "busy s x" for x
    using busy_keep [OF that normalise(3), of "Some (Answered attempt w answer)"]
    by (cases "x = rw_id w") (simp_all add: normalise(2) busy_set_job)
  then show ?thesis using assms(4) by (simp add: normalise(2))
next
  case (write_event k attempt w resp now e d)
  have "busy s' x" if "busy s x" "x \<noteq> rw_id w" for x
    using busy_keep [OF that(1) write_event(3), of "Some (Written attempt w e)"] that(2) by (simp add: write_event(2) busy_set_job)
  then show ?thesis using assms(4) in_progress_create [OF write_event(4)] by (simp add: write_event(2))
next
  case (gate k attempt w e now gate d)
  have "busy s' x" if "busy s x" for x using busy_keep [OF that gate(3), of None] by (simp add: gate(2) busy_set_job)
  then show ?thesis using assms(4) in_progress_same [OF gate_webhooks [OF gate(4)]] by (simp add: gate(2))
next
  case (fail k attempt w e out d)
  have "busy s' x" if "busy s x" "x \<noteq> rw_id w" for x
    using busy_keep [OF that(1) fail(3), of None] that(2) by (simp add: fail(2) busy_set_job)
  then show ?thesis using assms(4) in_progress_handle_error [OF fail(4)] by (simp add: fail(2) set_job_def)
next
  case (refuse_event k attempt w resp now e out d)
  have "busy s' x" if "busy s x" "x \<noteq> rw_id w" for x
    using busy_keep [OF that(1) refuse_event(3), of None] that(2) by (simp add: refuse_event(2) busy_set_job)
  then show ?thesis using assms(4) in_progress_handle_error [OF refuse_event(5)] by (simp add: refuse_event(2))
next
  case (interrupt k j attempt w m out d)
  have "busy_with j \<subseteq> {rw_id w}" using interrupt(4) by (cases j) auto
  then have "busy s' x" if "busy s x" "x \<noteq> rw_id w" for x
    using busy_keep [OF that(1) interrupt(3), of None] that(2) by (auto simp: interrupt(2) busy_set_job)
  then show ?thesis using assms(4) in_progress_handle_error [OF interrupt(5)] by (simp add: interrupt(2))
next
  case (decide e actor now updated d)
  then show ?thesis using assms(4) in_progress_same [OF decision_Inr(6) [OF decide(4)]]
    by (simp add: with_db_def)
qed (use assms(3,4) in \<open>simp_all add: with_db_def\<close>)

text \<open>C23. As long as no worker is lost, a webhook in \<open>PROCESSING\<close> is being worked on: some run has
  claimed it and has not yet written a result for it.\<close>

theorem processing_has_worker:
  assumes "run dp initial_system acts s" "\<forall>k. Lose k \<notin> set acts"
    and "w \<in> set (db_webhooks (sy_db s))" "rw_processing_status w = PROCESSING"
  shows "\<exists>k attempt w'. rw_id w' = rw_id w \<and>
    (sy_jobs s k = Some (Holding attempt w') \<or> (\<exists>answer. sy_jobs s k = Some (Answered attempt w' answer)))"
proof -
  have "\<forall>wid \<in> in_progress (sy_db s). busy s wid"
    using assms(1,2)
  proof (induction "initial_system" acts s rule: run.induct)
    case stop
    then show ?case by (simp add: in_progress_def initial_system_def empty_gateway_def empty_db_def)
  next
    case (more acts s' a s'')
    have "system_ok s'" using run_ok [OF more(1) initial_ok] by blast
    then show ?case using busy_step [OF more(3)] more(2,4) by auto
  qed
  moreover have "rw_id w \<in> in_progress (sy_db s)" using assms(3,4) by (auto simp: in_progress_def)
  ultimately obtain k j where j: "sy_jobs s k = Some j" "rw_id w \<in> busy_with j" unfolding busy_def by blast
  then show ?thesis by (cases j) auto
qed

text \<open>A claimed webhook whose worker is gone: nothing but a replay of it that is forced, or that loaded
  the row before it was claimed, moves it again.\<close>

definition stranded :: "system \<Rightarrow> nat \<Rightarrow> bool" where
  "stranded s wid \<longleftrightarrow> wid \<in> in_progress (sy_db s) \<and> \<not> claimed s wid"

definition forces :: "nat \<Rightarrow> action \<Rightarrow> bool" where
  "forces wid a \<longleftrightarrow> a = Replay wid (Some True) \<or> (\<exists>selected. a = Reselect selected \<and> wid \<in> selected) \<or>
     (\<exists>w force. a = ReplayLoaded w force \<and> rw_id w = wid)"

lemma stranded_keep:
  assumes "stranded s wid" "in_progress (sy_db s) - K \<subseteq> in_progress (sy_db s')" "wid \<notin> K"
    and "claimed s' wid \<Longrightarrow> claimed s wid"
  shows "stranded s' wid"
  using assms unfolding stranded_def by blast

lemma in_progress_row:
  assumes "db_ok d" "wid \<in> in_progress d" "w \<in> set (db_webhooks d)" "rw_id w = wid"
  shows "rw_processing_status w = PROCESSING"
  using assms by (auto simp: db_ok_def webhook_constraints_def in_progress_def distinct_map inj_on_def)

lemma unforced_replay:
  assumes "db_ok (gw_db g)" "wid \<in> in_progress (gw_db g)" "wid \<noteq> wid' \<or> force \<noteq> Some True"
    and "WebhookReplayView_post cfg wid' force g = (resp, g')"
  shows "wid \<in> in_progress (gw_db g')"
proof (cases "webhook_by_id wid' (gw_db g)")
  case None
  then show ?thesis using assms by (simp add: WebhookReplayView_post_def)
next
  case (Some w)
  then have w: "rw_id w = wid'" "w \<in> set (db_webhooks (gw_db g))" by (auto dest: webhook_by_id_Some)
  show ?thesis
  proof (cases "wid = wid'")
    case True
    then have "in_flight (rw_processing_status w)"
      using in_progress_row [OF assms(1,2) w(2)] w(1) by (simp add: in_flight_def)
    then show ?thesis using assms(2-4) True Some
      by (cases force) (auto simp: WebhookReplayView_post_def replay_alt)
  next
    case False
    have "in_progress ((gw_db g) \<lparr> db_webhooks := update_row rw_id wid' replayed (db_webhooks (gw_db g)) \<rparr>) =
        in_progress (gw_db g) - {wid'}" by (rule in_progress_update) simp_all
    then have "wid \<in> in_progress ((gw_db g) \<lparr> db_webhooks := update_row rw_id wid' replayed (db_webhooks (gw_db g)) \<rparr>)"
      using assms(2) False by simp
    then show ?thesis using replay_endpoint_effect [OF assms(4)] assms(2) by (elim disjE conjE) simp_all
  qed
qed

lemma claimed_set_job: "claimed (set_job k j s) wid \<longleftrightarrow>
    (\<exists>j' attempt w. j = Some j' \<and> claimed_by j' = Some (attempt, w) \<and> rw_id w = wid) \<or>
    (\<exists>k' j' attempt w. k' \<noteq> k \<and> sy_jobs s k' = Some j' \<and> claimed_by j' = Some (attempt, w) \<and> rw_id w = wid)"
  by (auto simp: claimed_def)

lemma claimed_jobs [simp]:
  "claimed (with_db d s) = claimed s" "claimed (with_profiles st s) = claimed s"
  "claimed (s \<lparr> sy_gateway := g \<rparr>) = claimed s" "claimed (s \<lparr> sy_open := es \<rparr>) = claimed s"
  "claimed (s \<lparr> sy_retries := ts \<rparr>) = claimed s" "claimed (s \<lparr> sy_loaded := ws \<rparr>) = claimed s"
  by (simp_all add: fun_eq_iff claimed_def)

lemma claimed_drop: "claimed (set_job k None s) wid \<Longrightarrow> claimed s wid"
  unfolding claimed_set_job unfolding claimed_def by blast

lemma claimed_advance:
  "claimed (set_job k (Some j') s) wid \<Longrightarrow> sy_jobs s k = Some j \<Longrightarrow> claimed_by j' = claimed_by j \<Longrightarrow> claimed s wid"
  unfolding claimed_set_job unfolding claimed_def by (metis option.inject)

lemma not_claimed: "\<not> claimed s wid \<Longrightarrow> sy_jobs s k = Some j \<Longrightarrow> claimed_by j = Some (attempt, w) \<Longrightarrow> rw_id w \<noteq> wid"
  by (auto simp: claimed_def)

lemma stranded_step:
  assumes "step dp s a s'" "system_ok s" "stranded s wid" "\<not> forces wid a"
  shows "stranded s' wid"
proof -
  have p: "wid \<in> in_progress (sy_db s)" and free: "\<not> claimed s wid" using assms(3) by (simp_all add: stranded_def)
  note ok = db_of_ok [OF assms(2)]
  from assms(1) have "wid \<in> in_progress (sy_db s') \<and> (claimed s' wid \<longrightarrow> claimed s wid)"
  proof cases
    case (post cx rq resp g)
    then show ?thesis using p in_progress_post [OF ok post(3)] by simp
  next
    case (replay wid' force resp g)
    then show ?thesis using unforced_replay [OF ok p _ replay(3)] assms(4) by (auto simp: forces_def)
  next
    case (bulk_replay limit n g)
    have "wid \<notin> rw_id ` set (failed_batch limit (sy_db s))"
      using in_progress_row [OF ok p] by (force simp: failed_batch_def dest!: in_set_takeD)
    then show ?thesis using bulk_replay p in_progress_replay_all by (auto simp: replay_failed_webhooks_def)
  next
    case (reselect selected message g)
    then have "wid \<notin> selected" using assms(4) by (simp add: forces_def)
    moreover obtain n where "replay_all (dp_settings dp) (filter (\<lambda>w. rw_id w \<in> selected) (db_webhooks (sy_db s))) True (sy_gateway s) = (n, g)"
      using reselect(3) by (auto simp: replay_selected_def split: prod.splits)
    ultimately show ?thesis using in_progress_replay_all p by (auto simp: reselect)
  next
    case (replay_loaded w force sent g)
    then have "rw_id w \<noteq> wid" using assms(4) by (auto simp: forces_def)
    then show ?thesis using p in_progress_loaded [OF replay_loaded(4)] by (auto simp: replay_loaded(2))
  next
    case (deliver wid' attempt k)
    then show ?thesis using p by (auto simp: claimed_set_job claimed_def)
  next
    case (claim k wid' attempt seen w d)
    have w: "rw_id w = wid'" using claimed_row_known [OF _ claim(4)] job_of_ok [OF assms(2) claim(3)] by simp
    have "wid' \<noteq> wid"
    proof
      assume "wid' = wid"
      then obtain row where "webhook_by_id wid (sy_db s) = Some row" "rw_processing_status row \<noteq> PROCESSING"
        using claim(4) by (auto simp: claim_webhook_def split: option.splits if_splits)
      then show False using in_progress_row [OF ok p] by (auto dest: webhook_by_id_Some)
    qed
    moreover have "d = set_status wid' PROCESSING (sy_db s)"
      using claimed_row_known [OF _ claim(4)] job_of_ok [OF assms(2) claim(3)] by simp
    ultimately have "wid \<in> in_progress d"
      using p by (force simp: set_status_def in_progress_def in_update_row)
    then show ?thesis using w \<open>wid' \<noteq> wid\<close> by (auto simp: claim(2) claimed_set_job claimed_def)
  next
    case (skip k wid' attempt seen c d)
    then show ?thesis using p in_progress_skip [OF skip(4,5)] claimed_drop [of k "with_db d s" wid] by auto
  next
    case (normalise k attempt w now arrival answer st)
    then show ?thesis using p claimed_advance [OF _ _ , of k _ "with_profiles st s" wid] by auto
  next
    case (write_event k attempt w resp now e d)
    have "rw_id w \<noteq> wid" using not_claimed [OF free write_event(3)] by simp
    then show ?thesis using p in_progress_create [OF write_event(4)] claimed_advance [of k _ "with_db d s" wid]
      by (auto simp: write_event(2,3))
  next
    case (gate k attempt w e now gate d)
    then show ?thesis
      using p in_progress_same [OF gate_webhooks [OF gate(4)]] claimed_drop [of k "with_db d s" wid] by auto
  next
    case (fail k attempt w e out d)
    have "rw_id w \<noteq> wid" using not_claimed [OF free fail(3)] by simp
    then show ?thesis using p in_progress_handle_error [OF fail(4)] claimed_drop [of k "with_db d s" wid]
      by (auto simp: fail(2) set_job_def)
  next
    case (refuse_event k attempt w resp now e out d)
    have "rw_id w \<noteq> wid" using not_claimed [OF free refuse_event(3)] by simp
    then show ?thesis using p in_progress_handle_error [OF refuse_event(5)] claimed_drop [of k "with_db d s" wid]
      by (auto simp: refuse_event(2))
  next
    case (interrupt k j attempt w m out d)
    have "rw_id w \<noteq> wid" using not_claimed [OF free interrupt(3,4)] by simp
    then show ?thesis using p in_progress_handle_error [OF interrupt(5)] claimed_drop [of k "with_db d s" wid]
      by (auto simp: interrupt(2))
  next
    case (lose k j)
    then show ?thesis using p claimed_drop by auto
  next
    case (decide e decision actor now updated d)
    then show ?thesis using p in_progress_same [OF decision_Inr(6) [OF decide(4)]] by (simp add: with_db_def)
  qed (use p in \<open>simp_all add: with_db_def\<close>)
  then show ?thesis using free by (simp add: stranded_def)
qed

lemma stranded_run:
  "run dp s acts s' \<Longrightarrow> system_ok s \<Longrightarrow> stranded s wid \<Longrightarrow> \<forall>a \<in> set acts. \<not> forces wid a \<Longrightarrow> stranded s' wid"
proof (induction rule: run.induct)
  case (more s acts s' a s'')
  then show ?case using stranded_step [OF more(2)] run_ok [OF more(1)] by auto
qed simp


section \<open>Every stored webhook gets its chance\<close>

lemma stored_ids:
  assumes "map stored_part (db_webhooks d') = map stored_part (db_webhooks d)"
  shows "webhook_ids d' = webhook_ids d"
proof -
  have "map fst (map stored_part (db_webhooks d')) = map fst (map stored_part (db_webhooks d))" by (simp only: assms)
  then have "map rw_id (db_webhooks d') = map rw_id (db_webhooks d)" by (simp add: stored_part_def comp_def)
  then show ?thesis unfolding webhook_ids_def by (metis list.set_map)
qed

lemma touches_ids: "touches_status d d' \<Longrightarrow> webhook_ids d' = webhook_ids d"
  by (rule stored_ids) (simp add: touches_status_def)

lemma create_ids: "create_for_webhook wid r m v now d = Inr (e, d') \<Longrightarrow> webhook_ids d' = webhook_ids d"
  by (rule stored_ids) (auto dest: create_links)

lemma replay_all_handed:
  assumes "replay_all cfg batch True g = (n, g')" "webhook_ids (gw_db g) \<subseteq> snd ` set (gw_sent g)"
  shows "webhook_ids (gw_db g') \<subseteq> snd ` set (gw_sent g')"
  unfolding touches_ids [OF touches_replay_all [OF assms(1)]] replay_all_sent [OF assms(1)]
  using assms(2) by auto

lemma handed_over_step:
  assumes "step dp s a s'" "system_ok s" "webhook_ids (sy_db s) \<subseteq> snd ` set (gw_sent (sy_gateway s))"
  shows "webhook_ids (sy_db s') \<subseteq> snd ` set (gw_sent (sy_gateway s'))"
  using assms(1)
proof cases
  case (post cx rq resp g)
  from post_effect [OF db_of_ok [OF assms(2)] post(3)] show ?thesis
  proof (elim disjE exE conjE)
    fix w queue
    assume "gw_db g = (sy_db s) \<lparr> db_webhooks := db_webhooks (sy_db s) @ [w] \<rparr>"
      and "gw_sent g = gw_sent (sy_gateway s) @ [(queue, rw_id w)]"
    then have "webhook_ids (gw_db g) = insert (rw_id w) (webhook_ids (sy_db s))"
      "snd ` set (gw_sent g) = insert (rw_id w) (snd ` set (gw_sent (sy_gateway s)))"
      by (simp_all add: webhook_ids_def)
    then show ?thesis using assms(3) by (simp add: post(2)) blast
  qed (use assms(3) post(2) in simp)
next
  case (replay wid force resp g)
  have "webhook_ids (gw_db g) = webhook_ids (sy_db s)" by (rule touches_ids [OF touches_replay_endpoint [OF replay(3)]])
  moreover have "set (gw_sent (sy_gateway s)) \<subseteq> set (gw_sent g)" using replay_endpoint_effect [OF replay(3)] by auto
  ultimately show ?thesis using assms(3) by (simp add: replay(2)) blast
next
  case (bulk_replay limit n g)
  show ?thesis using replay_all_handed bulk_replay(2,3) assms(3) by (simp add: replay_failed_webhooks_def)
next
  case (reselect selected message g)
  then obtain n where "replay_all (dp_settings dp) (filter (\<lambda>w. rw_id w \<in> selected) (db_webhooks (sy_db s))) True (sy_gateway s) = (n, g)"
    by (auto simp: replay_selected_def split: prod.splits)
  then show ?thesis using replay_all_handed assms(3) by (simp add: reselect(2))
next
  case (replay_loaded w force sent g)
  have "webhook_ids (gw_db g) = webhook_ids (sy_db s)" by (rule touches_ids [OF replay_touches [OF replay_loaded(4)]])
  moreover have "set (gw_sent (sy_gateway s)) \<subseteq> set (gw_sent g)"
    using replay_loaded(4) by (auto simp: replay_alt split: if_splits)
  ultimately show ?thesis using assms(3) by (simp add: replay_loaded(2)) blast
next
  case (write_profile st)
  then show ?thesis using assms(3) by (simp add: with_profiles_def webhook_ids_def)
next
  case (claim k wid attempt seen w d)
  then show ?thesis using assms(3) touches_ids [OF touches_claim [OF claim(4)]] by (simp add: with_db_def)
next
  case (skip k wid attempt seen c d)
  then show ?thesis using assms(3) touches_ids [OF touches_claim [OF skip(4)]] by (simp add: with_db_def)
next
  case (normalise k attempt w now arrival answer st)
  then show ?thesis using assms(3) by (simp add: with_profiles_def webhook_ids_def)
next
  case (write_event k attempt w resp now e d)
  then show ?thesis using assms(3) create_ids [OF write_event(4)] by (simp add: with_db_def)
next
  case (gate k attempt w e now gate d)
  then show ?thesis using assms(3) gate_webhooks [OF gate(4)] by (simp add: with_db_def webhook_ids_def)
next
  case (fail k attempt w e out d)
  then show ?thesis using assms(3) touches_ids [OF touches_handle_error [OF fail(4)]] by (simp add: with_db_def set_job_def)
next
  case (refuse_event k attempt w resp now e out d)
  then show ?thesis using assms(3) touches_ids [OF touches_handle_error [OF refuse_event(5)]] by (simp add: with_db_def)
next
  case (interrupt k j attempt w m out d)
  then show ?thesis using assms(3) touches_ids [OF touches_handle_error [OF interrupt(5)]] by (simp add: with_db_def)
next
  case (decide e decision actor now updated d)
  then show ?thesis using assms(3) decision_Inr(6) [OF decide(4)] by (simp add: with_db_def webhook_ids_def)
qed (use assms(3) in simp_all)

lemma handed_over:
  "run dp initial_system acts s \<Longrightarrow> webhook_ids (sy_db s) \<subseteq> snd ` set (gw_sent (sy_gateway s))"
proof (induction "initial_system" acts s rule: run.induct)
  case stop
  then show ?case by (simp add: initial_system_def empty_gateway_def empty_db_def webhook_ids_def)
next
  case (more acts s' a s'')
  then show ?case using handed_over_step [OF more(3)] run_ok [OF more(1) initial_ok] by blast
qed

lemma row_of_table:
  assumes "db_ok d" "w \<in> set (db_webhooks d)"
  shows "webhook_by_id (rw_id w) d = Some w"
  unfolding webhook_by_id_def
  by (rule first_row_unique [where key = rw_id]) (use assms in \<open>auto simp: db_ok_def webhook_constraints_def\<close>)

text \<open>What the task does with an answer it can use.\<close>

lemma task_with_answer:
  assumes "webhook_by_id wid d = Some w" "rw_processing_status w \<notin> {NORMALIZED, PROCESSING}"
    and "event_constraints (db_events d)"
    and "ask factory w (db_profiles d, c) = (Inr resp, st)"
    and "reading_fits (resp_normalized resp) (resp_llm_model resp) (resp_prompt_version resp)"
  shows "\<exists>gate w'. process_raw_webhook cfg factory may_retry attempt stamp wid (d, c) = (Processed gate, w') \<and>
    webhook_by_id wid (fst w') = Some (w \<lparr> rw_processing_status := NORMALIZED, rw_error_message := [] \<rparr>) \<and>
    length (filter (\<lambda>e. ev_webhook e = wid) (db_events (fst w'))) = 1 \<and>
    (\<forall>e \<in> set (db_events (fst w')). ev_webhook e = wid \<longrightarrow>
       ev_canonical_status e = nr_canonical_status (resp_normalized resp) \<and>
       (pending e \<longleftrightarrow> is_low_confidence (nr_confidence_score (resp_normalized resp)) (LOW_CONFIDENCE_THRESHOLD cfg)))"
proof -
  have id: "rw_id w = wid" using webhook_by_id_Some [OF assms(1)] by simp
  obtain ps c' where st: "st = (ps, c')" by (cases st)
  let ?d = "set_status wid PROCESSING d" let ?d1 = "?d \<lparr> db_profiles := ps \<rparr>"
  obtain run where run: "factory = Inr run" "run (rw_raw_payload w) (rw_vendor w) (db_profiles d, c) = (Inr resp, ps, c')"
    using assms(4) by (auto simp: ask_def st split: sum.splits)
  obtain e d2 where e: "update_or_create_event wid (resp_normalized resp) (resp_llm_model resp)
      (resp_prompt_version resp) stamp ?d1 = (e, d2)" by (metis prod.exhaust)
  then have created: "create_for_webhook wid (resp_normalized resp) (resp_llm_model resp)
      (resp_prompt_version resp) stamp ?d1 = Inr (e, d2)" using assms(5) by (simp add: create_Inr)
  obtain gate d3 where g: "apply_confidence_gate cfg e stamp d2 = (gate, d3)" by (metis prod.exhaust)
  have p: "process_raw_webhook cfg factory may_retry attempt stamp wid (d, c) = (Processed gate, d3, c')"
    using assms(1,2) run created g
    by (simp add: process_raw_webhook_def claim_webhook_def work_on_def id set_status_def)
  have "event_constraints (db_events ?d1)" using assms(3) by (simp add: set_status_def)
  note gp = gate_protects_state_lemma [OF this e g]
  have "pending e' \<longleftrightarrow> e' \<in> set (review_queue d3 [])" if "e' \<in> set (db_events d3)" for e'
    using that by (simp add: review_queue_def)
  moreover obtain w' where "webhook_by_id wid d3 = Some w'" "row_after (Processed gate) w w'"
    using process_row [OF p assms(1)] by blast
  ultimately show ?thesis using p gp by (auto simp: is_low_confidence_def)
qed


section \<open>Races\<close>

text \<open>C36. A decision is checked on the object in the reviewer's hands, not on the row: two reviewers who
  load a held event before either decides both succeed.  After a rejection the approval of the
  other still updates the entity state, and the row ends as approved, with no trace of the
  rejection in its reason.\<close>

theorem racing_reviewers_both_decide:
  assumes "e \<in> set (db_events (sy_db s))" "pending e" "system_ok s"
  shows "\<exists>s'. run dp s [Open (ev_id e), Open (ev_id e), Decide e REJECT, Decide e APPROVE] s' \<and>
    db_states (sy_db s') = snd (upsert_if_newer e t (db_states (sy_db s))) \<and>
    (\<forall>e' \<in> set (db_events (sy_db s')). ev_id e' = ev_id e \<longrightarrow>
       ev_review_decision e' = APPROVE \<and> ev_review_reason e' = review_note e APPROVE actor)"
proof -
  have p: "ev_requires_review e" "ev_reviewed_at e = None" using assms(2) by (simp_all add: pending_def)
  have ne: "(REJECT = APPROVE) = False" by (simp add: REJECT_def APPROVE_def)
  define s2 where "s2 = s \<lparr> sy_open := e # e # sy_open s \<rparr>"
  have o: "run dp s [Open (ev_id e), Open (ev_id e)] s2"
    using run_Cons [OF step.open_event [OF assms(1) p(1)] run_one [OF step.open_event [where e = e]]] assms(1) p(1)
    by (simp add: s2_def)
  obtain d1 where d1: "apply_review_decision e REJECT actor t (sy_db s) = Inr (False, d1)"
    using decision_total [OF p(2) valid_decisions(2)] ne by metis
  obtain d2 where d2: "apply_review_decision e APPROVE actor t d1 = Inr (True, d2)"
    using decision_total [OF p(2) valid_decisions(1), of actor t d1] by auto
  define s3 where "s3 = with_db d1 s2 \<lparr> sy_open := remove1 e (sy_open s2) \<rparr>"
  define s4 where "s4 = with_db d2 s3 \<lparr> sy_open := remove1 e (sy_open s3) \<rparr>"
  have "step dp s2 (Decide e REJECT) s3"
    unfolding s3_def by (rule step.decide [where now = t]) (use d1 in \<open>simp_all add: s2_def\<close>)
  moreover have "step dp s3 (Decide e APPROVE) s4"
    unfolding s4_def by (rule step.decide [where now = t]) (use d2 in \<open>simp_all add: s3_def s2_def with_db_def\<close>)
  ultimately have r: "run dp s [Open (ev_id e), Open (ev_id e), Decide e REJECT, Decide e APPROVE] s4"
    using run_trans [OF run_Cons [OF _ run_one] o] by simp
  have db: "sy_db s4 = d2" by (simp add: s4_def with_db_def)
  have "db_states d2 = snd (upsert_if_newer e t (db_states (sy_db s)))"
    using decision_Inr(4) [OF d1] decision_Inr(4) [OF d2] by (simp add: APPROVE_def REJECT_def)
  moreover have "ev_review_decision e' = APPROVE \<and> ev_review_reason e' = review_note e APPROVE actor"
    if "e' \<in> set (db_events d2)" "ev_id e' = ev_id e" for e'
    using updated_row [OF that(1) [unfolded decision_Inr(5) [OF d2]] that(2)] by auto
  ultimately show ?thesis using r db by (intro exI [of _ s4]) simp
qed

text \<open>C37. A worker that is lost after it recorded a reading and before the gate decided about it loses
  the event: it was below the threshold, but the console shows it as auto-applied, it is in no
  review queue, no entity state has it, and the task that is delivered again is skipped because the webhook is
  already normalised.\<close>

theorem lost_before_gate_is_never_reviewed:
  assumes "system_ok s" "sy_jobs s k = Some (Answered attempt w (Inr resp))"
    and "is_low_confidence (nr_confidence_score (resp_normalized resp)) (LOW_CONFIDENCE_THRESHOLD (dp_settings dp))"
    and "(rw_id w, attempt) \<in> set (due s)"
    and "reading_fits (resp_normalized resp) (resp_llm_model resp) (resp_prompt_version resp)"
  shows "\<exists>s' row. run dp s [Record k, Lose k, Deliver k, Skip k] s' \<and> sy_jobs s' k = None \<and>
    webhook_by_id (rw_id w) (sy_db s') = Some row \<and> rw_processing_status row = NORMALIZED \<and>
    db_states (sy_db s') = db_states (sy_db s) \<and>
    (\<exists>e \<in> set (db_events (sy_db s')). ev_webhook e = rw_id w \<and>
       is_low_confidence (ev_confidence_score e) (LOW_CONFIDENCE_THRESHOLD (dp_settings dp)) \<and>
       review_state e = coloured ''span'' ''#15803d'' ''auto-applied'' \<and> e \<notin> set (review_queue (sy_db s') []))"
proof -
  obtain e d where e: "update_or_create_event (rw_id w) (resp_normalized resp) (resp_llm_model resp)
      (resp_prompt_version resp) (Instant 0) (sy_db s) = (e, d)" by (metis prod.exhaust)
  then have created: "create_for_webhook (rw_id w) (resp_normalized resp) (resp_llm_model resp)
      (resp_prompt_version resp) (Instant 0) (sy_db s) = Inr (e, d)" using assms(5) by (simp add: create_Inr)
  note ok = db_of_ok [OF assms(1)]
  then have ec: "event_constraints (db_events (sy_db s))" by (simp add: db_ok_def)
  note row = update_or_create_row [OF ec e]
  have known: "row_known (sy_db s) w" using job_of_ok [OF assms(1,2)] by simp
  obtain old where old: "webhook_by_id (rw_id w) (sy_db s) = Some old"
    using row_known_id [OF known] row_of_table [OF ok] by (auto simp: webhook_ids_def)
  let ?row = "old \<lparr> rw_processing_status := NORMALIZED, rw_error_message := [] \<rparr>"
  have new: "webhook_by_id (rw_id w) d = Some ?row"
    using webhook_after_create [of "rw_id w" "rw_id w" "resp_normalized resp" "resp_llm_model resp"
        "resp_prompt_version resp" "Instant 0" "sy_db s"] e old by simp
  define s1 where "s1 = set_job k (Some (Written attempt w e)) (with_db d s)"
  define s2 where "s2 = set_job k None s1"
  define s3 where "s3 = set_job k (Some (Looked (rw_id w) attempt (sy_db s2))) s2"
  define s4 where "s4 = set_job k None (with_db (sy_db s3) s3)"
  have "step dp s (Record k) s1" unfolding s1_def by (rule step.write_event [OF assms(2) created])
  moreover have "step dp s1 (Lose k) s2"
    unfolding s2_def by (rule step.lose) (simp add: s1_def)
  moreover have "step dp s2 (Deliver k) s3"
    unfolding s3_def by (rule step.deliver) (use assms(4) in \<open>simp_all add: s2_def s1_def\<close>)
  moreover have "claim_webhook (rw_id w) (sy_db s2) (sy_db s3) = (AlreadyNormalized, sy_db s3)"
    using new by (simp add: claim_webhook_def s3_def s2_def s1_def)
  then have "step dp s3 (Skip k) s4"
    unfolding s4_def
    by (rule step.skip [where c = AlreadyNormalized and wid = "rw_id w" and attempt = attempt and seen = "sy_db s2", rotated])
       (simp_all add: s3_def)
  ultimately have "run dp s [Record k, Lose k, Deliver k, Skip k] s4"
    by (intro run_Cons [OF _ run_Cons [OF _ run_Cons [OF _ run_one]]])
  moreover have "sy_db s4 = d" "sy_jobs s4 k = None" by (simp_all add: s4_def s3_def s2_def s1_def)
  moreover have "ev_webhook e = rw_id w \<and> is_low_confidence (ev_confidence_score e) (LOW_CONFIDENCE_THRESHOLD (dp_settings dp)) \<and>
       review_state e = coloured ''span'' ''#15803d'' ''auto-applied'' \<and> e \<notin> set (review_queue d [])"
    using row(3,4) assms(3) by (auto simp: fill_event_def review_queue_def pending_def review_state_def)
  ultimately show ?thesis using new row(5,6) by (intro exI [of _ s4] exI [of _ ?row]) auto
qed

section \<open>Witnesses\<close>

definition sample_deployment :: deployment where
  "sample_deployment = \<lparr> dp_settings = default_settings, dp_client = (\<lambda>_ _. OtherFailure ''no model''),
     dp_pins = [], dp_may_retry = celery \<rparr>"

lemma dp_settings_sample [simp]: "dp_settings sample_deployment = default_settings"
  by (simp add: sample_deployment_def)

text \<open>The state after the first accepted request, and after a worker claimed its webhook.\<close>

lemma post_cache:
  "WebhookIngestionView_post cfg cx rq g = Inr (resp, g') \<Longrightarrow> gw_profile_cache g = c \<Longrightarrow> gw_profile_cache g' = c"
  by (auto simp: WebhookIngestionView_post_def ingest_def Let_def split: sum.splits exn.splits prod.splits if_splits)

lemma after_first_post:
  "\<exists>s w queue. run sample_deployment initial_system [Post sample_request] s \<and>
     db_webhooks (sy_db s) = [w] \<and> rw_processing_status w = RECEIVED \<and>
     gw_sent (sy_gateway s) = [(queue, rw_id w)] \<and> sy_jobs s = Map.empty \<and>
     rw_raw_payload w = parcel \<and> profile_state_of s = ([], Map.empty)"
proof -
  obtain b g where g: "WebhookIngestionView_post default_settings at_noon sample_request empty_gateway = Inr ((202, b), g)"
    using sample_accepted by blast
  let ?s = "initial_system \<lparr> sy_gateway := g \<rparr>"
  have "WebhookIngestionView_post (dp_settings sample_deployment) at_noon sample_request (sy_gateway initial_system) =
      Inr ((202, b), g)" using g by (simp add: initial_system_def)
  then have r: "run sample_deployment initial_system [Post sample_request] ?s"
    by (rule run_one [OF step.post])
  have e: "webhook_constraints (db_webhooks (gw_db empty_gateway))" "db_webhooks (gw_db empty_gateway) = []"
    by (simp_all add: empty_gateway_def empty_db_def webhook_constraints_def)
  have "g \<noteq> empty_gateway"
  proof (cases rule: post_cases [OF e(1), of default_settings at_noon sample_request])
    case (1 sc m)
    then show ?thesis using g by auto
  next
    case (2 payload vendor supplied w created g')
    then have "ingest default_settings at_noon payload vendor supplied empty_gateway = Inr ((w, created), g)"
      using g by simp
    then show ?thesis
      by (cases rule: ingest_cases [OF e(1), of default_settings at_noon payload vendor supplied])
         (auto simp: e(2) empty_gateway_def empty_db_def)
  qed (use sample_storable in blast)
  then obtain w queue where "gw_db g = (gw_db empty_gateway) \<lparr> db_webhooks := db_webhooks (gw_db empty_gateway) @ [w] \<rparr>"
      "gw_sent g = gw_sent empty_gateway @ [(queue, rw_id w)]" "rw_processing_status w = RECEIVED"
      "rw_raw_payload w = parcel"
    using post_effect [OF _ g] initial_ok by (auto simp: system_ok_def initial_system_def sample_request_def)
  moreover have "gw_profile_cache g = Map.empty"
    using g by (rule post_cache [of _ _ _ empty_gateway]) (simp add: empty_gateway_def)
  ultimately show ?thesis using r e(2)
    by (intro exI [of _ ?s] exI [of _ w] exI [of _ queue])
       (simp add: initial_system_def empty_gateway_def profile_state_of_def empty_db_def)
qed

lemma after_claim:
  "\<exists>s w row. run sample_deployment initial_system [Post sample_request, Deliver 1, Claim 1] s \<and>
     sy_jobs s = [1 \<mapsto> Holding 0 w] \<and> db_webhooks (sy_db s) = [row] \<and> rw_id row = rw_id w \<and>
     rw_processing_status row = PROCESSING"
proof -
  obtain s w queue where s: "run sample_deployment initial_system [Post sample_request] s"
      "db_webhooks (sy_db s) = [w]" "rw_processing_status w = RECEIVED"
      "gw_sent (sy_gateway s) = [(queue, rw_id w)]" "sy_jobs s = Map.empty"
    using after_first_post by blast
  let ?s1 = "set_job 1 (Some (Looked (rw_id w) 0 (sy_db s))) s"
  let ?d = "set_status (rw_id w) PROCESSING (sy_db s)"
  let ?s2 = "set_job 1 (Some (Holding 0 w)) (with_db ?d ?s1)"
  have "step sample_deployment s (Deliver 1) ?s1"
    by (rule step.deliver) (use s in \<open>simp_all add: due_def\<close>)
  moreover have "claim_webhook (rw_id w) (sy_db s) (sy_db ?s1) = (Claimed w, ?d)"
    using s(2,3) by (simp add: claim_webhook_def webhook_by_id_def first_row_def)
  then have "step sample_deployment ?s1 (Claim 1) ?s2"
    by (intro step.claim [of _ _ "rw_id w" 0 "sy_db s"]) simp_all
  ultimately have "run sample_deployment initial_system [Post sample_request, Deliver 1, Claim 1] ?s2"
    using run_trans [OF run_Cons [OF _ run_one] s(1)] by fastforce
  moreover have "db_webhooks (sy_db ?s2) = [w \<lparr> rw_processing_status := PROCESSING \<rparr>]"
    using s(2) by (simp add: set_status_def update_row_def)
  ultimately show ?thesis using s(5)
    by (intro exI [of _ ?s2] exI [of _ w] exI [of _ "w \<lparr> rw_processing_status := PROCESSING \<rparr>"]) simp
qed

theorem undisturbed_run_is_task_witness:
  "\<exists>s acts out w'. set acts \<subseteq> {Claim 1, Skip 1, Normalise 1, Record 1, Gate 1, Fail 1} \<and>
     run sample_deployment s (Deliver 1 # acts) (after_task s w' (rescheduled 1 0 out))"
proof -
  let ?s = "initial_system \<lparr> sy_retries := [(1, 0)] \<rparr>"
  have "(1, 0) \<in> set (due ?s)" "sy_jobs ?s 1 = None" by (simp_all add: due_def initial_system_def)
  from undisturbed_run_is_task [OF this, where dp = sample_deployment, OF prod.collapse [symmetric]]
  show ?thesis by blast
qed

theorem processing_has_worker_witness:
  "\<exists>s w k attempt w'. run sample_deployment initial_system [Post sample_request, Deliver 1, Claim 1] s \<and>
     db_webhooks (sy_db s) = [w] \<and> rw_id w' = rw_id w \<and>
     (sy_jobs s k = Some (Holding attempt w') \<or> (\<exists>answer. sy_jobs s k = Some (Answered attempt w' answer)))"
proof -
  obtain s w row where s: "run sample_deployment initial_system [Post sample_request, Deliver 1, Claim 1] s"
      "db_webhooks (sy_db s) = [row]" "rw_processing_status row = PROCESSING"
    using after_claim by blast
  have "\<forall>k. Lose k \<notin> set [Post sample_request, Deliver 1, Claim 1]" "row \<in> set (db_webhooks (sy_db s))"
    using s(2) by simp_all
  from processing_has_worker [OF s(1) this s(3)] s(1,2) show ?thesis by blast
qed



theorem reachable_is_sound_witness:
  "\<exists>s w. run sample_deployment initial_system [Post sample_request] s \<and> db_webhooks (sy_db s) = [w] \<and> columns_fit w"
proof -
  obtain s w where s: "run sample_deployment initial_system [Post sample_request] s" "db_webhooks (sy_db s) = [w]"
    using after_first_post by blast
  then have "reachable sample_deployment s" unfolding reachable_def by blast
  from reachable_is_sound [OF this] s show ?thesis by auto
qed

theorem history_is_kept_witness:
  "\<exists>s w s'. run sample_deployment initial_system [Post sample_request] s \<and> db_webhooks (sy_db s) = [w] \<and>
     run sample_deployment s [BulkReplay 100] s' \<and>
     (\<exists>w' \<in> set (db_webhooks (sy_db s')). rw_raw_payload w' = rw_raw_payload w)"
proof -
  obtain s w where s: "run sample_deployment initial_system [Post sample_request] s" "db_webhooks (sy_db s) = [w]"
    using after_first_post by blast
  obtain n g where g: "replay_failed_webhooks (dp_settings sample_deployment) 100 (sy_gateway s) = (n, g)"
    by (metis prod.exhaust)
  have r: "run sample_deployment s [BulkReplay 100] (s \<lparr> sy_gateway := g \<rparr>)"
    by (rule run_one [OF step.bulk_replay [OF g]])
  have "reachable sample_deployment s" using s(1) unfolding reachable_def by blast
  from history_is_kept [OF this r] s(2) have "\<exists>w' \<in> set (db_webhooks (sy_db (s \<lparr> sy_gateway := g \<rparr>))).
      rw_raw_payload w' = rw_raw_payload w" by fastforce
  then show ?thesis using r s by blast
qed

text \<open>A webhook that was read and held, and one that was just read.\<close>

definition held_system :: system where
  "held_system = initial_system \<lparr> sy_gateway := empty_gateway \<lparr> gw_db := (one_webhook NORMALIZED)
     \<lparr> db_events := [held_event] \<rparr> \<rparr>, sy_open := [held_event] \<rparr>"

definition doubtful_response :: normalization_response where
  "doubtful_response = \<lparr> resp_normalized = doubtful, resp_llm_model = ''m'', resp_prompt_version = ''v1'' \<rparr>"

definition answered_system :: system where
  "answered_system = initial_system \<lparr> sy_gateway := empty_gateway \<lparr> gw_db := one_webhook PROCESSING,
       gw_sent := [(''normalization'', 1)] \<rparr>,
     sy_jobs := [1 \<mapsto> Answered 0 (the_webhook PROCESSING) (Inr doubtful_response)] \<rparr>"

lemma one_webhook_ok: "db_ok (one_webhook st)"
  by (simp add: db_ok_def one_webhook_def empty_db_def webhook_constraints_def event_constraints_def
      state_constraints_def events_fit_def events_wf_def columns_fit_def webhook_columns_def varchar_def
      new_webhook_def first_try_def)

lemma held_event_wf: "event_wf held_event"
  by (simp add: event_wf_def held_event_def sample_event_def strip_examples unit_score_def canonical_pair_def
      ALLOWED_STATUSES_def ShipmentStatus_values_def)

lemma held_event_fits: "event_columns held_event"
  by (simp add: event_columns_def varchar_def held_event_def sample_event_def)

lemma held_system_ok: "system_ok held_system"
  using one_webhook_ok [of NORMALIZED] held_event_wf held_event_fits
  by (simp add: system_ok_def held_system_def initial_system_def empty_gateway_def due_def db_ok_def
      event_constraints_def events_fit_def events_wf_def webhook_ids_def event_ids_def event_known_def
      one_webhook_def empty_db_def new_webhook_def) (simp add: held_event_def sample_event_def)

lemma answered_system_ok: "system_ok answered_system"
proof -
  have "wf_result doubtful"
    by (simp add: wf_result_def doubtful_def strip_examples sample_time_ok unit_score_def canonical_pair_def
        ALLOWED_STATUSES_def ShipmentStatus_values_def)
  then show ?thesis using one_webhook_ok [of PROCESSING]
    by (simp add: system_ok_def answered_system_def initial_system_def empty_gateway_def due_def
        doubtful_response_def row_known_def webhook_ids_def one_webhook_def the_webhook_def new_webhook_def)
qed

theorem states_change_only_when_trusted_witness:
  "\<exists>s' e now. step sample_deployment held_system (Decide held_event APPROVE) s' \<and>
     db_states (sy_db s') = snd (upsert_if_newer e now []) \<and> event_wf e"
proof -
  have p: "ev_reviewed_at held_event = None" by (simp add: held_event_def sample_event_def)
  obtain d where d: "apply_review_decision held_event APPROVE ''ann'' (Instant 20) (sy_db held_system) = Inr (True, d)"
    using decision_total [OF p valid_decisions(1), of "''ann''" "Instant 20" "sy_db held_system"] by auto
  let ?s = "with_db d held_system \<lparr> sy_open := remove1 held_event (sy_open held_system) \<rparr>"
  have st: "step sample_deployment held_system (Decide held_event APPROVE) ?s"
    by (rule step.decide [where now = "Instant 20"]) (use d in \<open>simp_all add: held_system_def\<close>)
  have e: "db_states (sy_db held_system) = []" by (simp add: held_system_def one_webhook_def empty_db_def)
  have "db_states d = snd (upsert_if_newer held_event (Instant 20) [])"
    using decision_Inr(4) [OF d] e by simp
  then have "db_states (sy_db ?s) \<noteq> []" by (simp add: with_db_def upsert_if_newer_def Let_def first_row_def)
  then have "db_states (sy_db ?s) \<noteq> db_states (sy_db held_system)" by (simp only: e not_False_eq_True)
  from states_change_only_when_trusted [OF held_system_ok st this] obtain e now where
    "db_states (sy_db ?s) = snd (upsert_if_newer e now (db_states (sy_db held_system)))" "event_wf e" by blast
  then show ?thesis using st unfolding e by blast
qed

theorem racing_reviewers_both_decide_witness:
  "\<exists>s'. run sample_deployment held_system [Open 1, Open 1, Decide held_event REJECT, Decide held_event APPROVE] s' \<and>
     db_states (sy_db s') \<noteq> []"
proof -
  have "held_event \<in> set (db_events (sy_db held_system))" "pending held_event" "ev_id held_event = 1"
    by (simp_all add: held_system_def pending_def held_event_def sample_event_def)
  moreover have "snd (upsert_if_newer held_event t states) \<noteq> []" for t states
    by (auto simp: upsert_if_newer_def Let_def save_row_def first_row_def split: option.splits)
  ultimately show ?thesis using racing_reviewers_both_decide [OF _ _ held_system_ok] by metis
qed

theorem lost_before_gate_is_never_reviewed_witness:
  "\<exists>s' row. run sample_deployment answered_system [Record 1, Lose 1, Deliver 1, Skip 1] s' \<and>
     webhook_by_id 1 (sy_db s') = Some row \<and> rw_processing_status row = NORMALIZED \<and> db_states (sy_db s') = []"
proof -
  have j: "sy_jobs answered_system 1 = Some (Answered 0 (the_webhook PROCESSING) (Inr doubtful_response))"
    by (simp add: answered_system_def)
  have "is_low_confidence (nr_confidence_score (resp_normalized doubtful_response))
      (LOW_CONFIDENCE_THRESHOLD (dp_settings sample_deployment))"
    by (simp add: doubtful_response_def doubtful_def default_settings_def)
  moreover have id: "rw_id (the_webhook PROCESSING) = 1" by (simp add: the_webhook_def new_webhook_def)
  moreover have "(rw_id (the_webhook PROCESSING), 0) \<in> set (due answered_system)"
    by (simp add: id due_def answered_system_def)
  moreover have "db_states (sy_db answered_system) = []"
    by (simp add: answered_system_def one_webhook_def empty_db_def)
  moreover have "reading_fits (resp_normalized doubtful_response) (resp_llm_model doubtful_response)
      (resp_prompt_version doubtful_response)"
    by (simp add: doubtful_response_def doubtful_fits)
  ultimately show ?thesis
    using lost_before_gate_is_never_reviewed [OF answered_system_ok j] by metis
qed

end
