(* ===== verification/Rendering.thy ===== *)
theory Rendering
  imports Calibration Discovery System_Runs
begin

text \<open>
  The \<open>as_dict\<close> methods that make response bodies: \<open>VendorCalibration\<close>, \<open>CalibrationReport\<close>,
  \<open>VendorProfileSpec\<close> and \<open>DiscoveryResult\<close>, and what the framework can send of them.  Its JSON renderer
  is strict unless \<open>STRICT_JSON\<close> is switched off, which the settings do not do: it calls
  \<open>json.dumps\<close> with \<open>allow_nan=False\<close>, which raises ValueError for a float that is not finite,
  wherever it occurs.
\<close>

section \<open>Bodies\<close>

datatype py_value =
    PNone
  | PBool bool
  | PInt int
  | PFloat pyfloat
  | PStr string
  | PList "py_value list"
  | PDict "(string \<times> py_value) list"

definition finite_float :: "pyfloat \<Rightarrow> bool" where
  "finite_float x \<longleftrightarrow> (case x of Fin r \<Rightarrow> True | _ \<Rightarrow> False)"

primrec renderable :: "py_value \<Rightarrow> bool" where
  "renderable PNone = True"
| "renderable (PBool b) = True"
| "renderable (PInt i) = True"
| "renderable (PFloat x) = finite_float x"
| "renderable (PStr s) = True"
| "renderable (PList vs) = list_all id (map renderable vs)"
| "renderable (PDict kvs) = list_all snd (map (map_prod id renderable) kvs)"

definition or_none :: "('a \<Rightarrow> py_value) \<Rightarrow> 'a option \<Rightarrow> py_value" where
  "or_none f x = (case x of None \<Rightarrow> PNone | Some v \<Rightarrow> f v)"

definition strings :: "string list \<Rightarrow> py_value" where
  "strings ss = PList (map PStr ss)"

definition VendorCalibration_as_dict :: "vendor_calibration \<Rightarrow> py_value" where
  "VendorCalibration_as_dict v = PDict
     [(''vendor'', PStr (vc_vendor v)),
      (''events'', PInt (int (vc_events v))),
      (''held'', PInt (int (vc_held v))),
      (''hold_rate'', PFloat (Fin (hold_rate v))),
      (''reviewed'', PInt (int (vc_reviewed v))),
      (''approved'', PInt (int (vc_approved v))),
      (''rejected'', PInt (int (vc_rejected v))),
      (''approval_rate'', or_none (\<lambda>r. PFloat (Fin r)) (approval_rate v)),
      (''mean_confidence'', or_none PFloat (vc_mean_confidence v)),
      (''mean_confidence_approved'', or_none PFloat (vc_mean_confidence_approved v)),
      (''mean_confidence_rejected'', or_none PFloat (vc_mean_confidence_rejected v)),
      (''lowest_approved'', or_none PFloat (vc_lowest_approved v)),
      (''highest_rejected'', or_none PFloat (vc_highest_rejected v)),
      (''verdict'', PStr (vc_verdict v)),
      (''suggested_threshold'', or_none PFloat (vc_suggested_threshold v)),
      (''note'', PStr (vc_note v))]"

definition CalibrationReport_as_dict :: "calibration \<Rightarrow> py_value" where
  "CalibrationReport_as_dict r = PDict
     [(''current_threshold'', PFloat (Fin (cr_current_threshold r))),
      (''count'', PInt (int (length (cr_vendors r)))),
      (''results'', PList (map VendorCalibration_as_dict (cr_vendors r)))]"

definition VendorProfileSpec_as_dict :: "vendor_profile_spec \<Rightarrow> py_value" where
  "VendorProfileSpec_as_dict p = PDict
     [(''vendor'', PStr (vs_vendor p)),
      (''entity_type'', PStr (vs_entity_type p)),
      (''id_paths'', strings (vs_id_paths p)),
      (''status_paths'', strings (vs_status_paths p)),
      (''time_paths'', strings (vs_time_paths p)),
      (''status_map'', PDict (map (\<lambda>(token, status). (token, PStr status)) (vs_status_map p))),
      (''source'', PStr (vs_source p)),
      (''sample_count'', PInt (int (vs_sample_count p))),
      (''notes'', PStr (vs_notes p))]"

definition DiscoveryResult_as_dict :: "discovery_result \<Rightarrow> py_value" where
  "DiscoveryResult_as_dict r = PDict
     [(''method'', PStr (dr_method r)),
      (''sample_count'', PInt (int (dr_sample_count r))),
      (''unmapped_statuses'', strings (dr_unmapped_statuses r)),
      (''warnings'', strings (dr_warnings r)),
      (''profile'', VendorProfileSpec_as_dict (dr_profile r))]"

text \<open>What the endpoint sends, or the error of the renderer.\<close>

definition rendered :: "py_value response \<Rightarrow> py_value response result" where
  "rendered r =
     (case snd r of
        Body v \<Rightarrow> if renderable v then Inr r else Inl (ValueError ''Out of range float values are not JSON compliant'')
      | Detail m \<Rightarrow> Inr r)"

definition calibration_endpoint :: "settings \<Rightarrow> db \<Rightarrow> py_value response result" where
  "calibration_endpoint cfg d = rendered (200, Body (CalibrationReport_as_dict (calibration_report cfg None d)))"

section \<open>Which bodies can be sent\<close>

lemma finite_float_simps [simp]:
  "finite_float (Fin r)" "\<not> finite_float NaN" "\<not> finite_float PInf" "\<not> finite_float NInf"
  by (simp_all add: finite_float_def)

lemma dict_renderable [simp]:
  "renderable (PDict [])" "renderable (PDict ((k, v) # kvs)) \<longleftrightarrow> renderable v \<and> renderable (PDict kvs)"
  by simp_all

lemma list_renderable [simp]: "renderable (PList vs) \<longleftrightarrow> (\<forall>v \<in> set vs. renderable v)"
  by (simp add: list_all_iff)

lemma texts_renderable [simp]: "renderable (PDict (map (\<lambda>(k, v). (k, PStr v)) m))"
  by (induction m) auto

declare renderable.simps(6,7) [simp del]

lemma strings_renderable [simp]: "renderable (strings ss)"
  by (simp add: strings_def)

lemma profile_renderable: "renderable (VendorProfileSpec_as_dict p)"
  unfolding VendorProfileSpec_as_dict_def dict_renderable by simp

lemma discovery_renderable: "renderable (DiscoveryResult_as_dict r)"
  unfolding DiscoveryResult_as_dict_def dict_renderable by (simp add: profile_renderable)

definition all_finite :: "pyfloat option \<Rightarrow> bool" where
  "all_finite x = (\<forall>v \<in> set_option x. finite_float v)"

lemma or_none_renderable [simp]: "renderable (or_none PFloat x) = all_finite x"
  "renderable (or_none (\<lambda>r. PFloat (Fin r)) y)"
  by (simp_all add: or_none_def all_finite_def split: option.split)

lemma finite_round: "finite_float (flt_round3 x) = finite_float x"
  by (cases x) simp_all

lemma all_finite_round [simp]: "all_finite (round_opt x) = all_finite x"
  by (cases x) (simp_all add: all_finite_def round_opt_def finite_round)

lemma all_finite_None [simp]: "all_finite None"
  by (simp add: all_finite_def)

lemma all_finite_Some [simp]: "all_finite (Some x) = finite_float x"
  by (simp add: all_finite_def)

lemma calibration_row_renderable:
  "renderable (VendorCalibration_as_dict v) \<longleftrightarrow>
     all_finite (vc_mean_confidence v) \<and> all_finite (vc_mean_confidence_approved v) \<and>
     all_finite (vc_mean_confidence_rejected v) \<and> all_finite (vc_lowest_approved v) \<and>
     all_finite (vc_highest_rejected v) \<and> all_finite (vc_suggested_threshold v)"
  unfolding VendorCalibration_as_dict_def dict_renderable by simp

lemma finite_add: "finite_float x \<Longrightarrow> finite_float y \<Longrightarrow> finite_float (flt_add x y)"
  by (cases x; cases y) simp_all

lemma finite_sum: "finite_float a \<Longrightarrow> \<forall>x \<in> set xs. finite_float x \<Longrightarrow> finite_float (foldl flt_add a xs)"
  by (induction xs arbitrary: a) (simp_all add: finite_add)

lemma nan_absorbs: "flt_add x NaN = NaN" "flt_add NaN x = NaN"
  by (cases x; simp)+

lemma nan_start: "foldl flt_add NaN xs = NaN"
  by (induction xs) (simp_all add: nan_absorbs)

lemma nan_sum: "NaN \<in> set xs \<Longrightarrow> foldl flt_add a xs = NaN"
proof (induction xs arbitrary: a)
  case (Cons x xs)
  then show ?case by (cases "x = NaN") (simp_all add: nan_absorbs nan_start)
qed simp

lemma finite_over: "finite_float (flt_over x n) = finite_float x"
  by (cases x) simp_all

lemma finite_aggregates:
  assumes "\<forall>x \<in> set xs. finite_float x"
  shows "all_finite (pg_avg xs)" "all_finite (pg_min xs)" "all_finite (pg_max xs)"
  using assms finite_sum [of "Fin 0" xs] pg_min_Some [of xs] pg_max_Some [of xs]
  by (auto simp: pg_avg_def all_finite_def finite_over)

lemma nan_average: "NaN \<in> set xs \<Longrightarrow> \<not> all_finite (pg_avg xs)"
  by (auto simp: pg_avg_def nan_sum)

lemma suggestion_is_lowest: "fst (snd (assess t n a r lo hi)) \<in> {None, round_opt lo}"
  by (auto simp: assess_def split: option.splits)

lemma suggestion_finite: "all_finite lo \<Longrightarrow> all_finite (fst (snd (assess t n a r lo hi)))"
  using suggestion_is_lowest [of t n a r lo hi] by auto

lemma calibrate_advice:
  "vc_suggested_threshold (calibrate t v es) =
     fst (snd (assess t (length (decided APPROVE es) + length (decided REJECT es)) (length (decided APPROVE es))
       (length (decided REJECT es)) (round_opt (pg_min (decided APPROVE es))) (round_opt (pg_max (decided REJECT es)))))"
  by (simp add: calibrate_def Let_def split: prod.split)

lemma calibrate_columns:
  "vc_mean_confidence (calibrate t v es) = round_opt (pg_avg (map ev_confidence_score es))"
  "vc_mean_confidence_approved (calibrate t v es) = round_opt (pg_avg (decided APPROVE es))"
  "vc_mean_confidence_rejected (calibrate t v es) = round_opt (pg_avg (decided REJECT es))"
  "vc_lowest_approved (calibrate t v es) = round_opt (pg_min (decided APPROVE es))"
  "vc_highest_rejected (calibrate t v es) = round_opt (pg_max (decided REJECT es))"
  by (simp_all add: calibrate_def Let_def split: prod.split)

lemma calibrate_renderable:
  assumes "\<forall>e \<in> set es. finite_float (ev_confidence_score e) \<or> ev_confidence_score e = NaN"
  shows "renderable (VendorCalibration_as_dict (calibrate t v es)) \<longleftrightarrow> (\<forall>e \<in> set es. ev_confidence_score e \<noteq> NaN)"
proof (cases "\<forall>e \<in> set es. ev_confidence_score e \<noteq> NaN")
  case True
  then have f: "\<forall>e \<in> set es. finite_float (ev_confidence_score e)" using assms by blast
  then have all: "\<forall>x \<in> set (map ev_confidence_score es). finite_float x" by simp
  have dec: "\<forall>x \<in> set (decided decision es). finite_float x" for decision
    using f by (auto simp: decided_def)
  show ?thesis
    unfolding calibration_row_renderable calibrate_advice calibrate_columns
    using True suggestion_finite finite_aggregates [OF all] finite_aggregates [OF dec] by simp
next
  case False
  then obtain e where e: "e \<in> set es" "ev_confidence_score e = NaN" by blast
  have "ev_confidence_score e \<in> set (map ev_confidence_score es)" using e(1) by simp
  then have "\<not> all_finite (pg_avg (map ev_confidence_score es))" using nan_average e(2) by metis
  then show ?thesis using False unfolding calibration_row_renderable calibrate_columns by simp
qed

lemma report_rows:
  "cr_vendors (calibration_report cfg None d) =
     map (\<lambda>v. calibrate (LOW_CONFIDENCE_THRESHOLD cfg) v (filter (\<lambda>e. event_vendor d e = v) (db_events d)))
       (sort (remdups (map (event_vendor d) (db_events d))))"
  by (simp add: calibration_report_def Let_def)

lemma report_renderable:
  assumes "\<forall>e \<in> set (db_events d). finite_float (ev_confidence_score e) \<or> ev_confidence_score e = NaN"
  shows "renderable (CalibrationReport_as_dict (calibration_report cfg None d)) \<longleftrightarrow>
    (\<forall>e \<in> set (db_events d). ev_confidence_score e \<noteq> NaN)"
proof -
  have "renderable (VendorCalibration_as_dict (calibrate t v (filter (\<lambda>e. event_vendor d e = v) (db_events d)))) \<longleftrightarrow>
      (\<forall>e \<in> set (db_events d). event_vendor d e = v \<longrightarrow> ev_confidence_score e \<noteq> NaN)" for t v
    by (subst calibrate_renderable) (use assms in auto)
  then show ?thesis
    unfolding CalibrationReport_as_dict_def dict_renderable report_rows by auto
qed

lemma calibration_endpoint_answers:
  "calibration_endpoint cfg d =
     (if renderable (CalibrationReport_as_dict (calibration_report cfg None d))
      then Inr (200, Body (CalibrationReport_as_dict (calibration_report cfg None d)))
      else Inl (ValueError ''Out of range float values are not JSON compliant''))"
  by (simp add: calibration_endpoint_def rendered_def)

section \<open>The calibration endpoint and NaN\<close>

lemma stored_confidence:
  "system_ok s \<Longrightarrow> e \<in> set (db_events (sy_db s)) \<Longrightarrow> finite_float (ev_confidence_score e) \<or> ev_confidence_score e = NaN"
  using db_of_ok [of s] unfolding db_ok_def events_wf_def event_wf_def unit_score_def
  by (auto simp: finite_float_def split: pyfloat.splits)

text \<open>In every reachable state the calibration endpoint answers 200 with the report, unless an event with
  confidence NaN is stored, and then it fails.\<close>

theorem calibration_endpoint_fails_iff_nan:
  assumes "reachable dp s"
  shows "(if \<exists>e \<in> set (db_events (sy_db s)). ev_confidence_score e = NaN
          then calibration_endpoint cfg (sy_db s) = Inl (ValueError ''Out of range float values are not JSON compliant'')
          else calibration_endpoint cfg (sy_db s) =
                 Inr (200, Body (CalibrationReport_as_dict (calibration_report cfg None (sy_db s)))))"
  using report_renderable [of "sy_db s" cfg] stored_confidence [OF reachable_ok [OF assms]]
  by (auto simp: calibration_endpoint_answers)


section \<open>Witnesses\<close>

theorem calibration_endpoint_fails_iff_nan_witness:
  "calibration_endpoint default_settings (sy_db initial_system) =
     Inr (200, Body (CalibrationReport_as_dict (calibration_report default_settings None (sy_db initial_system))))"
proof -
  have "reachable sample_deployment initial_system" unfolding reachable_def using run.stop by blast
  moreover have "db_events (sy_db initial_system) = []"
    by (simp add: initial_system_def empty_gateway_def empty_db_def)
  ultimately show ?thesis using calibration_endpoint_fails_iff_nan [of sample_deployment initial_system default_settings] by simp
qed

definition nan_response :: normalization_response where
  "nan_response = \<lparr> resp_normalized = doubtful \<lparr> nr_confidence_score := NaN \<rparr>, resp_llm_model = ''m'', resp_prompt_version = ''v1'' \<rparr>"

definition nan_system :: system where
  "nan_system = answered_system \<lparr> sy_jobs := [1 \<mapsto> Answered 0 (the_webhook PROCESSING) (Inr nan_response)] \<rparr>"


end
