(* ===== verification/Api.thy ===== *)
theory Api
  imports Urls Rendering
begin

text \<open>
  The HTTP interface as one function: a request is resolved to a view, its method to a handler,
  the handler runs on the gateway and its answer is rendered.  Arguments of the model are what
  the framework decides before a handler runs (whether the throttle refuses the request, how its
  parser reads the body, what the serializers make of it) and the views of other packages.
\<close>

section \<open>Requests\<close>

datatype http_method = GET | POST | PUT | DELETE | OtherMethod string

record http_request =
  hr_method :: http_method
  hr_path :: string
  hr_params :: query_params
  hr_headers :: headers
  hr_body :: bytes
  hr_data :: "(nat \<times> string) + json"  \<comment> \<open>status and detail, where the parser refuses the body\<close>
  hr_throttled :: bool

text \<open>The request serializers; \<open>None\<close> is a body they find invalid.\<close>

record serializers =
  sz_replay :: "json \<Rightarrow> bool option"
  sz_profile :: "json \<Rightarrow> profile_write option"
  sz_discovery :: "json \<Rightarrow> discovery_request option"

section \<open>Answers\<close>

definition drf_datetime :: "instant \<Rightarrow> string" where
  "drf_datetime t =
     (case fromtimestamp (Fin (of_int (micros t - 719163 * day_micros) / 1000000)) of
        None \<Rightarrow> []
      | Some dt \<Rightarrow>
          (let s = isoformat dt; n = length s - 6
           in if drop n s = ''+00:00'' then take n s @ ''Z'' else s))"

definition NormalizedEvent_as_dict :: "event_body \<Rightarrow> py_value" where
  "NormalizedEvent_as_dict e = PDict
     [(''id'', PInt (int (eb_id e))),
      (''webhook_id'', PStr (uuid_str (eb_webhook_id e))),
      (''vendor'', PStr (eb_vendor e)),
      (''entity_type'', PStr (eb_entity_type e)),
      (''entity_id'', PStr (eb_entity_id e)),
      (''canonical_status'', PStr (eb_canonical_status e)),
      (''event_time'', PStr (drf_datetime (eb_event_time e))),
      (''confidence_score'', PFloat (eb_confidence_score e)),
      (''llm_model'', PStr (eb_llm_model e)),
      (''prompt_version'', PStr (eb_prompt_version e)),
      (''created_at'', PStr (drf_datetime (eb_created_at e))),
      (''requires_review'', PBool (eb_requires_review e)),
      (''review_reason'', PStr (eb_review_reason e)),
      (''review_decision'', PStr (eb_review_decision e)),
      (''reviewed_at'', or_none (\<lambda>t. PStr (drf_datetime t)) (eb_reviewed_at e))]"

definition envelope_as_dict :: "('a \<Rightarrow> py_value) \<Rightarrow> 'a page_envelope \<Rightarrow> py_value" where
  "envelope_as_dict f p = PDict
     [(''count'', PInt (int (env_count p))),
      (''limit'', PInt (int (env_limit p))),
      (''offset'', PInt (int (env_offset p))),
      (''next_offset'', or_none (\<lambda>n. PInt (int n)) (env_next_offset p)),
      (''previous_offset'', or_none (\<lambda>n. PInt (int n)) (env_previous_offset p)),
      (''results'', PList (map f (env_results p)))]"

definition EntityState_as_dict :: "entity_state_body \<Rightarrow> py_value" where
  "EntityState_as_dict s = PDict
     [(''entity_type'', PStr (esb_entity_type s)),
      (''entity_id'', PStr (esb_entity_id s)),
      (''latest_status'', PStr (esb_latest_status s)),
      (''latest_event_time'', PStr (drf_datetime (esb_latest_event_time s))),
      (''latest_event_id'', PInt (int (esb_latest_event_id s)))]"

definition health_body :: "string \<Rightarrow> py_value" where
  "health_body s = PDict [(''status'', PStr s)]"

definition accepted_body :: "nat \<Rightarrow> py_value" where
  "accepted_body wid = PDict [(''status'', PStr ''accepted''), (''webhook_id'', PStr (uuid_str wid))]"

definition replay_body :: "string \<times> nat \<times> string \<Rightarrow> py_value" where
  "replay_body = (\<lambda>(answer, wid, status). PDict
     [(''status'', PStr answer), (''webhook_id'', PStr (uuid_str wid)), (''processing_status'', PStr status)])"

definition decision_dict :: "decision_body \<Rightarrow> py_value" where
  "decision_dict = (\<lambda>(event, decision, updated). PDict
     [(''id'', PInt (int event)), (''decision'', PStr decision), (''entity_state_updated'', PBool updated)])"

definition profiles_body :: "nat \<times> vendor_profile_spec list \<Rightarrow> py_value" where
  "profiles_body = (\<lambda>(n, specs). PDict
     [(''count'', PInt (int n)), (''results'', PList (map VendorProfileSpec_as_dict specs))])"

text \<open>\<open>{**result.as_dict(), "persisted": persisted}\<close>\<close>

definition discovery_body :: "discovery_result \<times> bool \<Rightarrow> py_value" where
  "discovery_body = (\<lambda>(r, persisted).
     (case DiscoveryResult_as_dict r of PDict kvs \<Rightarrow> PDict (kvs @ [(''persisted'', PBool persisted)]) | v \<Rightarrow> v))"

fun map_response :: "('a \<Rightarrow> 'b) \<Rightarrow> 'a response \<Rightarrow> 'b response" where
  "map_response f (n, Body v) = (n, Body (f v))"
| "map_response f (n, Detail m) = (n, Detail m)"

type_synonym answer = "(py_value response \<times> gateway) result"

definition respond :: "('a \<Rightarrow> py_value) \<Rightarrow> 'a response \<Rightarrow> gateway \<Rightarrow> answer" where
  "respond f r g = and_then (rendered (map_response f r)) (\<lambda>r'. Inr (r', g))"

definition not_allowed :: "gateway \<Rightarrow> answer" where
  "not_allowed g = Inr ((405, Detail ''Method not allowed.''), g)"

definition not_found :: "gateway \<Rightarrow> answer" where
  "not_found g = Inr ((404, Detail ''Not found.''), g)"

section \<open>Handlers\<close>

definition profiles_of :: "gateway \<Rightarrow> profile_state" where
  "profiles_of g = (db_profiles (gw_db g), gw_profile_cache g)"

definition put_profiles :: "profile_state \<Rightarrow> gateway \<Rightarrow> gateway" where
  "put_profiles st g = g \<lparr> gw_db := (gw_db g) \<lparr> db_profiles := fst st \<rparr>, gw_profile_cache := snd st \<rparr>"

text \<open>A handler that reads \<open>request.data\<close> answers as the parser does when it refuses the body, and one
  whose serializer finds it invalid answers 400.\<close>

definition with_data :: "http_request \<Rightarrow> gateway \<Rightarrow> (json \<Rightarrow> answer) \<Rightarrow> answer" where
  "with_data rq g f = (case hr_data rq of Inl (n, detail) \<Rightarrow> Inr ((n, Detail detail), g) | Inr data \<Rightarrow> f data)"

definition validated :: "'a option \<Rightarrow> gateway \<Rightarrow> ('a \<Rightarrow> answer) \<Rightarrow> answer" where
  "validated x g f = (case x of None \<Rightarrow> Inr ((400, Detail ''Invalid input.''), g) | Some v \<Rightarrow> f v)"

definition serve_ingestion :: "deployment \<Rightarrow> context_of \<Rightarrow> http_request \<Rightarrow> gateway \<Rightarrow> answer" where
  "serve_ingestion dp cx rq g = with_data rq g (\<lambda>data.
     and_then (WebhookIngestionView_post (dp_settings dp) cx
         \<lparr> rq_headers = hr_headers rq, rq_body = hr_body rq, rq_data = data \<rparr> g)
       (\<lambda>(resp, g'). respond accepted_body resp g'))"

text \<open>The replay handler looks the webhook up before it reads the body.\<close>

definition serve_replay :: "deployment \<Rightarrow> serializers \<Rightarrow> http_request \<Rightarrow> nat \<Rightarrow> gateway \<Rightarrow> answer" where
  "serve_replay dp sz rq wid g =
     (if webhook_by_id wid (gw_db g) = None
      then respond replay_body (fst (WebhookReplayView_post (dp_settings dp) wid None g)) g
      else with_data rq g (\<lambda>data.
        (case WebhookReplayView_post (dp_settings dp) wid (sz_replay sz data) g of
           (resp, g') \<Rightarrow> respond replay_body resp g')))"

definition serve_decision :: "context_of \<Rightarrow> http_request \<Rightarrow> nat \<Rightarrow> gateway \<Rightarrow> answer" where
  "serve_decision cx rq event_id g = with_data rq g (\<lambda>data.
     (case ReviewDecisionView_post data event_id (cx_stamp cx) (gw_db g) of
        (resp, d) \<Rightarrow> respond decision_dict resp (g \<lparr> gw_db := d \<rparr>)))"

definition serve_profile :: "deployment \<Rightarrow> serializers \<Rightarrow> context_of \<Rightarrow> http_request \<Rightarrow> string \<Rightarrow> gateway \<Rightarrow> answer" where
  "serve_profile dp sz cx rq vendor g =
     (case hr_method rq of
        GET \<Rightarrow> (case VendorProfileDetailView_get (dp_pins dp) (cx_now cx) vendor (profiles_of g) of
                 (resp, st) \<Rightarrow> respond VendorProfileSpec_as_dict resp (put_profiles st g))
      | PUT \<Rightarrow> with_data rq g (\<lambda>data. validated (sz_profile sz data) g (\<lambda>body.
                 and_then (VendorProfileDetailView_put vendor body (profiles_of g))
                   (\<lambda>(resp, st). respond VendorProfileSpec_as_dict resp (put_profiles st g))))
      | DELETE \<Rightarrow> (case VendorProfileDetailView_delete vendor (profiles_of g) of
                 (resp, st) \<Rightarrow> respond (\<lambda>_. PNone) resp (put_profiles st g))
      | _ \<Rightarrow> not_allowed g)"

definition serve_discovery :: "deployment \<Rightarrow> serializers \<Rightarrow> http_request \<Rightarrow> gateway \<Rightarrow> answer" where
  "serve_discovery dp sz rq g = with_data rq g (\<lambda>data. validated (sz_discovery sz data) g (\<lambda>body.
     and_then (VendorDiscoveryView_post (dp_settings dp) (dp_client dp) body (profiles_of g))
       (\<lambda>(resp, st). respond discovery_body resp (put_profiles st g))))"

definition serve_view :: "deployment \<Rightarrow> serializers \<Rightarrow> context_of \<Rightarrow> http_request \<Rightarrow> view \<Rightarrow> arg list \<Rightarrow> gateway \<Rightarrow> answer" where
  "serve_view dp sz cx rq v args g =
     (let get = (\<lambda>a. if hr_method rq = GET then a else not_allowed g);
          post = (\<lambda>a. if hr_method rq = POST then a else not_allowed g);
          cfg = dp_settings dp; d = gw_db g; params = hr_params rq
      in case v of
        HealthView \<Rightarrow> get (respond health_body HealthView_get g)
      | WebhookIngestionView \<Rightarrow> post (serve_ingestion dp cx rq g)
      | WebhookReplayView \<Rightarrow>
          (case args of [UuidArg wid] \<Rightarrow> post (serve_replay dp sz rq wid g) | _ \<Rightarrow> not_found g)
      | LowConfidenceQueueView \<Rightarrow>
          get (respond (envelope_as_dict NormalizedEvent_as_dict) (LowConfidenceQueueView_get cfg params d) g)
      | ReviewQueueView \<Rightarrow>
          get (respond (envelope_as_dict NormalizedEvent_as_dict) (ReviewQueueView_get cfg params d) g)
      | ReviewDecisionView \<Rightarrow>
          (case args of [IntArg n] \<Rightarrow> post (serve_decision cx rq n g) | _ \<Rightarrow> not_found g)
      | CalibrationView \<Rightarrow> get (respond CalibrationReport_as_dict (CalibrationView_get cfg d) g)
      | VendorProfileListView \<Rightarrow> get (respond profiles_body (VendorProfileListView_get (db_profiles d)) g)
      | VendorDiscoveryView \<Rightarrow> post (serve_discovery dp sz rq g)
      | VendorProfileDetailView \<Rightarrow>
          (case args of [StrArg vendor] \<Rightarrow> serve_profile dp sz cx rq vendor g | _ \<Rightarrow> not_found g)
      | EntityStateView \<Rightarrow> get (respond EntityState_as_dict (EntityStateView_get params (db_states d)) g)
      | _ \<Rightarrow> not_found g)"

text \<open>The throttle is asked before the method is looked at; the views of other packages are an argument.\<close>

definition api ::
  "deployment \<Rightarrow> serializers \<Rightarrow> (view \<Rightarrow> http_request \<Rightarrow> gateway \<Rightarrow> answer) \<Rightarrow> context_of \<Rightarrow> http_request \<Rightarrow> gateway \<Rightarrow> answer" where
  "api dp sz other cx rq g =
     (case resolve_path (hr_path rq) of
        None \<Rightarrow> not_found g
      | Some (v, args) \<Rightarrow>
          if v \<notin> interface then other v rq g
          else if hr_throttled rq then Inr ((429, Detail ''Request was throttled.''), g)
          else serve_view dp sz cx rq v args g)"

section \<open>Requests are runs of the system\<close>

lemma respond_Inr: "respond f r g = Inr (r', g') \<Longrightarrow> g' = g \<and> fst r' = fst r"
  by (cases r; cases "snd r") (auto simp: respond_def rendered_def split: if_splits)

fun web_action :: "action \<Rightarrow> bool" where
  "web_action (Post rq) = True"
| "web_action (Replay wid force) = True"
| "web_action WriteProfile = True"
| "web_action (Open n) = True"
| "web_action (Decide e decision) = True"
| "web_action a = False"

definition web_run :: "deployment \<Rightarrow> system \<Rightarrow> gateway \<Rightarrow> bool" where
  "web_run dp s g \<longleftrightarrow> (\<exists>acts. list_all web_action acts \<and> run dp s acts (s \<lparr> sy_gateway := g \<rparr>))"

lemma web_stop: "web_run dp s (sy_gateway s)"
  unfolding web_run_def by (rule exI [of _ "[]"]) (simp add: run.stop)

lemma web_step: "step dp s a (s \<lparr> sy_gateway := g \<rparr>) \<Longrightarrow> web_action a \<Longrightarrow> web_run dp s g"
  unfolding web_run_def by (rule exI [of _ "[a]"]) (simp add: run_one)

lemma web_profiles:
  "profile_change (profiles_of (sy_gateway s)) st \<Longrightarrow> web_run dp s (put_profiles st (sy_gateway s))"
proof (rule web_step [where a = WriteProfile])
  assume "profile_change (profiles_of (sy_gateway s)) st"
  then have "step dp s WriteProfile (with_profiles st s)"
    by (intro step.write_profile) (simp add: profile_state_of_def profiles_of_def)
  then show "step dp s WriteProfile (s \<lparr> sy_gateway := put_profiles st (sy_gateway s) \<rparr>)"
    by (simp add: with_profiles_def put_profiles_def)
qed simp

lemma unchanged_profiles [simp]: "put_profiles (profiles_of g) g = g"
  by (simp add: put_profiles_def profiles_of_def)

lemma web_decision:
  assumes "ReviewDecisionView_post data n now (sy_db s) = (resp, d)"
  shows "web_run dp s ((sy_gateway s) \<lparr> gw_db := d \<rparr>)"
proof (cases "d = sy_db s")
  case True
  then show ?thesis using web_stop by simp
next
  case False
  then obtain e updated where e: "first_row (\<lambda>e. ev_id e = n \<and> ev_requires_review e) (db_events (sy_db s)) = Some e"
      "apply_review_decision e (requested_decision data) ''api'' now (sy_db s) = Inr (updated, d)"
    using assms by (auto simp: ReviewDecisionView_post_def Let_def split: if_splits option.splits sum.splits)
  have o: "e \<in> set (db_events (sy_db s))" "ev_requires_review e" using first_row_Some [OF e(1)] by simp_all
  let ?s1 = "s \<lparr> sy_open := e # sy_open s \<rparr>"
  have "step dp s (Open (ev_id e)) ?s1" by (rule step.open_event [OF o])
  moreover have "step dp ?s1 (Decide e (requested_decision data)) (s \<lparr> sy_gateway := (sy_gateway s) \<lparr> gw_db := d \<rparr> \<rparr>)"
    using step.decide [of e ?s1 "requested_decision data" "''api''" now updated d dp] e(2) by (simp add: with_db_def)
  ultimately have "run dp s [Open (ev_id e), Decide e (requested_decision data)] (s \<lparr> sy_gateway := (sy_gateway s) \<lparr> gw_db := d \<rparr> \<rparr>)"
    by (intro run_Cons [OF _ run_one])
  then show ?thesis unfolding web_run_def by (intro exI) (auto simp: list_all_iff)
qed

lemma with_data_Inr: "with_data rq g f = Inr (resp, g') \<Longrightarrow> g' = g \<or> (\<exists>data. f data = Inr (resp, g'))"
  by (auto simp: with_data_def split: sum.splits)

lemma validated_Inr: "validated x g f = Inr (resp, g') \<Longrightarrow> g' = g \<or> (\<exists>v. f v = Inr (resp, g'))"
  by (auto simp: validated_def split: option.splits)

lemma web_ingestion: "serve_ingestion dp cx rq (sy_gateway s) = Inr (resp, g) \<Longrightarrow> web_run dp s g"
  unfolding serve_ingestion_def
  by (drule with_data_Inr) (auto simp: web_stop dest!: respond_Inr intro: web_step [OF step.post])

lemma web_replay_post: "WebhookReplayView_post (dp_settings dp) wid force (sy_gateway s) = (r, g) \<Longrightarrow> web_run dp s g"
  by (rule web_step [OF step.replay]) simp_all

lemma web_replay:
  assumes "serve_replay dp sz rq wid (sy_gateway s) = Inr (resp, g)"
  shows "web_run dp s g"
proof (cases "webhook_by_id wid (sy_db s) = None")
  case True
  then show ?thesis using assms by (auto simp: serve_replay_def web_stop dest!: respond_Inr)
next
  case False
  show ?thesis
  proof (cases "g = sy_gateway s")
    case changed: False
    then obtain data where "(case WebhookReplayView_post (dp_settings dp) wid (sz_replay sz data) (sy_gateway s) of
        (r, g') \<Rightarrow> respond replay_body r g') = Inr (resp, g)"
      using assms False unfolding serve_replay_def by (auto dest!: with_data_Inr)
    then show ?thesis
      by (cases "WebhookReplayView_post (dp_settings dp) wid (sz_replay sz data) (sy_gateway s)")
         (auto dest!: respond_Inr intro: web_replay_post)
  qed (simp add: web_stop)
qed

lemma web_decide:
  assumes "serve_decision cx rq n (sy_gateway s) = Inr (resp, g)"
  shows "web_run dp s g"
proof (cases "g = sy_gateway s")
  case False
  then obtain data where "(case ReviewDecisionView_post data n (cx_stamp cx) (sy_db s) of
        (r, d) \<Rightarrow> respond decision_dict r ((sy_gateway s) \<lparr> gw_db := d \<rparr>)) = Inr (resp, g)"
    using assms unfolding serve_decision_def by (auto dest!: with_data_Inr)
  then show ?thesis
    by (cases "ReviewDecisionView_post data n (cx_stamp cx) (sy_db s)") (auto dest!: respond_Inr intro: web_decision)
qed (simp add: web_stop)

lemma changed_profiles:
  "VendorProfileDetailView_get pins now vendor st = (r, st') \<Longrightarrow> Gateway_System.profile_change st st'"
  "VendorProfileDetailView_put vendor body st = Inr (r', st') \<Longrightarrow> Gateway_System.profile_change st st'"
  "VendorProfileDetailView_delete vendor st = (r'', st') \<Longrightarrow> Gateway_System.profile_change st st'"
  using Gateway_System.profile_change.get [of st pins now vendor] Gateway_System.profile_change.put [of vendor body st r' st']
    Gateway_System.profile_change.delete [of st vendor] by simp_all

lemma web_profile:
  assumes "serve_profile dp sz cx rq vendor (sy_gateway s) = Inr (resp, g)"
  shows "web_run dp s g"
proof (cases "hr_method rq")
  case PUT
  show ?thesis using assms unfolding serve_profile_def PUT http_method.case
    by (auto simp: web_stop dest!: with_data_Inr validated_Inr respond_Inr split: prod.splits
        intro!: web_profiles elim: changed_profiles)
qed (use assms in \<open>auto simp: serve_profile_def not_allowed_def web_stop split: prod.splits dest!: respond_Inr
       intro!: web_profiles elim: changed_profiles\<close>)

lemma discovery_profiles:
  "VendorDiscoveryView_post cfg client body st = Inr (r, st') \<Longrightarrow> st' = st \<or> Gateway_System.profile_change st st'"
  by (auto simp: VendorDiscoveryView_post_def split: if_splits sum.splits exn.splits
      intro: Gateway_System.profile_change.saved)

lemma web_discovery:
  assumes "serve_discovery dp sz rq (sy_gateway s) = Inr (resp, g)"
  shows "web_run dp s g"
proof (cases "g = sy_gateway s")
  case False
  then obtain body r st where b: "VendorDiscoveryView_post (dp_settings dp) (dp_client dp) body (profiles_of (sy_gateway s)) = Inr (r, st)"
      "g = put_profiles st (sy_gateway s)"
    using assms unfolding serve_discovery_def by (auto dest!: with_data_Inr validated_Inr respond_Inr)
  then have "st \<noteq> profiles_of (sy_gateway s)" using False by auto
  then show ?thesis using discovery_profiles [OF b(1)] b(2) web_profiles by blast
qed (simp add: web_stop)

lemma web_serve:
  assumes "serve_view dp sz cx rq v args (sy_gateway s) = Inr (resp, g)"
  shows "web_run dp s g"
proof (cases v)
  case WebhookReplayView
  then show ?thesis using assms web_replay
    by (auto simp: serve_view_def not_allowed_def not_found_def web_stop split: if_splits list.splits arg.splits)
next
  case ReviewDecisionView
  then show ?thesis using assms web_decide
    by (auto simp: serve_view_def not_allowed_def not_found_def web_stop split: if_splits list.splits arg.splits)
next
  case VendorProfileDetailView
  then show ?thesis using assms web_profile
    by (auto simp: serve_view_def not_allowed_def not_found_def web_stop split: if_splits list.splits arg.splits)
qed (use assms in \<open>auto simp: serve_view_def Let_def not_allowed_def not_found_def web_stop split: if_splits dest!: respond_Inr
       intro: web_ingestion web_discovery\<close>)

text \<open>C6. Every request of the interface is a run of the system: what it does to the gateway is done by
  posts, replays, profile writes and decisions in the sense of \<open>step\<close>, so that whatever holds of all
  reachable states holds after any requests in any order, interleaved with any work of workers.\<close>

theorem api_refines_system:
  assumes "api dp sz other cx rq (sy_gateway s) = Inr (resp, g)"
    and "\<And>v args. resolve_path (hr_path rq) = Some (v, args) \<Longrightarrow> v \<in> interface"
  shows "\<exists>acts. list_all web_action acts \<and> run dp s acts (s \<lparr> sy_gateway := g \<rparr>)"
proof -
  have "web_run dp s g"
  proof (cases "resolve_path (hr_path rq)")
    case None
    then show ?thesis using assms(1) by (auto simp: api_def not_found_def web_stop)
  next
    case (Some m)
    obtain v args where m: "m = (v, args)" by (cases m)
    then have "v \<in> interface" using assms(2) Some by blast
    then show ?thesis using assms(1) web_serve Some m by (auto simp: api_def web_stop split: if_splits)
  qed
  then show ?thesis unfolding web_run_def .
qed

section \<open>Which requests are answered\<close>

lemma respond_renders:
  assumes "\<And>v. snd r = Body v \<Longrightarrow> renderable (f v)"
  shows "respond f r g = Inr (map_response f r, g)"
  using assms by (cases r; cases "snd r") (auto simp: respond_def rendered_def)

lemma fst_map_response [simp]: "fst (map_response f r) = fst r"
  by (cases r; cases "snd r") auto

lemma or_none_ints [simp]: "renderable (or_none (\<lambda>n. PInt (int n)) x)" "renderable (or_none (\<lambda>t. PStr (f t)) y)"
  by (simp_all add: or_none_def split: option.split)

lemma event_renderable: "renderable (NormalizedEvent_as_dict e) \<longleftrightarrow> finite_float (eb_confidence_score e)"
  unfolding NormalizedEvent_as_dict_def dict_renderable by simp

lemma envelope_renderable: "renderable (envelope_as_dict f p) \<longleftrightarrow> (\<forall>x \<in> set (env_results p). renderable (f x))"
  unfolding envelope_as_dict_def dict_renderable by simp

lemma renderable_bodies [simp]:
  "renderable (health_body s)" "renderable (accepted_body wid)" "renderable (replay_body r)"
  "renderable (decision_dict x)" "renderable (profiles_body y)" "renderable (EntityState_as_dict z)"
  unfolding health_body_def accepted_body_def replay_body_def decision_dict_def profiles_body_def EntityState_as_dict_def
  by (simp_all add: profile_renderable split: prod.split)

lemma page_events: "paginate cfg events params = Inr p \<Longrightarrow> set (pg_items p) \<subseteq> set events"
  by (auto simp: paginate_def dest!: in_set_takeD dest: in_set_dropD)

lemma page_rendered:
  assumes "\<forall>e \<in> set events. finite_float (ev_confidence_score e)"
  shows "respond (envelope_as_dict NormalizedEvent_as_dict) (page_response cfg d events params) g =
    Inr (map_response (envelope_as_dict NormalizedEvent_as_dict) (page_response cfg d events params), g)"
proof (rule respond_renders)
  fix b assume b: "snd (page_response cfg d events params) = Body b"
  then obtain p where p: "paginate cfg events params = Inr p" "b = envelope p (map (NormalizedEventSerializer d) (pg_items p))"
    by (auto simp: page_response_def split: sum.splits)
  show "renderable (envelope_as_dict NormalizedEvent_as_dict b)"
    using page_events [OF p(1)] assms
    by (auto simp: p(2) envelope_renderable event_renderable envelope_def NormalizedEventSerializer_def)
qed

lemma page_status: "fst (page_response cfg d events params) \<in> {200, 400}"
  by (auto simp: page_response_def split: sum.split)

text \<open>The status codes of the interface; 415 is the parser's, 429 the throttle's.\<close>

definition status_codes :: "nat set" where
  "status_codes = {200, 202, 204, 400, 401, 404, 405, 409, 415, 429}"

definition answered :: "answer \<Rightarrow> bool" where
  "answered a \<longleftrightarrow> (\<exists>n body g. a = Inr ((n, body), g) \<and> n \<in> status_codes)"

lemma answered_respond:
  assumes "fst r \<in> status_codes" "\<And>v. snd r = Body v \<Longrightarrow> renderable (f v)"
  shows "answered (respond f r g)"
proof -
  have "respond f r g = Inr ((fst (map_response f r), snd (map_response f r)), g)"
    using respond_renders [of r f g, OF assms(2)] by (metis prod.collapse)
  then show ?thesis unfolding answered_def using assms(1) by (metis fst_map_response)
qed

lemma answered_simps [simp]:
  "answered (not_allowed g)" "answered (not_found g)" "n \<in> status_codes \<Longrightarrow> answered (Inr ((n, b), g))"
  by (auto simp: answered_def not_allowed_def not_found_def status_codes_def)

lemma answered_data:
  "(\<And>n m. hr_data rq = Inl (n, m) \<Longrightarrow> n \<in> status_codes) \<Longrightarrow> (\<And>data. answered (f data)) \<Longrightarrow> answered (with_data rq g f)"
  by (auto simp: with_data_def split: sum.split)

lemma status_of:
  "fst HealthView_get \<in> status_codes"
  "fst (page_response cfg d es params) \<in> status_codes"
  "fst (LowConfidenceQueueView_get cfg params d) \<in> status_codes"
  "fst (EntityStateView_get params sts) \<in> status_codes"
  "fst (fst (WebhookReplayView_post cfg wid force g)) \<in> status_codes"
  "fst (fst (ReviewDecisionView_post data n now d)) \<in> status_codes"
  "fst (fst (VendorProfileDetailView_get pins t vendor st)) \<in> status_codes"
  "VendorProfileDetailView_put vendor body st = Inr (r, st') \<Longrightarrow> fst r \<in> status_codes"
  "fst (fst (VendorProfileDetailView_delete vendor st)) \<in> status_codes"
proof -
  show p: "fst (page_response cfg d es params) \<in> status_codes" for es
    using page_status [of cfg d es params] by (auto simp: status_codes_def)
  show "VendorProfileDetailView_put vendor body st = Inr (r, st') \<Longrightarrow> fst r \<in> status_codes"
    by (auto simp: status_codes_def VendorProfileDetailView_put_def store_profile_def Let_def split: sum.splits if_splits)
  show "fst (LowConfidenceQueueView_get cfg params d) \<in> status_codes"
    using p by (auto simp: LowConfidenceQueueView_get_def status_codes_def split: option.split)
qed (auto simp: status_codes_def HealthView_get_def EntityStateView_get_def WebhookReplayView_post_def
      ReviewDecisionView_post_def VendorProfileDetailView_get_def VendorProfileDetailView_put_def
      VendorProfileDetailView_delete_def Let_def split: option.split prod.split sum.split if_splits)

text \<open>What a request asks to be stored, and whether the columns hold it.\<close>

definition storable_profile :: "string \<Rightarrow> profile_write \<Rightarrow> bool" where
  "storable_profile vendor body \<longleftrightarrow>
     (case validate_profile_write body of
        Inl e \<Rightarrow> True | Inr data \<Rightarrow> profile_columns (row_of_spec (spec_of_write vendor data)))"

definition storable_http :: "serializers \<Rightarrow> http_request \<Rightarrow> bool" where
  "storable_http sz rq \<longleftrightarrow>
     (case hr_data rq of Inl refusal \<Rightarrow> True
      | Inr data \<Rightarrow>
          (case resolve_path (hr_path rq) of
             Some (WebhookIngestionView, args) \<Rightarrow> storable_request (hr_headers rq) data
           | Some (VendorProfileDetailView, [StrArg vendor]) \<Rightarrow>
               (case sz_profile sz data of None \<Rightarrow> True | Some body \<Rightarrow> storable_profile vendor body)
           | _ \<Rightarrow> True))"

definition refused :: "answer \<Rightarrow> bool" where
  "refused a \<longleftrightarrow> (\<exists>m. a = Inl (DataError m))"

lemma answered_ingestion:
  assumes "webhook_constraints (db_webhooks (gw_db g))" "\<And>n m. hr_data rq = Inl (n, m) \<Longrightarrow> n \<in> status_codes"
  shows "answered (serve_ingestion dp cx rq g) \<or>
    (\<exists>data. hr_data rq = Inr data \<and> \<not> storable_request (hr_headers rq) data \<and> refused (serve_ingestion dp cx rq g))"
proof (cases "hr_data rq")
  case (Inl x)
  then show ?thesis using assms(2) by (cases x) (simp add: serve_ingestion_def with_data_def)
next
  case (Inr data)
  let ?rq = "\<lparr> rq_headers = hr_headers rq, rq_body = hr_body rq, rq_data = data \<rparr>"
  have "(\<exists>resp g'. WebhookIngestionView_post (dp_settings dp) cx ?rq g = Inr (resp, g') \<and> fst resp \<in> status_codes) \<or>
      (\<not> storable_request (hr_headers rq) data \<and> (\<exists>m. WebhookIngestionView_post (dp_settings dp) cx ?rq g = Inl (DataError m)))"
    by (rule post_cases [OF assms(1), of "dp_settings dp" cx ?rq]) (auto simp: status_codes_def)
  then show ?thesis
  proof (elim disjE exE conjE)
    fix resp g'
    assume "WebhookIngestionView_post (dp_settings dp) cx ?rq g = Inr (resp, g')" "fst resp \<in> status_codes"
    then have "answered (serve_ingestion dp cx rq g)"
      by (simp add: Inr serve_ingestion_def with_data_def answered_respond)
    then show ?thesis ..
  next
    fix m
    assume "\<not> storable_request (hr_headers rq) data" "WebhookIngestionView_post (dp_settings dp) cx ?rq g = Inl (DataError m)"
    then have "\<not> storable_request (hr_headers rq) data" "refused (serve_ingestion dp cx rq g)"
      by (simp_all add: Inr serve_ingestion_def with_data_def refused_def)
    then show ?thesis using Inr by blast
  qed
qed

lemma answered_put:
  "answered (and_then (VendorProfileDetailView_put vendor body st)
       (\<lambda>(resp, st'). respond VendorProfileSpec_as_dict resp (put_profiles st' g))) \<or>
   (\<not> storable_profile vendor body \<and>
      refused (and_then (VendorProfileDetailView_put vendor body st)
       (\<lambda>(resp, st'). respond VendorProfileSpec_as_dict resp (put_profiles st' g))))"
proof (cases "VendorProfileDetailView_put vendor body st")
  case (Inl e)
  then have "\<not> storable_profile vendor body" "e = too_long"
    by (auto simp: VendorProfileDetailView_put_def storable_profile_def store_profile_def Let_def split: sum.splits if_splits)
  then show ?thesis using Inl by (simp add: refused_def too_long_def)
next
  case (Inr x)
  obtain resp st' where x: "x = (resp, st')" by (cases x)
  have "answered (respond VendorProfileSpec_as_dict resp (put_profiles st' g))"
    by (rule answered_respond [OF status_of(8) profile_renderable]) (use Inr x in simp)
  then show ?thesis using Inr x by simp
qed

lemma answered_profile:
  assumes "\<And>n m. hr_data rq = Inl (n, m) \<Longrightarrow> n \<in> status_codes"
  shows "answered (serve_profile dp sz cx rq vendor g) \<or>
    (\<exists>data body. hr_data rq = Inr data \<and> sz_profile sz data = Some body \<and> \<not> storable_profile vendor body \<and>
       refused (serve_profile dp sz cx rq vendor g))"
proof (cases "hr_method rq")
  case PUT
  show ?thesis
  proof (cases "hr_data rq")
    case (Inl x)
    then show ?thesis using assms by (cases x) (simp add: serve_profile_def PUT with_data_def)
  next
    case (Inr data)
    have "serve_profile dp sz cx rq vendor g = validated (sz_profile sz data) g (\<lambda>body.
        and_then (VendorProfileDetailView_put vendor body (profiles_of g))
          (\<lambda>(resp, st). respond VendorProfileSpec_as_dict resp (put_profiles st g)))"
      by (simp add: serve_profile_def PUT with_data_def Inr)
    then show ?thesis
      using answered_put [of vendor _ "profiles_of g" g]
      by (cases "sz_profile sz data") (auto simp: validated_def status_codes_def Inr)
  qed
next
  case GET
  have "answered (serve_profile dp sz cx rq vendor g)" unfolding serve_profile_def GET http_method.case
    using status_of(7) [of "dp_pins dp" "cx_now cx" vendor "profiles_of g"]
    by (auto split: prod.split intro!: answered_respond simp: profile_renderable)
  then show ?thesis ..
next
  case DELETE
  have "answered (serve_profile dp sz cx rq vendor g)" unfolding serve_profile_def DELETE http_method.case
    using status_of(9) [of vendor "profiles_of g"] by (auto split: prod.split intro!: answered_respond)
  then show ?thesis ..
qed (simp_all add: serve_profile_def)

lemma answered_replay:
  assumes "\<And>n m. hr_data rq = Inl (n, m) \<Longrightarrow> n \<in> status_codes"
  shows "answered (serve_replay dp sz rq wid g)"
proof -
  have post: "answered (case WebhookReplayView_post (dp_settings dp) wid force g of (resp, g') \<Rightarrow> respond replay_body resp g')" for force
    using status_of(5) [of "dp_settings dp" wid force g] by (auto split: prod.split intro!: answered_respond)
  have none: "answered (respond replay_body (fst (WebhookReplayView_post (dp_settings dp) wid None g)) g)"
    by (rule answered_respond [OF status_of(5)]) simp
  show ?thesis unfolding serve_replay_def using none answered_data [OF assms post] by simp
qed

lemma answered_decision:
  assumes "\<And>n m. hr_data rq = Inl (n, m) \<Longrightarrow> n \<in> status_codes"
  shows "answered (serve_decision cx rq n g)"
proof -
  have "answered (case ReviewDecisionView_post data n (cx_stamp cx) (gw_db g) of
      (resp, d) \<Rightarrow> respond decision_dict resp (g \<lparr> gw_db := d \<rparr>))" for data
    using status_of(6) [of data n "cx_stamp cx" "gw_db g"] by (auto split: prod.split intro!: answered_respond)
  then show ?thesis unfolding serve_decision_def by (intro answered_data assms)
qed

lemma low_confidence_rendered:
  assumes "\<forall>e \<in> set (db_events d). finite_float (ev_confidence_score e)"
  shows "answered (respond (envelope_as_dict NormalizedEvent_as_dict) (LowConfidenceQueueView_get cfg params d) g)"
proof (cases "low_confidence_threshold cfg params")
  case (Some t)
  have "\<forall>e \<in> set (rev (sort_key ev_created_at (filter (\<lambda>e. flt_less (ev_confidence_score e) (Fin t)) (db_events d)))).
      finite_float (ev_confidence_score e)" using assms by simp
  note page_rendered [OF this, of cfg d params g]
  then show ?thesis
    unfolding LowConfidenceQueueView_get_def Some option.case
    using status_of(2) by (metis answered_simps(3) fst_map_response prod.collapse)
qed (auto simp: LowConfidenceQueueView_get_def status_codes_def intro!: answered_respond)

lemma review_queue_rendered:
  assumes "\<forall>e \<in> set (db_events d). finite_float (ev_confidence_score e)"
  shows "answered (respond (envelope_as_dict NormalizedEvent_as_dict) (ReviewQueueView_get cfg params d) g)"
proof -
  have "\<forall>e \<in> set (review_queue d vendor). finite_float (ev_confidence_score e)" for vendor
    using assms by (simp add: review_queue_def)
  then show ?thesis
    unfolding ReviewQueueView_get_def
    using page_rendered status_of(2) by (metis answered_simps(3) fst_map_response prod.collapse)
qed

lemma answered_serve:
  assumes "webhook_constraints (db_webhooks (gw_db g))" "\<forall>e \<in> set (db_events (gw_db g)). finite_float (ev_confidence_score e)"
    and "\<And>n m. hr_data rq = Inl (n, m) \<Longrightarrow> n \<in> status_codes"
    and "v \<notin> {VendorDiscoveryView, WebhookIngestionView, VendorProfileDetailView}"
  shows "answered (serve_view dp sz cx rq v args g)"
proof (cases v)
  case CalibrationView
  have "renderable (CalibrationReport_as_dict (calibration_report (dp_settings dp) None (gw_db g)))"
    using report_renderable assms(2) by (metis finite_float_simps(2))
  then show ?thesis unfolding serve_view_def CalibrationView
    by (auto simp: CalibrationView_get_def status_codes_def intro!: answered_respond)
qed (use assms in \<open>auto simp: serve_view_def answered_replay answered_decision
       low_confidence_rendered review_queue_rendered VendorProfileListView_get_def Let_def status_codes_def
       split: list.split arg.split intro!: answered_respond status_of\<close>)

lemma answered_writes:
  assumes "webhook_constraints (db_webhooks (gw_db g))" "\<And>n m. hr_data rq = Inl (n, m) \<Longrightarrow> n \<in> status_codes"
    and "resolve_path (hr_path rq) = Some (v, args)" "v \<in> {WebhookIngestionView, VendorProfileDetailView}"
  shows "answered (serve_view dp sz cx rq v args g) \<or>
    (\<not> storable_http sz rq \<and> refused (serve_view dp sz cx rq v args g))"
proof (cases "v = WebhookIngestionView")
  case True
  show ?thesis
  proof (cases "hr_method rq = POST")
    case post: True
    have "answered (serve_ingestion dp cx rq g) \<or>
      (\<exists>data. hr_data rq = Inr data \<and> \<not> storable_request (hr_headers rq) data \<and> refused (serve_ingestion dp cx rq g))"
      by (rule answered_ingestion [OF assms(1)]) (rule assms(2))
    then show ?thesis using assms(3) by (auto simp: True post serve_view_def storable_http_def)
  qed (simp add: True serve_view_def)
next
  case False
  then have v: "v = VendorProfileDetailView" using assms(4) by simp
  show ?thesis
  proof (cases "\<exists>vendor. args = [StrArg vendor]")
    case True
    then obtain vendor where args: "args = [StrArg vendor]" by blast
    have "answered (serve_profile dp sz cx rq vendor g) \<or>
      (\<exists>data body. hr_data rq = Inr data \<and> sz_profile sz data = Some body \<and> \<not> storable_profile vendor body \<and>
         refused (serve_profile dp sz cx rq vendor g))"
      by (rule answered_profile) (rule assms(2))
    then show ?thesis using assms(3) by (auto simp: v args serve_view_def storable_http_def)
  next
    case other: False
    have "serve_view dp sz cx rq v args g = not_found g"
      unfolding serve_view_def v using other by (auto split: list.split arg.split)
    then show ?thesis by simp
  qed
qed


section \<open>Safe methods\<close>

lemma profile_lookup_rows: "VendorProfileDetailView_get pins now vendor st = (r, st') \<Longrightarrow> fst st' = fst st"
  by (auto simp: VendorProfileDetailView_get_def profile_for_def cached_profile_def Let_def
      split: prod.splits option.splits if_splits)

text \<open>A GET is safe: it changes no row of any table, sends no task and counts no arrival; all it may
  do is to fill the profile cache.\<close>

theorem get_is_safe:
  assumes "hr_method rq = GET" "api dp sz other cx rq g = Inr (resp, g')"
    and "\<And>v args. resolve_path (hr_path rq) = Some (v, args) \<Longrightarrow> v \<in> interface"
  shows "gw_db g' = gw_db g \<and> gw_sent g' = gw_sent g \<and> gw_rates g' = gw_rates g"
proof (cases "resolve_path (hr_path rq)")
  case (Some m)
  obtain v args where m: "m = (v, args)" by (cases m)
  show ?thesis
  proof (cases "hr_throttled rq")
    case False
    then have s: "serve_view dp sz cx rq v args g = Inr (resp, g')"
      using assms Some m by (simp add: api_def)
    show ?thesis
    proof (cases v)
      case VendorProfileDetailView
      then show ?thesis using s assms(1)
        by (auto simp: serve_view_def serve_profile_def not_found_def put_profiles_def profiles_of_def
            dest!: respond_Inr profile_lookup_rows split: list.splits arg.splits prod.splits)
    qed (use s assms(1) in \<open>auto simp: serve_view_def Let_def not_allowed_def not_found_def
           dest!: respond_Inr split: list.splits arg.splits\<close>)
  qed (use assms Some m in \<open>auto simp: api_def split: if_splits\<close>)
qed (use assms in \<open>simp add: api_def not_found_def\<close>)

text \<open>A vendor called \<open>discover\<close> can be onboarded, but its profile cannot be read, written or removed:
  its path is the discovery endpoint, which answers everything but POST with 405.\<close>

theorem discover_vendor_is_shadowed:
  assumes "hr_path rq = api_url VendorProfileDetailView [StrArg ''discover'']" "hr_method rq \<noteq> POST" "\<not> hr_throttled rq"
  shows "api dp sz other cx rq g = Inr ((405, Detail ''Method not allowed.''), g)"
proof -
  have "resolve_path (api_url VendorProfileDetailView [StrArg ''discover'']) = Some (VendorDiscoveryView, [])"
    by code_simp
  then show ?thesis using assms by (simp add: api_def interface_def serve_view_def not_allowed_def)
qed

section \<open>Witnesses\<close>

definition no_serializers :: serializers where
  "no_serializers = \<lparr> sz_replay = (\<lambda>_. Some False), sz_profile = (\<lambda>_. None), sz_discovery = (\<lambda>_. None) \<rparr>"

definition sample_http :: "http_method \<Rightarrow> string \<Rightarrow> http_request" where
  "sample_http m path = \<lparr> hr_method = m, hr_path = path, hr_params = [], hr_headers = rq_headers sample_request,
     hr_body = rq_body sample_request, hr_data = Inr (rq_data sample_request), hr_throttled = False \<rparr>"

lemma sample_paths:
  "resolve_path ''/api/webhooks/'' = Some (WebhookIngestionView, [])"
  "resolve_path ''/api/health/'' = Some (HealthView, [])"
  by code_simp+

lemma sample_posted:
  "\<exists>b g. api sample_deployment no_serializers (\<lambda>_ _ g. Inr ((404, Detail []), g)) at_noon
     (sample_http POST ''/api/webhooks/'') empty_gateway = Inr ((202, b), g)"
proof -
  obtain b g where "WebhookIngestionView_post default_settings at_noon sample_request empty_gateway = Inr ((202, b), g)"
    using sample_accepted by blast
  moreover have e: "\<lparr> rq_headers = rq_headers sample_request, rq_body = rq_body sample_request,
      rq_data = rq_data sample_request \<rparr> = sample_request" by simp
  ultimately have "WebhookIngestionView_post default_settings at_noon
      \<lparr> rq_headers = rq_headers sample_request, rq_body = rq_body sample_request, rq_data = rq_data sample_request \<rparr>
      empty_gateway = Inr ((202, b), g)" by (simp only: e)
  then have "serve_ingestion sample_deployment at_noon (sample_http POST ''/api/webhooks/'') empty_gateway =
      respond accepted_body (202, b) g"
    by (simp add: serve_ingestion_def with_data_def sample_http_def)
  moreover have "\<exists>b'. map_response accepted_body (202, b) = (202, b')" by (cases b) simp_all
  ultimately show ?thesis
    by (simp add: api_def sample_http_def sample_paths interface_def serve_view_def respond_renders)
qed

theorem api_refines_system_witness:
  "\<exists>acts g. list_all web_action acts \<and> run sample_deployment initial_system acts (initial_system \<lparr> sy_gateway := g \<rparr>)"
proof -
  have i: "sy_gateway initial_system = empty_gateway" by (simp add: initial_system_def)
  obtain b g where "api sample_deployment no_serializers (\<lambda>_ _ g. Inr ((404, Detail []), g)) at_noon
      (sample_http POST ''/api/webhooks/'') (sy_gateway initial_system) = Inr ((202, b), g)"
    using sample_posted i by auto
  moreover have "\<And>v args. resolve_path (hr_path (sample_http POST ''/api/webhooks/'')) = Some (v, args) \<Longrightarrow> v \<in> interface"
    by (simp add: sample_http_def sample_paths interface_def)
  ultimately show ?thesis using api_refines_system by blast
qed


theorem get_is_safe_witness:
  "\<exists>resp g'. api sample_deployment no_serializers (\<lambda>_ _ g. Inr ((404, Detail []), g)) at_noon
     (sample_http GET ''/api/health/'') empty_gateway = Inr (resp, g') \<and> gw_db g' = empty_db"
proof -
  have "respond health_body HealthView_get empty_gateway = Inr (map_response health_body HealthView_get, empty_gateway)"
    by (rule respond_renders) simp
  then obtain resp g' where r: "api sample_deployment no_serializers (\<lambda>_ _ g. Inr ((404, Detail []), g)) at_noon
      (sample_http GET ''/api/health/'') empty_gateway = Inr (resp, g')"
    by (auto simp: api_def sample_http_def sample_paths interface_def serve_view_def)
  have "gw_db g' = gw_db empty_gateway \<and> gw_sent g' = gw_sent empty_gateway \<and> gw_rates g' = gw_rates empty_gateway"
    by (rule get_is_safe [OF _ r]) (simp_all add: sample_http_def sample_paths interface_def)
  then show ?thesis using r by (auto simp: empty_gateway_def)
qed

end
