(* ===== verification/Observability.thy ===== *)
theory Observability
  imports Py_Json
begin

text \<open>
  \<open>config/observability.py\<close>, \<open>config/middleware.py\<close> and \<open>config/logging.py\<close>: the correlation id
  of a request, kept in a context variable while the request is served and returned in a response
  header, and the fields of a log line.  A token of the context variable is the value it replaced;
  the wrapped handler is a parameter that may raise and may leave the variable changed.
\<close>

section \<open>The correlation id\<close>

type_synonym correlation = "string option"

definition set_correlation_id :: "correlation \<Rightarrow> correlation option \<Rightarrow> correlation \<Rightarrow> correlation option \<times> correlation" where
  "set_correlation_id v token current =
     (case token of Some old \<Rightarrow> (None, old) | None \<Rightarrow> (Some current, v))"

definition get_correlation_id :: "correlation \<Rightarrow> correlation" where
  "get_correlation_id current = current"

definition header_name :: string where
  "header_name = ''HTTP_X_CORRELATION_ID''"

definition response_header :: string where
  "response_header = ''X-Correlation-ID''"

type_synonym response_headers = "(string, string) dict"

definition CorrelationIdMiddleware_call ::
  "string \<Rightarrow> (string \<Rightarrow> correlation \<Rightarrow> response_headers result \<times> correlation) \<Rightarrow> (string, string) dict \<Rightarrow> correlation \<Rightarrow>
     response_headers result \<times> correlation" where
  "CorrelationIdMiddleware_call fresh_uuid get_response meta current =
     (let correlation_id = (case dict_get meta header_name of None \<Rightarrow> fresh_uuid | Some v \<Rightarrow> v);
          (token, current1) = set_correlation_id (Some correlation_id) None current;
          (outcome, current2) = get_response correlation_id current1;
          (_, current3) = set_correlation_id None token current2
      in (case outcome of
            Inl e \<Rightarrow> Inl e
          | Inr response \<Rightarrow> Inr (dict_set response_header correlation_id response), current3))"

text \<open>A request's correlation id does not leak into the next one: whatever the handler does, and also
  when it raises, the variable afterwards is what it was before; the handler ran with the id of
  the request, or a new one, and a response carries the same id.\<close>

theorem correlation_does_not_leak:
  "\<exists>cid. cid = (case dict_get meta header_name of None \<Rightarrow> fresh_uuid | Some v \<Rightarrow> v) \<and>
     snd (CorrelationIdMiddleware_call fresh_uuid get_response meta current) = current \<and>
     (case fst (get_response cid (Some cid)) of
        Inl e \<Rightarrow> fst (CorrelationIdMiddleware_call fresh_uuid get_response meta current) = Inl e
      | Inr response \<Rightarrow> \<exists>response'.
          fst (CorrelationIdMiddleware_call fresh_uuid get_response meta current) = Inr response' \<and>
          dict_get response' response_header = Some cid \<and>
          (\<forall>name. name \<noteq> response_header \<longrightarrow> dict_get response' name = dict_get response name))"
  by (auto simp: CorrelationIdMiddleware_call_def set_correlation_id_def split: prod.split sum.split option.split)

section \<open>Log lines\<close>

record log_record =
  lr_levelname :: string
  lr_name :: string
  lr_message :: string
  lr_dict :: "(string, json) dict"
  lr_exception :: "string option"

text \<open>\<open>vars(logging.LogRecord(\<dots>))\<close> of Python 3.12, and the three names added to it.\<close>

definition RECORD_ATTRS :: "string list" where
  "RECORD_ATTRS =
     [''name'', ''msg'', ''args'', ''levelname'', ''levelno'', ''pathname'', ''filename'', ''module'',
      ''exc_info'', ''exc_text'', ''stack_info'', ''lineno'', ''funcName'', ''created'', ''msecs'',
      ''relativeCreated'', ''thread'', ''threadName'', ''processName'', ''process'',
      ''message'', ''asctime'', ''taskName'']"

definition event_field :: "string \<Rightarrow> bool" where
  "event_field key \<longleftrightarrow> key \<notin> set RECORD_ATTRS \<and> \<not> starts_with ''_'' key"

definition base_fields :: "string \<Rightarrow> correlation \<Rightarrow> log_record \<Rightarrow> (string, json) dict" where
  "base_fields now correlation r =
     [(''timestamp'', JStr now), (''level'', JStr (lr_levelname r)), (''logger'', JStr (lr_name r)),
      (''message'', JStr (lr_message r)),
      (''correlation_id'', case correlation of None \<Rightarrow> JNull | Some c \<Rightarrow> JStr c)]"

text \<open>The object a line renders; its rendering is \<open>json.dumps\<close>.\<close>

definition log_data :: "string \<Rightarrow> correlation \<Rightarrow> log_record \<Rightarrow> (string, json) dict" where
  "log_data now correlation r =
     (let fields = fold (\<lambda>(k, v) acc. if event_field k then dict_set k v acc else acc) (lr_dict r)
                      (base_fields now correlation r)
      in (case lr_exception r of None \<Rightarrow> fields | Some t \<Rightarrow> dict_set ''exception'' (JStr t) fields))"

lemma fields_lookup:
  "dict_wf kvs \<Longrightarrow> dict_get (fold (\<lambda>(k, v) acc. if event_field k then dict_set k v acc else acc) kvs base) key =
     (case dict_get kvs key of Some v \<Rightarrow> if event_field key then Some v else dict_get base key | None \<Rightarrow> dict_get base key)"
proof (induction kvs arbitrary: base)
  case (Cons p kvs)
  obtain k v where p: "p = (k, v)" by (cases p)
  have wf: "dict_wf kvs" and new: "dict_get kvs k = None"
    using Cons.prems by (auto simp: dict_wf_def p map_of_eq_None_iff)
  show ?case using Cons.IH [OF wf] new by (auto simp: p split: option.splits)
qed simp

lemma log_data_lookup:
  assumes "dict_wf (lr_dict r)"
  shows "dict_get (log_data now c r) key =
    (if key = ''exception'' \<and> lr_exception r \<noteq> None then Some (JStr (the (lr_exception r)))
     else case dict_get (lr_dict r) key of
       Some v \<Rightarrow> if event_field key then Some v else dict_get (base_fields now c r) key
     | None \<Rightarrow> dict_get (base_fields now c r) key)"
  by (cases "lr_exception r") (simp_all add: log_data_def Let_def fields_lookup [OF assms])

lemma base_fields_names:
  "dict_get (base_fields now c r) key = Some v \<Longrightarrow>
     key \<in> {''timestamp'', ''level'', ''logger'', ''message'', ''correlation_id''}"
  by (auto simp: base_fields_def split: if_splits)

lemma message_is_reserved: "\<not> event_field ''message''" "dict_get (base_fields now c r) ''message'' = Some (JStr (lr_message r))"
  by (simp_all add: event_field_def RECORD_ATTRS_def base_fields_def)

text \<open>Nothing a call site puts into \<open>extra\<close> is lost: every field of the record that is not one of
  Python's own and not private is in the line under its name, except that the traceback takes the
  name \<open>exception\<close>; the message is always the event's name, and no other field appears.\<close>

theorem extra_fields_survive:
  assumes "dict_wf (lr_dict r)"
  shows "(\<forall>key v. dict_get (lr_dict r) key = Some v \<longrightarrow> event_field key \<longrightarrow>
            key \<noteq> ''exception'' \<or> lr_exception r = None \<longrightarrow> dict_get (log_data now c r) key = Some v) \<and>
    dict_get (log_data now c r) ''message'' = Some (JStr (lr_message r)) \<and>
    (\<forall>key v. dict_get (log_data now c r) key = Some v \<longrightarrow>
       key \<in> {''exception'', ''timestamp'', ''level'', ''logger'', ''message'', ''correlation_id''} \<or>
       (event_field key \<and> dict_get (lr_dict r) key = Some v))"
proof (intro conjI allI impI)
  show "dict_get (log_data now c r) key = Some v"
    if "dict_get (lr_dict r) key = Some v" "event_field key" "key \<noteq> ''exception'' \<or> lr_exception r = None" for key v
    using that by (auto simp: log_data_lookup [OF assms])
  show "dict_get (log_data now c r) ''message'' = Some (JStr (lr_message r))"
    by (simp add: log_data_lookup [OF assms] message_is_reserved split: option.split)
  show "key \<in> {''exception'', ''timestamp'', ''level'', ''logger'', ''message'', ''correlation_id''} \<or>
       (event_field key \<and> dict_get (lr_dict r) key = Some v)"
    if line: "dict_get (log_data now c r) key = Some v" for key v
  proof -
    consider "key = ''exception''" | "dict_get (base_fields now c r) key = Some v"
      | "event_field key \<and> dict_get (lr_dict r) key = Some v"
      using line by (auto simp: log_data_lookup [OF assms] split: if_splits option.splits)
    then show ?thesis
    proof cases
      case 2
      show ?thesis by (rule disjI1 [OF insertI2 [OF base_fields_names [OF 2]]])
    qed simp_all
  qed
qed

theorem extra_fields_survive_witness:
  "dict_get (log_data ''now'' None \<lparr> lr_levelname = ''WARNING'', lr_name = ''apps'', lr_message = ''held'',
     lr_dict = [(''msg'', JStr ''held''), (''threshold'', JFloat 7 (-1))], lr_exception = None \<rparr>) ''threshold'' = Some (JFloat 7 (-1))"
  using extra_fields_survive [THEN conjunct1, THEN spec, THEN spec, of "\<lparr> lr_levelname = ''WARNING'', lr_name = ''apps'', lr_message = ''held'',
     lr_dict = [(''msg'', JStr ''held''), (''threshold'', JFloat 7 (-1))], lr_exception = None \<rparr>" "''threshold''" "JFloat 7 (-1)" "''now''" None]
  by (simp add: dict_wf_def event_field_def RECORD_ATTRS_def starts_with_def)

end
