(* ===== verification/Contention.thy ===== *)
theory Contention
  imports System_Runs
begin

text \<open>
  Workers and replays that contend for one webhook: what the row lock of the claim guarantees, and
  what a replay that decides on a row it loaded earlier takes away.
\<close>

section \<open>One worker at a time\<close>

definition exclusive :: "system \<Rightarrow> nat \<Rightarrow> bool" where
  "exclusive s wid \<longleftrightarrow> (busy s wid \<longrightarrow> wid \<in> in_progress (sy_db s)) \<and>
     (\<forall>k k' j j'. sy_jobs s k = Some j \<longrightarrow> sy_jobs s k' = Some j' \<longrightarrow>
        wid \<in> busy_with j \<longrightarrow> wid \<in> busy_with j' \<longrightarrow> k = k')"

lemma exclusive_same:
  assumes "exclusive s wid" "sy_jobs s' = sy_jobs s" "wid \<in> in_progress (sy_db s) \<Longrightarrow> wid \<in> in_progress (sy_db s')"
  shows "exclusive s' wid"
  using assms unfolding exclusive_def busy_def by auto

lemma exclusive_set_job:
  assumes "exclusive s wid" "\<And>j'. j = Some j' \<Longrightarrow> wid \<in> busy_with j' \<Longrightarrow> \<exists>i. sy_jobs s k = Some i \<and> wid \<in> busy_with i"
  shows "exclusive (set_job k j s) wid"
proof -
  have "busy (set_job k j s) wid \<Longrightarrow> busy s wid"
    unfolding busy_set_job using assms(2) by (auto simp: busy_def split: option.splits)
  moreover have "k1 = k2" if "((sy_jobs s)(k := j)) k1 = Some j1" "((sy_jobs s)(k := j)) k2 = Some j2"
      "wid \<in> busy_with j1" "wid \<in> busy_with j2" for k1 k2 j1 j2
  proof -
    have "\<exists>i. sy_jobs s k' = Some i \<and> wid \<in> busy_with i"
      if "((sy_jobs s)(k := j)) k' = Some j'" "wid \<in> busy_with j'" for k' j'
      using that assms(2) by (cases "k' = k") auto
    then show ?thesis using that assms(1) unfolding exclusive_def by blast
  qed
  moreover have "sy_db (set_job k j s) = sy_db s" "sy_jobs (set_job k j s) = (sy_jobs s)(k := j)"
    by (simp_all add: set_job_def)
  ultimately show ?thesis using assms(1) unfolding exclusive_def by (metis (no_types, lifting))
qed

lemma exclusive_finish:
  assumes "exclusive s wid" "sy_jobs s k = Some i" "wid \<in> busy_with i"
    and "sy_jobs s' = (sy_jobs s)(k := j)" "\<And>j'. j = Some j' \<Longrightarrow> wid \<notin> busy_with j'"
  shows "exclusive s' wid"
proof -
  have "wid \<notin> busy_with j'" if "sy_jobs s' k' = Some j'" for k' j'
  proof (cases "k' = k")
    case True
    then show ?thesis using that assms(4,5) by simp
  next
    case False
    then have "sy_jobs s k' = Some j'" using that assms(4) by simp
    then show ?thesis using assms(1-3) False unfolding exclusive_def by blast
  qed
  then show ?thesis unfolding exclusive_def busy_def by blast
qed

lemma exclusive_claim:
  assumes "system_ok s" "exclusive s wid" "sy_jobs s k = Some (Looked wid' attempt seen)"
    and claim: "claim_webhook wid' seen (sy_db s) = (Claimed w, d)"
  shows "exclusive (set_job k (Some (Holding attempt w)) (with_db d s)) wid"
proof -
  note ok = db_of_ok [OF assms(1)]
  note c = claimed_row_known [OF _ claim]
  have w: "rw_id w = wid'" "d = set_status wid' PROCESSING (sy_db s)" using c job_of_ok [OF assms(1,3)] by simp_all
  have e: "exclusive (with_db d s) wid" if "wid' \<noteq> wid \<or> \<not> busy s wid"
    using that assms(2) unfolding exclusive_def
    by (auto simp: w(2) set_status_def in_progress_def in_update_row image_iff busy_def; force)
  show ?thesis
  proof (cases "wid' = wid")
    case True
    obtain row where "webhook_by_id wid (sy_db s) = Some row" "rw_processing_status row \<noteq> PROCESSING"
      using claim True by (auto simp: claim_webhook_def split: option.splits if_splits)
    then have "wid \<notin> in_progress (sy_db s)" using in_progress_row [OF ok] by (auto dest: webhook_by_id_Some)
    then have free: "\<not> busy s wid" using assms(2) by (auto simp: exclusive_def)
    moreover have "wid \<in> in_progress d"
    proof -
      have "row \<lparr> rw_processing_status := PROCESSING \<rparr> \<in> set (db_webhooks d)" "rw_id row = wid"
        using webhook_by_id_Some [OF \<open>webhook_by_id wid (sy_db s) = Some row\<close>] True
        by (auto simp: w(2) set_status_def in_update_row)
      then show ?thesis unfolding in_progress_def by (intro image_eqI [where x = "row \<lparr> rw_processing_status := PROCESSING \<rparr>"]) simp_all
    qed
    ultimately show ?thesis unfolding exclusive_def
      by (auto simp: busy_def split: if_splits)
  next
    case False
    then show ?thesis using exclusive_set_job [OF e, of "Some (Holding attempt w)" k] w(1) by simp
  qed
qed

lemma exclusive_failing:
  assumes "exclusive s wid" "sy_jobs s k = Some j" "busy_with j = {rw_id w}"
    and "handle_error may_retry attempt w e (sy_db s) = (out, d)"
  shows "exclusive (set_job k None (with_db d s)) wid"
proof (cases "rw_id w = wid")
  case True
  then show ?thesis using exclusive_finish [OF assms(1,2), of "set_job k None (with_db d s)" None] assms(3) by simp
next
  case False
  then have "exclusive (with_db d s) wid"
    using exclusive_same [OF assms(1), of "with_db d s"] in_progress_handle_error [OF assms(4)] by simp
  then show ?thesis by (rule exclusive_set_job) simp
qed

lemma exclusive_step:
  assumes "step dp s a s'" "system_ok s" "exclusive s wid" "\<not> forces wid a" "\<And>k. a \<noteq> Interrupt k"
  shows "exclusive s' wid"
proof -
  note ok = db_of_ok [OF assms(2)]
  note same = exclusive_same [OF assms(3)]
  from assms(1) show ?thesis
  proof cases
    case (post cx rq resp g)
    then show ?thesis using same [of s'] in_progress_post [OF ok post(3)] by simp
  next
    case (replay wid' force resp g)
    then show ?thesis using same [of s'] unforced_replay [OF ok _ _ replay(3)] assms(4) by (auto simp: forces_def)
  next
    case (bulk_replay limit n g)
    have "wid \<in> in_progress (sy_db s) \<Longrightarrow> wid \<notin> rw_id ` set (failed_batch limit (sy_db s))"
      using in_progress_row [OF ok] by (force simp: failed_batch_def dest!: in_set_takeD)
    then show ?thesis using same [of s'] bulk_replay in_progress_replay_all by (auto simp: replay_failed_webhooks_def)
  next
    case (reselect selected message g)
    then have "wid \<notin> selected" using assms(4) by (simp add: forces_def)
    moreover obtain n where "replay_all (dp_settings dp) (filter (\<lambda>w. rw_id w \<in> selected) (db_webhooks (sy_db s))) True (sy_gateway s) = (n, g)"
      using reselect(3) by (auto simp: replay_selected_def split: prod.splits)
    ultimately show ?thesis using same [of s'] in_progress_replay_all by (auto simp: reselect)
  next
    case (replay_loaded w force sent g)
    then have "rw_id w \<noteq> wid" using assms(4) by (auto simp: forces_def)
    then show ?thesis using same [of s'] in_progress_loaded [OF replay_loaded(4)] by (auto simp: replay_loaded(2))
  next
    case (deliver wid' attempt k)
    then show ?thesis using exclusive_set_job [OF assms(3), of "Some (Looked wid' attempt (sy_db s))" k] by simp
  next
    case (claim k wid' attempt seen w d)
    then show ?thesis using exclusive_claim [OF assms(2,3) claim(3,4)] by simp
  next
    case (skip k wid' attempt seen c d)
    then show ?thesis using exclusive_set_job [of "with_db d s" wid None k] same [of "with_db d s"] in_progress_skip [OF skip(4,5)] by simp
  next
    case (normalise k attempt w now arrival answer st)
    then show ?thesis using exclusive_set_job [of "with_profiles st s" wid "Some (Answered attempt w answer)" k]
        same [of "with_profiles st s"] by simp
  next
    case (write_event k attempt w resp now e d)
    show ?thesis
    proof (cases "rw_id w = wid")
      case True
      then show ?thesis using exclusive_finish [OF assms(3) write_event(3), of s' "Some (Written attempt w e)"]
        by (simp add: write_event(2))
    next
      case False
      then have "exclusive (with_db d s) wid"
        using same [of "with_db d s"] in_progress_create [OF write_event(4)] by simp
      then show ?thesis using exclusive_set_job [of "with_db d s" wid "Some (Written attempt w e)" k] by (simp add: write_event(2))
    qed
  next
    case (gate k attempt w e now gate d)
    then show ?thesis using exclusive_set_job [of "with_db d s" wid None k] same [of "with_db d s"]
        in_progress_same [OF gate_webhooks [OF gate(4)]] by simp
  next
    case (refuse_event k attempt w resp now e out d)
    then show ?thesis using exclusive_failing [OF assms(3) refuse_event(3) _ refuse_event(5)] by simp
  next
    case (fail k attempt w e out d)
    have "exclusive (set_job k None (with_db d s)) wid"
      using exclusive_failing [OF assms(3) fail(3) _ fail(4)] by simp
    then show ?thesis by (rule exclusive_same) (simp_all add: fail(2))
  next
    case (lose k j)
    then show ?thesis using exclusive_set_job [OF assms(3), of None k] by simp
  next
    case (decide e decision actor now updated d)
    then show ?thesis using same [of s'] in_progress_same [OF decision_Inr(6) [OF decide(4)]] by (simp add: with_db_def)
  qed (use assms(5) same [of s'] in \<open>simp_all add: with_db_def\<close>)
qed

text \<open>C27. The lock works: as long as nobody forces a replay of a webhook, no replay that has loaded its row goes
  on, and no run hits the time limit, at most one worker at a time holds the webhook, and while one
  does its row is in \<open>PROCESSING\<close>.\<close>

theorem one_worker_at_a_time:
  assumes "run dp initial_system acts s" "\<forall>a \<in> set acts. \<not> forces wid a \<and> (\<forall>k. a \<noteq> Interrupt k)"
    and "sy_jobs s k = Some j" "wid \<in> busy_with j"
  shows "(\<forall>k' j'. sy_jobs s k' = Some j' \<longrightarrow> wid \<in> busy_with j' \<longrightarrow> k' = k) \<and>
    (\<exists>row. webhook_by_id wid (sy_db s) = Some row \<and> rw_processing_status row = PROCESSING)"
proof -
  have e: "exclusive s wid"
    using assms(1,2)
  proof (induction "initial_system" acts s rule: run.induct)
    case stop
    then show ?case by (simp add: exclusive_def busy_def initial_system_def)
  next
    case (more acts s' a s'')
    then show ?case using exclusive_step [OF more(3)] run_ok [OF more(1) initial_ok] by auto
  qed
  then have "wid \<in> in_progress (sy_db s)" using assms(3,4) by (auto simp: exclusive_def busy_def)
  then obtain row where row: "row \<in> set (db_webhooks (sy_db s))" "rw_id row = wid" "rw_processing_status row = PROCESSING"
    by (auto simp: in_progress_def)
  then have "webhook_by_id wid (sy_db s) = Some row"
    using row_of_table [OF db_of_ok] run_ok [OF assms(1) initial_ok] by blast
  then show ?thesis using e assms(3,4) row(3) unfolding exclusive_def by blast
qed


section \<open>Witnesses\<close>

theorem one_worker_at_a_time_witness:
  "\<exists>s w. run sample_deployment initial_system [Post sample_request, Deliver 1, Claim 1] s \<and>
     sy_jobs s 1 = Some (Holding 0 w) \<and>
     (\<forall>k' j'. sy_jobs s k' = Some j' \<longrightarrow> rw_id w \<in> busy_with j' \<longrightarrow> k' = 1)"
proof -
  obtain s w where s: "run sample_deployment initial_system [Post sample_request, Deliver 1, Claim 1] s"
      "sy_jobs s = [1 \<mapsto> Holding 0 w]"
    using after_claim by blast
  have calm: "\<forall>a \<in> set [Post sample_request, Deliver 1, Claim 1]. \<not> forces (rw_id w) a \<and> (\<forall>k. a \<noteq> Interrupt k)"
    by (simp add: forces_def)
  have j: "sy_jobs s 1 = Some (Holding 0 w)" "rw_id w \<in> busy_with (Holding 0 w)" using s(2) by simp_all
  from one_worker_at_a_time [OF s(1) calm j] s(1) j(1) show ?thesis by blast
qed


end
