(* ===== verification/Migrations.thy ===== *)
theory Migrations
  imports Gateway_System "HOL-Library.Multiset"
begin

text \<open>
  The schema of the database, twice: as the \<open>models.py\<close> of the three apps declare it, and as their
  migrations build it, operation by operation.  Then what a database with such a schema demands of
  its rows, and the rows of the model's tables.
\<close>

section \<open>Fields, indexes and constraints\<close>

datatype kwarg =
    Flag bool
  | Number nat
  | Text string
  | Choices "(string \<times> string) list"
  | Callable string

datatype field_class =
    UUIDField | BigAutoField | CharField | TextField | JSONField | FloatField | BooleanField
  | DateTimeField | PositiveIntegerField | OneToOneField | ForeignKey

datatype field = Field (field_class: field_class) (field_kwargs: "(string, kwarg) dict")

text \<open>A \<open>Q\<close> object over flags and nullness: a conjunction of lookups.\<close>

datatype clause = Equals string bool | IsNull string bool

record db_index =
  ix_name :: string
  ix_fields :: "string list"
  ix_condition :: "clause list"

record unique_constraint =
  uc_name :: string
  uc_fields :: "string list"
  uc_condition :: "clause list"

record table =
  tb_fields :: "(string, field) dict"
  tb_ordering :: "string list"
  tb_indexes :: "db_index list"
  tb_constraints :: "unique_constraint list"

type_synonym schema = "(string, table) dict"

definition Index :: "string list \<Rightarrow> string \<Rightarrow> db_index" where
  "Index columns name = \<lparr> ix_name = name, ix_fields = columns, ix_condition = [] \<rparr>"

definition UniqueConstraint :: "string list \<Rightarrow> string \<Rightarrow> unique_constraint" where
  "UniqueConstraint columns name = \<lparr> uc_name = name, uc_fields = columns, uc_condition = [] \<rparr>"

section \<open>Migrations\<close>

datatype operation =
    CreateModel string "(string, field) dict" "string list"
  | AddField string string field
  | AddIndex string db_index
  | AddConstraint string unique_constraint

record migration =
  mg_app :: string
  mg_name :: string
  mg_dependencies :: "(string \<times> string) list"
  mg_operations :: "operation list"

definition mg_id :: "migration \<Rightarrow> string \<times> string" where
  "mg_id m = (mg_app m, mg_name m)"

text \<open>A model is known by its app and its name in lower case.\<close>

definition label :: "string \<Rightarrow> string \<Rightarrow> string" where
  "label app model = app @ ''.'' @ lower model"

fun target :: "field \<Rightarrow> string option" where
  "target (Field c kw) = (case dict_get kw ''to'' of Some (Text t) \<Rightarrow> Some t | _ \<Rightarrow> None)"

definition resolvable :: "schema \<Rightarrow> field \<Rightarrow> bool" where
  "resolvable sch f \<longleftrightarrow> (case target f of None \<Rightarrow> True | Some t \<Rightarrow> dict_get sch t \<noteq> None)"

text \<open>An operation fails where its model is missing or already there, where its field is already
  there, and where a relation points to a table that does not exist yet.\<close>

fun apply_operation :: "string \<Rightarrow> operation \<Rightarrow> schema \<Rightarrow> schema option" where
  "apply_operation app (CreateModel name columns order) sch =
     (if dict_get sch (label app name) = None \<and> list_all (\<lambda>(n, f). resolvable sch f) columns
      then Some (dict_set (label app name)
        \<lparr> tb_fields = columns, tb_ordering = order, tb_indexes = [], tb_constraints = [] \<rparr> sch)
      else None)"
| "apply_operation app (AddField model name f) sch =
     (case dict_get sch (label app model) of
        None \<Rightarrow> None
      | Some t \<Rightarrow>
          if dict_get (tb_fields t) name = None \<and> resolvable sch f
          then Some (dict_set (label app model) (t \<lparr> tb_fields := tb_fields t @ [(name, f)] \<rparr>) sch)
          else None)"
| "apply_operation app (AddIndex model ix) sch =
     map_option (\<lambda>t. dict_set (label app model) (t \<lparr> tb_indexes := tb_indexes t @ [ix] \<rparr>) sch)
       (dict_get sch (label app model))"
| "apply_operation app (AddConstraint model uc) sch =
     map_option (\<lambda>t. dict_set (label app model) (t \<lparr> tb_constraints := tb_constraints t @ [uc] \<rparr>) sch)
       (dict_get sch (label app model))"

fun apply_operations :: "string \<Rightarrow> operation list \<Rightarrow> schema \<Rightarrow> schema option" where
  "apply_operations app [] sch = Some sch"
| "apply_operations app (op # ops) sch =
     (case apply_operation app op sch of None \<Rightarrow> None | Some sch' \<Rightarrow> apply_operations app ops sch')"

fun migrate :: "migration list \<Rightarrow> schema \<Rightarrow> schema option" where
  "migrate [] sch = Some sch"
| "migrate (m # ms) sch =
     (case apply_operations (mg_app m) (mg_operations m) sch of None \<Rightarrow> None | Some sch' \<Rightarrow> migrate ms sch')"

text \<open>An order in which \<open>manage.py migrate\<close> may run them.\<close>

fun runnable :: "(string \<times> string) set \<Rightarrow> migration list \<Rightarrow> bool" where
  "runnable applied [] = True"
| "runnable applied (m # ms) \<longleftrightarrow>
     set (mg_dependencies m) \<subseteq> applied \<and> runnable (insert (mg_id m) applied) ms"

section \<open>The migrations of the three apps\<close>

definition auto_id :: field where
  "auto_id = Field BigAutoField [(''auto_created'', Flag True), (''primary_key'', Flag True),
     (''serialize'', Flag False), (''verbose_name'', Text ''ID'')]"

definition ingestion_0001 :: migration where
  "ingestion_0001 = \<lparr> mg_app = ''ingestion'', mg_name = ''0001_initial'', mg_dependencies = [],
     mg_operations =
      [CreateModel ''RawWebhook''
        [(''id'', Field UUIDField [(''default'', Callable ''uuid.uuid4''), (''editable'', Flag False),
            (''primary_key'', Flag True), (''serialize'', Flag False)]),
         (''vendor'', Field CharField [(''db_index'', Flag True), (''max_length'', Number 128)]),
         (''external_event_id'', Field CharField [(''blank'', Flag True), (''max_length'', Number 255),
            (''null'', Flag True)]),
         (''idempotency_key'', Field CharField [(''max_length'', Number 255)]),
         (''raw_payload'', Field JSONField []),
         (''processing_status'', Field CharField
            [(''choices'', Choices [(''RECEIVED'', ''Received''), (''PROCESSING'', ''Processing''),
               (''NORMALIZED'', ''Normalized''), (''FAILED'', ''Failed''), (''DEAD_LETTER'', ''Dead Letter'')]),
             (''db_index'', Flag True), (''default'', Text ''RECEIVED''), (''max_length'', Number 32)]),
         (''retry_count'', Field PositiveIntegerField [(''default'', Number 0)]),
         (''error_message'', Field TextField [(''blank'', Flag True)]),
         (''received_at'', Field DateTimeField [(''auto_now_add'', Flag True), (''db_index'', Flag True)])]
        [''-received_at''],
       AddIndex ''rawwebhook'' (Index [''vendor'', ''received_at''] ''raw_vendor_received_idx''),
       AddIndex ''rawwebhook'' (Index [''external_event_id''] ''raw_ext_event_idx''),
       AddIndex ''rawwebhook'' (Index [''processing_status'', ''received_at''] ''raw_status_received_idx''),
       AddConstraint ''rawwebhook'' (UniqueConstraint [''vendor'', ''idempotency_key''] ''uq_vendor_idempotency_key''),
       AddConstraint ''rawwebhook''
         ((UniqueConstraint [''vendor'', ''external_event_id''] ''uq_vendor_external_event'')
            \<lparr> uc_condition := [IsNull ''external_event_id'' False] \<rparr>)] \<rparr>"

definition normalization_0001 :: migration where
  "normalization_0001 = \<lparr> mg_app = ''normalization'', mg_name = ''0001_initial'',
     mg_dependencies = [(''ingestion'', ''0001_initial'')],
     mg_operations =
      [CreateModel ''NormalizedEvent''
        [(''id'', auto_id),
         (''entity_type'', Field CharField
            [(''choices'', Choices [(''SHIPMENT'', ''Shipment''), (''INVOICE'', ''Invoice''),
               (''UNCLASSIFIED'', ''Unclassified'')]), (''db_index'', Flag True), (''max_length'', Number 32)]),
         (''entity_id'', Field CharField [(''db_index'', Flag True), (''max_length'', Number 255)]),
         (''canonical_status'', Field CharField [(''db_index'', Flag True), (''max_length'', Number 64)]),
         (''event_time'', Field DateTimeField [(''db_index'', Flag True)]),
         (''normalized_payload'', Field JSONField []),
         (''confidence_score'', Field FloatField []),
         (''llm_model'', Field CharField [(''max_length'', Number 128)]),
         (''prompt_version'', Field CharField [(''max_length'', Number 32)]),
         (''created_at'', Field DateTimeField [(''auto_now_add'', Flag True), (''db_index'', Flag True)]),
         (''webhook'', Field OneToOneField [(''on_delete'', Callable ''CASCADE''),
            (''related_name'', Text ''normalized_event''), (''to'', Text ''ingestion.rawwebhook'')])]
        [''-event_time''],
       AddIndex ''normalizedevent'' (Index [''entity_type'', ''entity_id'', ''event_time''] ''norm_entity_event_idx''),
       AddIndex ''normalizedevent'' (Index [''canonical_status'', ''created_at''] ''norm_status_created_idx'')] \<rparr>"

definition normalization_0002 :: migration where
  "normalization_0002 = \<lparr> mg_app = ''normalization'', mg_name = ''0002_normalizedevent_requires_review_and_more'',
     mg_dependencies = [(''normalization'', ''0001_initial'')],
     mg_operations =
      [AddField ''normalizedevent'' ''requires_review''
         (Field BooleanField [(''db_index'', Flag True), (''default'', Flag False)]),
       AddField ''normalizedevent'' ''review_reason''
         (Field CharField [(''blank'', Flag True), (''default'', Text []), (''max_length'', Number 255)]),
       AddField ''normalizedevent'' ''reviewed_at''
         (Field DateTimeField [(''blank'', Flag True), (''null'', Flag True)])] \<rparr>"

definition normalization_0003 :: migration where
  "normalization_0003 = \<lparr> mg_app = ''normalization'',
     mg_name = ''0003_vendorprofile_normalizedevent_review_decision_and_more'',
     mg_dependencies = [(''ingestion'', ''0001_initial''),
       (''normalization'', ''0002_normalizedevent_requires_review_and_more'')],
     mg_operations =
      [CreateModel ''VendorProfile''
        [(''id'', auto_id),
         (''vendor'', Field CharField [(''max_length'', Number 128), (''unique'', Flag True)]),
         (''entity_type'', Field CharField [(''blank'', Flag True),
            (''choices'', Choices [(''SHIPMENT'', ''Shipment''), (''INVOICE'', ''Invoice''),
               (''UNCLASSIFIED'', ''Unclassified'')]), (''default'', Text []),
            (''help_text'', Text ''Forced entity type, or blank to let the normaliser classify.''),
            (''max_length'', Number 32)]),
         (''id_paths'', Field JSONField [(''blank'', Flag True), (''default'', Callable ''list'')]),
         (''status_paths'', Field JSONField [(''blank'', Flag True), (''default'', Callable ''list'')]),
         (''time_paths'', Field JSONField [(''blank'', Flag True), (''default'', Callable ''list'')]),
         (''status_map'', Field JSONField [(''blank'', Flag True), (''default'', Callable ''dict'')]),
         (''source'', Field CharField
            [(''choices'', Choices [(''MANUAL'', ''Hand written''), (''DISCOVERED'', ''Discovered from samples'')]),
             (''default'', Text ''MANUAL''), (''max_length'', Number 16)]),
         (''sample_count'', Field PositiveIntegerField [(''default'', Number 0)]),
         (''notes'', Field TextField [(''blank'', Flag True), (''default'', Text [])]),
         (''created_at'', Field DateTimeField [(''auto_now_add'', Flag True)]),
         (''updated_at'', Field DateTimeField [(''auto_now'', Flag True)])]
        [''vendor''],
       AddField ''normalizedevent'' ''review_decision''
         (Field CharField [(''blank'', Flag True),
            (''choices'', Choices [(''approve'', ''Approved''), (''reject'', ''Rejected'')]),
            (''default'', Text []), (''max_length'', Number 16)]),
       AddIndex ''normalizedevent''
         ((Index [''created_at''] ''norm_review_pending_idx'')
            \<lparr> ix_condition := [Equals ''requires_review'' True, IsNull ''reviewed_at'' True] \<rparr>),
       AddIndex ''normalizedevent'' (Index [''confidence_score'', ''created_at''] ''norm_confidence_idx'')] \<rparr>"

definition entities_0001 :: migration where
  "entities_0001 = \<lparr> mg_app = ''entities'', mg_name = ''0001_initial'',
     mg_dependencies = [(''normalization'', ''0001_initial'')],
     mg_operations =
      [CreateModel ''EntityState''
        [(''id'', auto_id),
         (''entity_type'', Field CharField [(''max_length'', Number 32)]),
         (''entity_id'', Field CharField [(''max_length'', Number 255)]),
         (''latest_status'', Field CharField [(''max_length'', Number 64)]),
         (''latest_event_time'', Field DateTimeField [(''db_index'', Flag True)]),
         (''updated_at'', Field DateTimeField [(''auto_now'', Flag True)]),
         (''latest_event'', Field ForeignKey [(''on_delete'', Callable ''CASCADE''),
            (''related_name'', Text ''state_snapshots''), (''to'', Text ''normalization.normalizedevent'')])]
        [],
       AddConstraint ''entitystate'' (UniqueConstraint [''entity_type'', ''entity_id''] ''uq_entity_type_id''),
       AddIndex ''entitystate'' (Index [''entity_type'', ''entity_id''] ''entity_lookup_idx''),
       AddIndex ''entitystate'' (Index [''latest_event_time''] ''entity_latest_time_idx'')] \<rparr>"

definition all_migrations :: "migration list" where
  "all_migrations = [ingestion_0001, normalization_0001, normalization_0002, normalization_0003, entities_0001]"

section \<open>The models of the three apps\<close>

record model_class =
  mc_app :: string
  mc_name :: string
  mc_fields :: "(string, field) dict"
  mc_ordering :: "string list"
  mc_indexes :: "db_index list"
  mc_constraints :: "unique_constraint list"

definition ProcessingStatus_choices :: "(string \<times> string) list" where
  "ProcessingStatus_choices = zip (map processing_status_value [RECEIVED, PROCESSING, NORMALIZED, FAILED, DEAD_LETTER])
     [''Received'', ''Processing'', ''Normalized'', ''Failed'', ''Dead Letter'']"

definition EntityType_choices :: "(string \<times> string) list" where
  "EntityType_choices = zip EntityType_values [''Shipment'', ''Invoice'', ''Unclassified'']"

definition ReviewDecision_choices :: "(string \<times> string) list" where
  "ReviewDecision_choices = zip (map review_decision_value [APPROVE_DECISION, REJECT_DECISION])
     [''Approved'', ''Rejected'']"

definition ProfileSource_choices :: "(string \<times> string) list" where
  "ProfileSource_choices = zip (map profile_source_value [MANUAL, DISCOVERED])
     [''Hand written'', ''Discovered from samples'']"

definition RawWebhook_class :: model_class where
  "RawWebhook_class = \<lparr> mc_app = ''ingestion'', mc_name = ''RawWebhook'',
     mc_fields =
      [(''id'', Field UUIDField [(''primary_key'', Flag True), (''default'', Callable ''uuid.uuid4''),
          (''editable'', Flag False)]),
       (''vendor'', Field CharField [(''max_length'', Number 128), (''db_index'', Flag True)]),
       (''external_event_id'', Field CharField [(''max_length'', Number 255), (''blank'', Flag True),
          (''null'', Flag True)]),
       (''idempotency_key'', Field CharField [(''max_length'', Number 255)]),
       (''raw_payload'', Field JSONField []),
       (''processing_status'', Field CharField [(''max_length'', Number 32),
          (''choices'', Choices ProcessingStatus_choices),
          (''default'', Text (processing_status_value RECEIVED)), (''db_index'', Flag True)]),
       (''retry_count'', Field PositiveIntegerField [(''default'', Number 0)]),
       (''error_message'', Field TextField [(''blank'', Flag True)]),
       (''received_at'', Field DateTimeField [(''auto_now_add'', Flag True), (''db_index'', Flag True)])],
     mc_ordering = [''-received_at''],
     mc_indexes =
      [Index [''vendor'', ''received_at''] ''raw_vendor_received_idx'',
       Index [''external_event_id''] ''raw_ext_event_idx'',
       Index [''processing_status'', ''received_at''] ''raw_status_received_idx''],
     mc_constraints =
      [UniqueConstraint [''vendor'', ''idempotency_key''] ''uq_vendor_idempotency_key'',
       (UniqueConstraint [''vendor'', ''external_event_id''] ''uq_vendor_external_event'')
         \<lparr> uc_condition := [IsNull ''external_event_id'' False] \<rparr>] \<rparr>"

definition NormalizedEvent_class :: model_class where
  "NormalizedEvent_class = \<lparr> mc_app = ''normalization'', mc_name = ''NormalizedEvent'',
     mc_fields =
      [(''webhook'', Field OneToOneField [(''to'', Text ''ingestion.RawWebhook''),
          (''on_delete'', Callable ''CASCADE''), (''related_name'', Text ''normalized_event'')]),
       (''entity_type'', Field CharField [(''max_length'', Number 32), (''choices'', Choices EntityType_choices),
          (''db_index'', Flag True)]),
       (''entity_id'', Field CharField [(''max_length'', Number 255), (''db_index'', Flag True)]),
       (''canonical_status'', Field CharField [(''max_length'', Number 64), (''db_index'', Flag True)]),
       (''event_time'', Field DateTimeField [(''db_index'', Flag True)]),
       (''normalized_payload'', Field JSONField []),
       (''confidence_score'', Field FloatField []),
       (''llm_model'', Field CharField [(''max_length'', Number 128)]),
       (''prompt_version'', Field CharField [(''max_length'', Number 32)]),
       (''created_at'', Field DateTimeField [(''auto_now_add'', Flag True), (''db_index'', Flag True)]),
       (''requires_review'', Field BooleanField [(''default'', Flag False), (''db_index'', Flag True)]),
       (''review_reason'', Field CharField [(''max_length'', Number 255), (''blank'', Flag True),
          (''default'', Text [])]),
       (''reviewed_at'', Field DateTimeField [(''null'', Flag True), (''blank'', Flag True)]),
       (''review_decision'', Field CharField [(''max_length'', Number 16),
          (''choices'', Choices ReviewDecision_choices), (''blank'', Flag True), (''default'', Text [])])],
     mc_ordering = [''-event_time''],
     mc_indexes =
      [Index [''entity_type'', ''entity_id'', ''event_time''] ''norm_entity_event_idx'',
       Index [''canonical_status'', ''created_at''] ''norm_status_created_idx'',
       (Index [''created_at''] ''norm_review_pending_idx'')
         \<lparr> ix_condition := [Equals ''requires_review'' True, IsNull ''reviewed_at'' True] \<rparr>,
       Index [''confidence_score'', ''created_at''] ''norm_confidence_idx''],
     mc_constraints = [] \<rparr>"

definition VendorProfile_class :: model_class where
  "VendorProfile_class = \<lparr> mc_app = ''normalization'', mc_name = ''VendorProfile'',
     mc_fields =
      [(''vendor'', Field CharField [(''max_length'', Number 128), (''unique'', Flag True)]),
       (''entity_type'', Field CharField [(''max_length'', Number 32), (''choices'', Choices EntityType_choices),
          (''blank'', Flag True), (''default'', Text []),
          (''help_text'', Text ''Forced entity type, or blank to let the normaliser classify.'')]),
       (''id_paths'', Field JSONField [(''default'', Callable ''list''), (''blank'', Flag True)]),
       (''status_paths'', Field JSONField [(''default'', Callable ''list''), (''blank'', Flag True)]),
       (''time_paths'', Field JSONField [(''default'', Callable ''list''), (''blank'', Flag True)]),
       (''status_map'', Field JSONField [(''default'', Callable ''dict''), (''blank'', Flag True)]),
       (''source'', Field CharField [(''max_length'', Number 16), (''choices'', Choices ProfileSource_choices),
          (''default'', Text (profile_source_value MANUAL))]),
       (''sample_count'', Field PositiveIntegerField [(''default'', Number 0)]),
       (''notes'', Field TextField [(''blank'', Flag True), (''default'', Text [])]),
       (''created_at'', Field DateTimeField [(''auto_now_add'', Flag True)]),
       (''updated_at'', Field DateTimeField [(''auto_now'', Flag True)])],
     mc_ordering = [''vendor''], mc_indexes = [], mc_constraints = [] \<rparr>"

definition EntityState_class :: model_class where
  "EntityState_class = \<lparr> mc_app = ''entities'', mc_name = ''EntityState'',
     mc_fields =
      [(''entity_type'', Field CharField [(''max_length'', Number 32)]),
       (''entity_id'', Field CharField [(''max_length'', Number 255)]),
       (''latest_status'', Field CharField [(''max_length'', Number 64)]),
       (''latest_event_time'', Field DateTimeField [(''db_index'', Flag True)]),
       (''latest_event'', Field ForeignKey [(''to'', Text ''normalization.NormalizedEvent''),
          (''on_delete'', Callable ''CASCADE''), (''related_name'', Text ''state_snapshots'')]),
       (''updated_at'', Field DateTimeField [(''auto_now'', Flag True)])],
     mc_ordering = [],
     mc_indexes =
      [Index [''entity_type'', ''entity_id''] ''entity_lookup_idx'',
       Index [''latest_event_time''] ''entity_latest_time_idx''],
     mc_constraints = [UniqueConstraint [''entity_type'', ''entity_id''] ''uq_entity_type_id''] \<rparr>"

text \<open>What Django makes of a class: a primary key is added where none is declared
  (\<open>DEFAULT_AUTO_FIELD\<close>) and is not serialised, and a relation names its model in lower case.\<close>

definition has_flag :: "string \<Rightarrow> field \<Rightarrow> bool" where
  "has_flag name f \<longleftrightarrow> dict_get (field_kwargs f) name = Some (Flag True)"

definition contributed :: "field \<Rightarrow> field" where
  "contributed f = Field (field_class f)
     (map (\<lambda>(k, v). (k, case v of Text t \<Rightarrow> Text (if k = ''to'' then lower t else t) | _ \<Rightarrow> v)) (field_kwargs f)
        @ (if has_flag ''primary_key'' f then [(''serialize'', Flag False)] else []))"

definition table_of_class :: "model_class \<Rightarrow> table" where
  "table_of_class c =
     \<lparr> tb_fields = (if list_ex (\<lambda>(n, f). has_flag ''primary_key'' f) (mc_fields c) then [] else [(''id'', auto_id)])
         @ map (\<lambda>(n, f). (n, contributed f)) (mc_fields c),
       tb_ordering = mc_ordering c, tb_indexes = mc_indexes c, tb_constraints = mc_constraints c \<rparr>"

definition declared_schema :: schema where
  "declared_schema = map (\<lambda>c. (label (mc_app c) (mc_name c), table_of_class c))
     [RawWebhook_class, NormalizedEvent_class, VendorProfile_class, EntityState_class]"

section \<open>The same schema, up to the order of declarations\<close>

definition same_dict :: "('v \<Rightarrow> 'w \<Rightarrow> bool) \<Rightarrow> (string, 'v) dict \<Rightarrow> (string, 'w) dict \<Rightarrow> bool" where
  "same_dict R a b \<longleftrightarrow>
     (\<forall>k \<in> set (map fst a @ map fst b).
        case (dict_get a k, dict_get b k) of (Some v, Some w) \<Rightarrow> R v w | _ \<Rightarrow> False)"

definition same_field :: "field \<Rightarrow> field \<Rightarrow> bool" where
  "same_field f g \<longleftrightarrow> field_class f = field_class g \<and> same_dict (=) (field_kwargs f) (field_kwargs g)"

definition same_table :: "table \<Rightarrow> table \<Rightarrow> bool" where
  "same_table t u \<longleftrightarrow>
     dict_wf (tb_fields t) \<and> dict_wf (tb_fields u) \<and> same_dict same_field (tb_fields t) (tb_fields u) \<and>
     tb_ordering t = tb_ordering u \<and> set (tb_indexes t) = set (tb_indexes u) \<and>
     set (tb_constraints t) = set (tb_constraints u)"

definition same_schema :: "schema \<Rightarrow> schema \<Rightarrow> bool" where
  "same_schema a b \<longleftrightarrow> dict_wf a \<and> dict_wf b \<and> same_dict same_table a b"

text \<open>Every order that respects the dependencies.\<close>

fun orders :: "nat \<Rightarrow> (string \<times> string) set \<Rightarrow> migration list \<Rightarrow> migration list list" where
  "orders 0 applied waiting = [[]]"
| "orders (Suc n) applied waiting =
     concat (map (\<lambda>m. if set (mg_dependencies m) \<subseteq> applied
       then map ((#) m) (orders n (insert (mg_id m) applied) (filter (\<lambda>x. mg_id x \<noteq> mg_id m) waiting))
       else []) waiting)"

lemma orders_complete:
  "runnable applied ms \<Longrightarrow> set ms = set waiting \<Longrightarrow> distinct ms \<Longrightarrow> inj_on mg_id (set waiting) \<Longrightarrow>
   ms \<in> set (orders (length ms) applied waiting)"
proof (induction ms arbitrary: applied waiting)
  case (Cons m ms)
  let ?rest = "filter (\<lambda>x. mg_id x \<noteq> mg_id m) waiting"
  have m: "m \<in> set waiting" using Cons.prems(2) by (metis list.set_intros(1))
  have "set ?rest = set waiting - {m}" using m Cons.prems(4) by (auto dest: inj_onD)
  then have "set ms = set ?rest" using Cons.prems(2,3) by auto
  moreover have "inj_on mg_id (set ?rest)" using Cons.prems(4) by (auto intro: inj_on_subset)
  ultimately have "ms \<in> set (orders (length ms) (insert (mg_id m) applied) ?rest)"
    using Cons.prems(1,3) by (intro Cons.IH) simp_all
  then have "m # ms \<in> set (if set (mg_dependencies m) \<subseteq> applied
       then map ((#) m) (orders (length ms) (insert (mg_id m) applied) ?rest) else [])"
    using Cons.prems(1) by simp
  then show ?case using m by (simp only: length_Cons orders.simps set_concat set_map) blast
qed simp

lemma migration_ids:
  "mg_id ingestion_0001 = (''ingestion'', ''0001_initial'')"
  "mg_id normalization_0001 = (''normalization'', ''0001_initial'')"
  "mg_id normalization_0002 = (''normalization'', ''0002_normalizedevent_requires_review_and_more'')"
  "mg_id normalization_0003 = (''normalization'', ''0003_vendorprofile_normalizedevent_review_decision_and_more'')"
  "mg_id entities_0001 = (''entities'', ''0001_initial'')"
  "mg_dependencies ingestion_0001 = []"
  "mg_dependencies normalization_0001 = [(''ingestion'', ''0001_initial'')]"
  "mg_dependencies normalization_0002 = [(''normalization'', ''0001_initial'')]"
  "mg_dependencies normalization_0003 = [(''ingestion'', ''0001_initial''),
     (''normalization'', ''0002_normalizedevent_requires_review_and_more'')]"
  "mg_dependencies entities_0001 = [(''normalization'', ''0001_initial'')]"
  by (simp_all add: mg_id_def ingestion_0001_def normalization_0001_def normalization_0002_def
      normalization_0003_def entities_0001_def)

lemma possible_orders:
  "orders 5 {} all_migrations =
     [[ingestion_0001, normalization_0001, normalization_0002, normalization_0003, entities_0001],
      [ingestion_0001, normalization_0001, normalization_0002, entities_0001, normalization_0003],
      [ingestion_0001, normalization_0001, entities_0001, normalization_0002, normalization_0003]]"
  by (simp add: all_migrations_def eval_nat_numeral migration_ids)

definition builds_models :: "migration list \<Rightarrow> bool" where
  "builds_models ms \<longleftrightarrow> (case migrate ms [] of None \<Rightarrow> False | Some sch \<Rightarrow> same_schema sch declared_schema)"

lemma entities_last_builds:
  "builds_models [ingestion_0001, normalization_0001, normalization_0002, normalization_0003, entities_0001]"
  unfolding builds_models_def by code_simp

lemma entities_fourth_builds:
  "builds_models [ingestion_0001, normalization_0001, normalization_0002, entities_0001, normalization_0003]"
  unfolding builds_models_def by code_simp

lemma entities_third_builds:
  "builds_models [ingestion_0001, normalization_0001, entities_0001, normalization_0002, normalization_0003]"
  unfolding builds_models_def by code_simp

lemmas every_order_builds = entities_last_builds entities_fourth_builds entities_third_builds

lemma every_order_migrates:
  assumes "distinct ms" "set ms = set all_migrations" "runnable {} ms"
  shows "\<exists>sch. migrate ms [] = Some sch \<and> same_schema sch declared_schema"
proof -
  have d: "distinct all_migrations" "inj_on mg_id (set all_migrations)"
    using distinct_map [of mg_id all_migrations] by (simp_all add: all_migrations_def migration_ids)
  have "length ms = length all_migrations" using assms(1,2) d(1) by (metis distinct_card)
  then have "length ms = 5" by (simp add: all_migrations_def)
  then have "ms \<in> set (orders 5 {} all_migrations)" using orders_complete [OF assms(3,2,1) d(2)] by simp
  then have "builds_models ms" using every_order_builds by (auto simp: possible_orders)
  then show ?thesis by (auto simp: builds_models_def split: option.splits)
qed

text \<open>C32. The migrations are complete: in whatever order the dependencies allow, they run to the end, and the
  schema they build is the one the models declare.\<close>

theorem migrations_build_models:
  assumes "distinct ms" "set ms = set all_migrations" "runnable {} ms"
  shows "\<exists>sch. migrate ms [] = Some sch \<and> same_schema sch declared_schema"
  by (rule every_order_migrates [OF assms])

section \<open>What a schema demands of the rows\<close>

text \<open>A cell holds SQL's null or a value; a text is bounded by its \<open>max_length\<close>.\<close>

datatype cell =
    Null
  | IntCell nat
  | TextCell string
  | JsonCell json
  | FloatCell pyfloat
  | BoolCell bool
  | TimeCell instant

type_synonym row = "(string, cell) dict"

fun cell_fits :: "field \<Rightarrow> cell \<Rightarrow> bool" where
  "cell_fits f Null = has_flag ''null'' f"
| "cell_fits f (IntCell n) \<longleftrightarrow>
     field_class f \<in> {UUIDField, BigAutoField, PositiveIntegerField, OneToOneField, ForeignKey}"
| "cell_fits f (TextCell s) \<longleftrightarrow>
     field_class f = TextField \<or>
     (field_class f = CharField \<and>
        (case dict_get (field_kwargs f) ''max_length'' of Some (Number n) \<Rightarrow> length s \<le> n | _ \<Rightarrow> True))"
| "cell_fits f (JsonCell j) \<longleftrightarrow> field_class f = JSONField"
| "cell_fits f (FloatCell x) \<longleftrightarrow> field_class f = FloatField"
| "cell_fits f (BoolCell b) \<longleftrightarrow> field_class f = BooleanField"
| "cell_fits f (TimeCell t) \<longleftrightarrow> field_class f = DateTimeField"

text \<open>The columns nobody writes: keys and timestamps that are filled in on saving.\<close>

definition automatic :: "field \<Rightarrow> bool" where
  "automatic f \<longleftrightarrow> has_flag ''auto_created'' f \<or> has_flag ''auto_now'' f \<or> has_flag ''auto_now_add'' f"

definition row_fits :: "(string, field) dict \<Rightarrow> row \<Rightarrow> bool" where
  "row_fits fs r \<longleftrightarrow>
     list_all (\<lambda>(n, f). case dict_get r n of None \<Rightarrow> automatic f | Some c \<Rightarrow> cell_fits f c) fs"

fun holds_clause :: "row \<Rightarrow> clause \<Rightarrow> bool" where
  "holds_clause r (IsNull n b) \<longleftrightarrow> (dict_get r n = Some Null) = b"
| "holds_clause r (Equals n b) \<longleftrightarrow> dict_get r n = Some (BoolCell b)"

text \<open>Rows agree on a unique list of columns only where one of them is null.\<close>

definition unique_on :: "row list \<Rightarrow> string list \<Rightarrow> clause list \<Rightarrow> bool" where
  "unique_on rows names condition \<longleftrightarrow>
     distinct (map (\<lambda>r. map (dict_get r) names)
       (filter (\<lambda>r. list_all (holds_clause r) condition \<and>
          list_all (\<lambda>n. dict_get r n \<noteq> None \<and> dict_get r n \<noteq> Some Null) names) rows))"

definition is_unique :: "field \<Rightarrow> bool" where
  "is_unique f \<longleftrightarrow> has_flag ''unique'' f \<or> has_flag ''primary_key'' f \<or> field_class f = OneToOneField"

definition refers :: "(string \<Rightarrow> row list) \<Rightarrow> row list \<Rightarrow> string \<Rightarrow> field \<Rightarrow> bool" where
  "refers rows_of rows n f \<longleftrightarrow>
     (case target f of None \<Rightarrow> True
      | Some t \<Rightarrow> (\<forall>r \<in> set rows. dict_get r n \<in> {Some Null} \<union> (\<lambda>r'. dict_get r' ''id'') ` set (rows_of t)))"

definition table_accepts :: "(string \<Rightarrow> row list) \<Rightarrow> string \<Rightarrow> table \<Rightarrow> bool" where
  "table_accepts rows_of name t \<longleftrightarrow>
     list_all (row_fits (tb_fields t)) (rows_of name) \<and>
     list_all (\<lambda>(n, f). (is_unique f \<longrightarrow> unique_on (rows_of name) [n] []) \<and> refers rows_of (rows_of name) n f)
       (tb_fields t) \<and>
     list_all (\<lambda>u. unique_on (rows_of name) (uc_fields u) (uc_condition u)) (tb_constraints t)"

definition schema_accepts :: "schema \<Rightarrow> (string \<Rightarrow> row list) \<Rightarrow> bool" where
  "schema_accepts sch rows_of \<longleftrightarrow> (\<forall>(name, t) \<in> set sch. table_accepts rows_of name t)"

text \<open>What a schema accepts does not depend on the order of its declarations.\<close>

lemma same_dict_get:
  assumes "same_dict R a b" "dict_get a k = Some v"
  obtains w where "dict_get b k = Some w" "R v w"
proof -
  have "k \<in> set (map fst a @ map fst b)" using map_of_SomeD [OF assms(2)] by force
  then have "case (dict_get a k, dict_get b k) of (Some v, Some w) \<Rightarrow> R v w | _ \<Rightarrow> False"
    using assms(1) by (simp only: same_dict_def)
  then show ?thesis using assms(2) that by (cases "dict_get b k") simp_all
qed

lemma same_dict_eq: "same_dict (=) a b \<Longrightarrow> dict_get a = dict_get b"
proof
  fix k
  assume s: "same_dict (=) a b"
  show "dict_get a k = dict_get b k"
  proof (cases "k \<in> set (map fst a @ map fst b)")
    case True
    then have "case (dict_get a k, dict_get b k) of (Some v, Some w) \<Rightarrow> v = w | _ \<Rightarrow> False"
      using s by (simp only: same_dict_def)
    then show ?thesis by (simp split: option.splits)
  next
    case False
    then have "dict_get a k = None" "dict_get b k = None" by (auto simp: map_of_eq_None_iff)
    then show ?thesis by simp
  qed
qed

lemma same_field_props:
  assumes "same_field f g"
  shows "has_flag k f = has_flag k g" "field_class f = field_class g" "target f = target g" "cell_fits f c = cell_fits g c"
    "automatic f = automatic g" "is_unique f = is_unique g"
proof -
  have s: "field_class f = field_class g" "dict_get (field_kwargs f) = dict_get (field_kwargs g)"
    using assms by (simp_all add: same_field_def same_dict_eq)
  then have h: "has_flag k f = has_flag k g" for k by (simp add: has_flag_def)
  show "has_flag k f = has_flag k g" by (rule h)
  show "field_class f = field_class g" by (rule s)
  show "target f = target g" using s by (cases f; cases g) simp
  show "cell_fits f c = cell_fits g c" using s h by (cases c) simp_all
  show "automatic f = automatic g" "is_unique f = is_unique g" using s h by (simp_all add: automatic_def is_unique_def)
qed

lemma same_entry:
  assumes "same_dict R a b" "dict_wf a" "(n, v) \<in> set a"
  obtains w where "(n, w) \<in> set b" "R v w"
proof -
  have "dict_get a n = Some v" using assms(2,3) by (simp add: dict_wf_def)
  then obtain w where "dict_get b n = Some w" "R v w" using same_dict_get [OF assms(1)] by blast
  then show ?thesis using that map_of_SomeD by metis
qed

lemma accepts_same_table:
  assumes "same_table t u" "table_accepts rows_of name u"
  shows "table_accepts rows_of name t"
proof -
  have s: "same_dict same_field (tb_fields t) (tb_fields u)" "dict_wf (tb_fields t)" "set (tb_constraints t) = set (tb_constraints u)"
    using assms(1) by (simp_all add: same_table_def)
  have e: "\<exists>g. (n, g) \<in> set (tb_fields u) \<and> same_field f g" if "(n, f) \<in> set (tb_fields t)" for n f
    by (rule same_entry [OF s(1,2) that]) blast
  have "row_fits (tb_fields t) r" if "row_fits (tb_fields u) r" for r
    unfolding row_fits_def list_all_iff
  proof clarify
    fix n f
    assume "(n, f) \<in> set (tb_fields t)"
    then obtain g where "(n, g) \<in> set (tb_fields u)" "same_field f g" using e by blast
    then show "case dict_get r n of None \<Rightarrow> automatic f | Some c \<Rightarrow> cell_fits f c"
      using that same_field_props by (fastforce simp: row_fits_def list_all_iff split: option.splits)
  qed
  moreover have "(is_unique f \<longrightarrow> unique_on (rows_of name) [n] []) \<and> refers rows_of (rows_of name) n f"
    if nf: "(n, f) \<in> set (tb_fields t)" for n f
  proof -
    obtain g where "(n, g) \<in> set (tb_fields u)" "same_field f g" using e [OF nf] by blast
    then show ?thesis using assms(2) same_field_props by (fastforce simp: table_accepts_def list_all_iff refers_def)
  qed
  ultimately show ?thesis using assms(2) s(3) by (auto simp: table_accepts_def list_all_iff)
qed

lemma accepts_same_schema:
  assumes "same_schema a b" "schema_accepts b rows_of"
  shows "schema_accepts a rows_of"
  unfolding schema_accepts_def
proof clarify
  fix name t
  assume "(name, t) \<in> set a"
  have "same_dict same_table a b" "dict_wf a" using assms(1) by (simp_all add: same_schema_def)
  then obtain u where "(name, u) \<in> set b" "same_table t u"
    using \<open>(name, t) \<in> set a\<close> by (rule same_entry)
  then show "table_accepts rows_of name t"
    using assms(2) unfolding schema_accepts_def by (intro accepts_same_table [of t u]) (rule \<open>same_table t u\<close>, blast)
qed

section \<open>The rows of the model's tables\<close>

definition optional :: "('a \<Rightarrow> cell) \<Rightarrow> 'a option \<Rightarrow> cell" where
  "optional f x = (case x of None \<Rightarrow> Null | Some v \<Rightarrow> f v)"

definition strings_cell :: "string list \<Rightarrow> cell" where
  "strings_cell xs = JsonCell (JArr (map JStr xs))"

definition webhook_row :: "raw_webhook \<Rightarrow> row" where
  "webhook_row w =
     [(''id'', IntCell (rw_id w)), (''vendor'', TextCell (rw_vendor w)),
      (''external_event_id'', optional TextCell (rw_external_event_id w)),
      (''idempotency_key'', TextCell (rw_idempotency_key w)),
      (''raw_payload'', JsonCell (rw_raw_payload w)),
      (''processing_status'', TextCell (processing_status_value (rw_processing_status w))),
      (''retry_count'', IntCell (rw_retry_count w)), (''error_message'', TextCell (rw_error_message w)),
      (''received_at'', TimeCell (rw_received_at w))]"

definition event_row :: "normalized_event \<Rightarrow> row" where
  "event_row e =
     [(''id'', IntCell (ev_id e)), (''webhook'', IntCell (ev_webhook e)),
      (''entity_type'', TextCell (ev_entity_type e)), (''entity_id'', TextCell (ev_entity_id e)),
      (''canonical_status'', TextCell (ev_canonical_status e)), (''event_time'', TimeCell (ev_event_time e)),
      (''normalized_payload'', JsonCell (ev_normalized_payload e)),
      (''confidence_score'', FloatCell (ev_confidence_score e)), (''llm_model'', TextCell (ev_llm_model e)),
      (''prompt_version'', TextCell (ev_prompt_version e)), (''created_at'', TimeCell (ev_created_at e)),
      (''requires_review'', BoolCell (ev_requires_review e)), (''review_reason'', TextCell (ev_review_reason e)),
      (''reviewed_at'', optional TimeCell (ev_reviewed_at e)),
      (''review_decision'', TextCell (ev_review_decision e))]"

definition state_row :: "entity_state \<Rightarrow> row" where
  "state_row s =
     [(''entity_type'', TextCell (es_entity_type s)), (''entity_id'', TextCell (es_entity_id s)),
      (''latest_status'', TextCell (es_latest_status s)),
      (''latest_event_time'', TimeCell (es_latest_event_time s)),
      (''latest_event'', IntCell (es_latest_event s)), (''updated_at'', TimeCell (es_updated_at s))]"

definition profile_row :: "vendor_profile \<Rightarrow> row" where
  "profile_row p =
     [(''vendor'', TextCell (vp_vendor p)), (''entity_type'', TextCell (vp_entity_type p)),
      (''id_paths'', strings_cell (vp_id_paths p)), (''status_paths'', strings_cell (vp_status_paths p)),
      (''time_paths'', strings_cell (vp_time_paths p)),
      (''status_map'', JsonCell (JObj (map (\<lambda>(t, c). (t, case c of None \<Rightarrow> JNull | Some s \<Rightarrow> JStr s)) (vp_status_map p)))),
      (''source'', TextCell (vp_source p)), (''sample_count'', IntCell (vp_sample_count p)),
      (''notes'', TextCell (vp_notes p))]"

definition rows_of :: "db \<Rightarrow> string \<Rightarrow> row list" where
  "rows_of d name =
     (if name = ''ingestion.rawwebhook'' then map webhook_row (db_webhooks d)
      else if name = ''normalization.normalizedevent'' then map event_row (db_events d)
      else if name = ''normalization.vendorprofile'' then map profile_row (db_profiles d)
      else if name = ''entities.entitystate'' then map state_row (db_states d)
      else [])"

text \<open>Uniqueness of columns from distinctness of what the rows are keyed by.\<close>

lemma unique_on_map:
  assumes "distinct (map key (filter P xs))"
    and "\<And>x. x \<in> set xs \<Longrightarrow> list_all (holds_clause (f x)) condition \<Longrightarrow> list_all (\<lambda>n. dict_get (f x) n \<noteq> Some Null) names \<Longrightarrow> P x"
    and "\<And>x y. map (dict_get (f x)) names = map (dict_get (f y)) names \<Longrightarrow> key x = key y"
  shows "unique_on (map f xs) names condition"
  using assms(1,2)
proof (induction xs)
  case (Cons x xs)
  let ?passes = "\<lambda>r. list_all (holds_clause r) condition \<and>
     list_all (\<lambda>n. dict_get r n \<noteq> None \<and> dict_get r n \<noteq> Some Null) names"
  have p: "P y" if "y \<in> set (x # xs)" "?passes (f y)" for y
    using Cons.prems(2) [OF that(1)] that(2) by (auto simp: list_all_iff)
  have IH: "unique_on (map f xs) names condition"
    using Cons.prems by (intro Cons.IH) (auto split: if_splits)
  show ?case
  proof (cases "?passes (f x)")
    case True
    let ?cells = "\<lambda>r. map (dict_get r) names"
    have differ: "?cells (f x) \<noteq> ?cells (f y)" if "y \<in> set xs" "?passes (f y)" for y
    proof
      assume "?cells (f x) = ?cells (f y)"
      then have "key x = key y" by (rule assms(3))
      moreover have "P x" "P y" using p True that by simp_all
      ultimately show False using Cons.prems(1) that(1) by (auto simp: image_iff)
    qed
    have "?cells (f x) \<notin> ?cells ` set (filter ?passes (map f xs))"
    proof
      assume "?cells (f x) \<in> ?cells ` set (filter ?passes (map f xs))"
      then obtain y where "y \<in> set xs" "?passes (f y)" "?cells (f x) = ?cells (f y)"
        by (fastforce simp del: list.map)
      then show False using differ by blast
    qed
    then show ?thesis using IH True by (simp add: unique_on_def)
  next
    case False
    then show ?thesis using IH by (auto simp: unique_on_def)
  qed
qed (simp add: unique_on_def)

lemmas table_simps = table_of_class_def contributed_def has_flag_def automatic_def is_unique_def refers_def
  UniqueConstraint_def optional_def strings_cell_def auto_id_def varchar_def

lemma related_labels:
  "lower ''ingestion.RawWebhook'' = ''ingestion.rawwebhook''"
  "lower ''normalization.NormalizedEvent'' = ''normalization.normalizedevent''"
  by code_simp+

lemma id_cells:
  "(\<lambda>r. dict_get r ''id'') ` set (map webhook_row (db_webhooks d)) = (\<lambda>i. Some (IntCell i)) ` webhook_ids d"
  "(\<lambda>r. dict_get r ''id'') ` set (map event_row (db_events d)) = (\<lambda>i. Some (IntCell i)) ` event_ids d"
  by (simp_all add: webhook_ids_def event_ids_def webhook_row_def event_row_def image_image)

lemma webhooks_accepted:
  assumes "webhook_constraints (db_webhooks d)" "list_all webhook_columns (db_webhooks d)"
  shows "table_accepts (rows_of d) ''ingestion.rawwebhook'' (table_of_class RawWebhook_class)"
proof -
  have rows: "rows_of d ''ingestion.rawwebhook'' = map webhook_row (db_webhooks d)" by (simp add: rows_of_def)
  have "row_fits (tb_fields (table_of_class RawWebhook_class)) (webhook_row w)" if "webhook_columns w" for w
    using that
    by (cases "rw_processing_status w"; cases "rw_external_event_id w")
       (simp_all add: table_simps row_fits_def RawWebhook_class_def webhook_row_def webhook_columns_def)
  then have "list_all (row_fits (tb_fields (table_of_class RawWebhook_class))) (map webhook_row (db_webhooks d))"
    using assms(2) by (simp add: list_all_iff)
  moreover have "unique_on (map webhook_row (db_webhooks d)) [''id''] []"
    by (rule unique_on_map [where key = rw_id and P = "\<lambda>_. True"])
       (use assms(1) in \<open>simp_all add: webhook_constraints_def webhook_row_def\<close>)
  moreover have "unique_on (map webhook_row (db_webhooks d)) [''vendor'', ''idempotency_key''] []"
    by (rule unique_on_map [where key = "\<lambda>w. (rw_vendor w, rw_idempotency_key w)" and P = "\<lambda>_. True"])
       (use assms(1) in \<open>simp_all add: webhook_constraints_def webhook_row_def\<close>)
  moreover have "unique_on (map webhook_row (db_webhooks d)) [''vendor'', ''external_event_id''] [IsNull ''external_event_id'' False]"
    by (rule unique_on_map [where key = "\<lambda>w. (rw_vendor w, rw_external_event_id w)" and P = "\<lambda>w. rw_external_event_id w \<noteq> None"])
       (use assms(1) in \<open>auto simp: webhook_constraints_def webhook_row_def optional_def split: option.splits\<close>)
  ultimately show ?thesis
    unfolding table_accepts_def rows by (simp add: table_simps RawWebhook_class_def)
qed

lemma events_accepted:
  assumes "event_constraints (db_events d)" "events_fit d" "\<forall>e \<in> set (db_events d). ev_webhook e \<in> webhook_ids d"
  shows "table_accepts (rows_of d) ''normalization.normalizedevent'' (table_of_class NormalizedEvent_class)"
proof -
  have rows: "rows_of d ''normalization.normalizedevent'' = map event_row (db_events d)"
      "rows_of d ''ingestion.rawwebhook'' = map webhook_row (db_webhooks d)"
    by (simp_all add: rows_of_def)
  have "row_fits (tb_fields (table_of_class NormalizedEvent_class)) (event_row e)" if "event_columns e" for e
    using that
    by (cases "ev_reviewed_at e")
       (simp_all add: table_simps row_fits_def NormalizedEvent_class_def event_row_def event_columns_def)
  then have "list_all (row_fits (tb_fields (table_of_class NormalizedEvent_class))) (map event_row (db_events d))"
    using assms(2) by (simp add: list_all_iff events_fit_def)
  moreover have "unique_on (map event_row (db_events d)) [''id''] []"
    by (rule unique_on_map [where key = ev_id and P = "\<lambda>_. True"])
       (use assms(1) in \<open>simp_all add: event_constraints_def event_row_def\<close>)
  moreover have "unique_on (map event_row (db_events d)) [''webhook''] []"
    by (rule unique_on_map [where key = ev_webhook and P = "\<lambda>_. True"])
       (use assms(1) in \<open>simp_all add: event_constraints_def event_row_def\<close>)
  moreover have "\<forall>e \<in> set (db_events d). dict_get (event_row e) ''webhook'' \<in> (\<lambda>r. dict_get r ''id'') ` set (map webhook_row (db_webhooks d))"
    unfolding id_cells using assms(3) by (simp add: event_row_def)
  ultimately show ?thesis
    unfolding table_accepts_def rows by (simp add: table_simps rows related_labels NormalizedEvent_class_def)
qed

lemma profiles_accepted:
  assumes "profile_constraints (db_profiles d)"
  shows "table_accepts (rows_of d) ''normalization.vendorprofile'' (table_of_class VendorProfile_class)"
proof -
  have rows: "rows_of d ''normalization.vendorprofile'' = map profile_row (db_profiles d)" by (simp add: rows_of_def)
  have "row_fits (tb_fields (table_of_class VendorProfile_class)) (profile_row p)" if "profile_columns p" for p
    using that by (simp add: table_simps row_fits_def VendorProfile_class_def profile_row_def profile_columns_def)
  then have "list_all (row_fits (tb_fields (table_of_class VendorProfile_class))) (map profile_row (db_profiles d))"
    using assms by (simp add: list_all_iff profile_constraints_def)
  moreover have "unique_on (map profile_row (db_profiles d)) [''vendor''] []"
    by (rule unique_on_map [where key = vp_vendor and P = "\<lambda>_. True"])
       (use assms(1) in \<open>simp_all add: profile_constraints_def profile_row_def\<close>)
  moreover have "unique_on (map profile_row (db_profiles d)) [''id''] []"
    by (simp add: unique_on_def profile_row_def)
  ultimately show ?thesis
    unfolding table_accepts_def rows by (simp add: table_simps VendorProfile_class_def)
qed

lemma states_accepted:
  assumes "state_constraints (db_states d)" "\<forall>st \<in> set (db_states d). state_columns st \<and> es_latest_event st \<in> event_ids d"
  shows "table_accepts (rows_of d) ''entities.entitystate'' (table_of_class EntityState_class)"
proof -
  have rows: "rows_of d ''entities.entitystate'' = map state_row (db_states d)"
      "rows_of d ''normalization.normalizedevent'' = map event_row (db_events d)"
    by (simp_all add: rows_of_def)
  have "row_fits (tb_fields (table_of_class EntityState_class)) (state_row st)" if "state_columns st" for st
    using that by (simp add: table_simps row_fits_def EntityState_class_def state_row_def state_columns_def)
  then have "list_all (row_fits (tb_fields (table_of_class EntityState_class))) (map state_row (db_states d))"
    using assms(2) by (simp add: list_all_iff)
  moreover have "unique_on (map state_row (db_states d)) [''entity_type'', ''entity_id''] []"
    by (rule unique_on_map [where key = state_key and P = "\<lambda>_. True"])
       (use assms(1) in \<open>simp_all add: state_constraints_def state_key_def state_row_def\<close>)
  moreover have "unique_on (map state_row (db_states d)) [''id''] []"
    by (simp add: unique_on_def state_row_def)
  moreover have "\<forall>st \<in> set (db_states d). dict_get (state_row st) ''latest_event'' \<in> (\<lambda>r. dict_get r ''id'') ` set (map event_row (db_events d))"
    unfolding id_cells using assms(2) by (simp add: state_row_def)
  ultimately show ?thesis
    unfolding table_accepts_def rows by (simp add: table_simps rows related_labels EntityState_class_def)
qed

section \<open>The vendor profiles of a reachable state\<close>

lemma profile_lookup_keeps: "profile_for pins now vendor st = (p, st') \<Longrightarrow> fst st' = fst st"
  by (auto simp: profile_for_def cached_profile_def Let_def split: option.splits if_splits prod.splits)

lemma asking_keeps: "ask (backend_of dp now arrival) w st = (answer, st') \<Longrightarrow> fst st' = fst st"
  by (auto simp: ask_def backend_of_def get_normalizer_def default_registry_def register_backend_def build_rules_def
      build_openai_def rules_backend_def openai_backend_def Let_def
      split: sum.splits option.splits prod.splits if_splits dest: profile_lookup_keeps)

lemma profile_change_constraints:
  "Gateway_System.profile_change st st' \<Longrightarrow> profile_constraints (fst st) \<Longrightarrow> profile_constraints (fst st')"
proof (induction rule: Gateway_System.profile_change.induct)
  case (get st pins now vendor)
  have "fst (snd (VendorProfileDetailView_get pins now vendor st)) = fst st"
    by (auto simp: VendorProfileDetailView_get_def split: prod.split option.split dest: profile_lookup_keeps)
  then show ?case using get by simp
next
  case (put vendor body st resp st')
  obtain rows c rows' c' where st: "st = (rows, c)" "st' = (rows', c')" by (cases st; cases st')
  show ?case using put store_keeps_profiles
    unfolding st by (auto simp: VendorProfileDetailView_put_def Let_def split: sum.splits)
next
  case (delete st vendor)
  then show ?case
    by (cases st) (auto simp: VendorProfileDetailView_delete_def delete_profile_def filter_keeps_profiles)
next
  case (saved spec st st')
  then show ?case using store_keeps_profiles by (cases st; cases st') auto
next
  case (admin_save old obj st)
  then show ?case using admin_save_keeps_profiles by (cases st) auto
next
  case (admin_delete st vendor)
  then show ?case by (cases st) (simp add: admin_delete_model_def filter_keeps_profiles)
next
  case (admin_delete_many st vendors)
  then show ?case by (cases st) (simp add: admin_delete_queryset_def filter_keeps_profiles)
qed

lemma db_profiles_kept [simp]:
  "db_profiles (set_status wid st d) = db_profiles d"
  "db_profiles (record_failure wid m d) = db_profiles d"
  "db_profiles (record_retry w m d) = db_profiles d"
  "db_profiles (record_dead_letter wid m d) = db_profiles d"
  "db_profiles (snd (claim_webhook wid seen d)) = db_profiles d"
  "db_profiles (snd (handle_error may_retry attempt w e d)) = db_profiles d"
  "db_profiles (snd (apply_confidence_gate cfg event now d)) = db_profiles d"
  "create_for_webhook wid r m v now d = Inr (event', d') \<Longrightarrow> db_profiles d' = db_profiles d"
  "apply_review_decision event decision actor now d = Inr (u, d'') \<Longrightarrow> db_profiles d'' = db_profiles d"
proof -
  show s: "db_profiles (set_status wid st d) = db_profiles d" "db_profiles (record_failure wid m d) = db_profiles d"
    "db_profiles (record_retry w m d) = db_profiles d" "db_profiles (record_dead_letter wid m d) = db_profiles d"
    for w wid st m d
    by (simp_all add: set_status_def record_failure_def record_retry_def record_dead_letter_def)
  show "db_profiles (snd (claim_webhook wid seen d)) = db_profiles d"
    by (auto simp: claim_webhook_def s Let_def split: option.split)
  show "db_profiles (snd (handle_error may_retry attempt w e d)) = db_profiles d"
    by (cases e) (auto simp: s Let_def)
  show "db_profiles (snd (apply_confidence_gate cfg event now d)) = db_profiles d"
    by (auto simp: apply_confidence_gate_def Let_def split: prod.split)
  show "create_for_webhook wid r m v now d = Inr (event', d') \<Longrightarrow> db_profiles d' = db_profiles d"
    by (auto simp: create_for_webhook_def update_or_create_event_def Let_def split: option.splits if_splits)
  show "apply_review_decision event decision actor now d = Inr (u, d'') \<Longrightarrow> db_profiles d'' = db_profiles d"
    by (auto simp: apply_review_decision_def Let_def split: option.splits if_splits prod.splits)
qed

lemma replay_keeps_profiles:
  "replay cfg w force g = (ok, g') \<Longrightarrow> db_profiles (gw_db g') = db_profiles (gw_db g)"
  by (auto simp: replay_def split: if_splits)

lemma replay_all_keeps_profiles:
  "replay_all cfg ws force g = (n, g') \<Longrightarrow> db_profiles (gw_db g') = db_profiles (gw_db g)"
  by (induction ws arbitrary: n g) (auto dest: replay_keeps_profiles split: prod.splits)

lemma posting_keeps_profiles:
  "WebhookIngestionView_post cfg cx rq g = Inr (resp, g') \<Longrightarrow> db_profiles (gw_db g') = db_profiles (gw_db g)"
  by (auto simp: WebhookIngestionView_post_def ingest_def Let_def
      split: sum.splits prod.splits exn.splits if_splits)

lemma step_profiles:
  assumes "step dp s a s'"
  shows "db_profiles (sy_db s') = db_profiles (sy_db s) \<or>
    (\<exists>st. Gateway_System.profile_change (profile_state_of s) st \<and> db_profiles (sy_db s') = fst st)"
  using assms
proof (cases rule: step.cases)
  case (post cx rq resp g)
  then show ?thesis using posting_keeps_profiles by auto
next
  case (replay wid force resp g)
  then show ?thesis
    by (auto simp: WebhookReplayView_post_def Let_def dest: replay_keeps_profiles split: option.splits prod.splits if_splits)
next
  case (bulk_replay limit n g)
  then show ?thesis by (auto simp: replay_failed_webhooks_def dest: replay_all_keeps_profiles)
next
  case (reselect selected message g)
  then show ?thesis
    by (auto simp: replay_selected_def Let_def dest: replay_all_keeps_profiles split: prod.splits)
next
  case (replay_loaded w force sent g)
  then show ?thesis by (auto dest: replay_keeps_profiles)
next
  case (normalise k attempt w now arrival answer st)
  then show ?thesis using asking_keeps by (fastforce simp: profile_state_of_def)
next
  case (claim k wid attempt seen w d)
  then have "db_profiles d = db_profiles (sy_db s)" using db_profiles_kept(5) [of wid seen "(sy_db s)"] by simp
  then show ?thesis using claim by simp
next
  case (skip k wid attempt seen c d)
  then have "db_profiles d = db_profiles (sy_db s)" using db_profiles_kept(5) [of wid seen "(sy_db s)"] by simp
  then show ?thesis using skip by simp
next
  case (refuse_event k attempt w resp now e out d)
  then have "db_profiles d = db_profiles (sy_db s)" using db_profiles_kept(6) [of "(dp_may_retry dp)" attempt w e "(sy_db s)"] by simp
  then show ?thesis using refuse_event by simp
next
  case (gate k attempt w e now gate d)
  then have "db_profiles d = db_profiles (sy_db s)" using db_profiles_kept(7) [of "(dp_settings dp)" e now "(sy_db s)"] by simp
  then show ?thesis using gate by simp
next
  case (fail k attempt w e out d)
  then have "db_profiles d = db_profiles (sy_db s)" using db_profiles_kept(6) [of "(dp_may_retry dp)" attempt w e "(sy_db s)"] by simp
  then show ?thesis using fail by simp
next
  case (interrupt k j attempt w m out d)
  then have "db_profiles d = db_profiles (sy_db s)" using db_profiles_kept(6) [of "(dp_may_retry dp)" attempt w "(OtherException m)" "(sy_db s)"] by simp
  then show ?thesis using interrupt by simp
qed auto

lemma reachable_profiles:
  assumes "reachable dp s"
  shows "profile_constraints (db_profiles (sy_db s))"
proof -
  have "profile_constraints (db_profiles (sy_db s'))"
    if "run dp s0 acts s'" "profile_constraints (db_profiles (sy_db s0))" for s0 acts s'
    using that
  proof (induction rule: run.induct)
    case (more s acts s' a s'')
    have "profile_constraints (fst (profile_state_of s'))" using more by (simp add: profile_state_of_def)
    then show ?case using step_profiles [OF more.hyps(2)] profile_change_constraints by (auto simp: profile_state_of_def)
  qed
  moreover have "profile_constraints (db_profiles (sy_db initial_system))"
    by (simp add: initial_system_def empty_gateway_def empty_db_def profile_constraints_def)
  ultimately show ?thesis using assms unfolding reachable_def by blast
qed

section \<open>The database a gateway runs on\<close>

lemma declared_accepts:
  assumes "db_ok d" "profile_constraints (db_profiles d)"
  shows "schema_accepts declared_schema (rows_of d)"
proof -
  have "list_all webhook_columns (db_webhooks d)"
    using assms(1) by (auto simp: db_ok_def list_all_iff columns_fit_def)
  then have "table_accepts (rows_of d) ''ingestion.rawwebhook'' (table_of_class RawWebhook_class)"
    using assms(1) by (intro webhooks_accepted) (simp_all add: db_ok_def)
  moreover have "table_accepts (rows_of d) ''normalization.normalizedevent'' (table_of_class NormalizedEvent_class)"
    using assms(1) by (intro events_accepted) (simp_all add: db_ok_def)
  moreover have "table_accepts (rows_of d) ''entities.entitystate'' (table_of_class EntityState_class)"
    using assms(1) by (intro states_accepted) (simp_all add: db_ok_def state_wf_def)
  moreover have "table_accepts (rows_of d) ''normalization.vendorprofile'' (table_of_class VendorProfile_class)"
    by (rule profiles_accepted [OF assms(2)])
  moreover have "map fst declared_schema = [''ingestion.rawwebhook'', ''normalization.normalizedevent'',
      ''normalization.vendorprofile'', ''entities.entitystate'']" by code_simp
  ultimately show ?thesis by (simp add: schema_accepts_def declared_schema_def)
qed

text \<open>C3. Whatever order the migrations were run in, the schema they built accepts the tables of every state the
  gateway reaches: no write of any run would be refused for a length, a null, a uniqueness constraint or
  a foreign key.\<close>

theorem reachable_rows_accepted:
  assumes "reachable dp s" "distinct ms" "set ms = set all_migrations" "runnable {} ms"
  shows "\<exists>sch. migrate ms [] = Some sch \<and> schema_accepts sch (rows_of (sy_db s))"
proof -
  have "schema_accepts declared_schema (rows_of (sy_db s))"
    by (rule declared_accepts [OF db_of_ok [OF reachable_ok [OF assms(1)]] reachable_profiles [OF assms(1)]])
  then show ?thesis
    using every_order_migrates [OF assms(2-4)] accepts_same_schema by blast
qed

section \<open>Witnesses\<close>

lemma listed_order: "distinct all_migrations" "runnable {} all_migrations"
  using distinct_map [of mg_id all_migrations] by (simp_all add: all_migrations_def migration_ids)

theorem migrations_build_models_witness:
  "\<exists>sch. migrate all_migrations [] = Some sch \<and> same_schema sch declared_schema"
  by (rule migrations_build_models [OF listed_order(1) refl listed_order(2)])

theorem reachable_rows_accepted_witness:
  "\<exists>dp sch. migrate all_migrations [] = Some sch \<and> schema_accepts sch (rows_of (sy_db initial_system))"
proof -
  have "reachable dp initial_system" for dp unfolding reachable_def using run.stop by blast
  then show ?thesis using reachable_rows_accepted [OF _ listed_order(1) refl listed_order(2)] by blast
qed

end
