(* ===== verification/Cache_Races.thy ===== *)
theory Cache_Races
  imports Vendors
begin

text \<open>
  The shared cache under concurrency.  \<open>profile_for\<close> is a SELECT and, later, a write to the cache;
  saving a profile is a write to the table and, later, a delete in the cache; counting an arrival
  is an \<open>add\<close> and, later, an \<open>incr\<close>.  Here these halves are steps of their own, taken by any number of
  processes in any order.
\<close>

section \<open>Readers and writers of profiles\<close>

text \<open>The world has a clock, the table, the cache, what each reader that missed the cache has selected, for
  which key and when, and, for the statements only, every version of the table with the time it was
  written, the newest first.\<close>

record cache_world =
  cw_clock :: rat
  cw_rows :: "vendor_profile list"
  cw_cache :: profile_cache
  cw_reading :: "nat \<rightharpoonup> string \<times> vendor_profile_spec option \<times> rat"
  cw_versions :: "(rat \<times> vendor_profile list) list"

datatype cache_event =
    Served rat string "vendor_profile_spec option"
  | Selected nat string
  | Written profile_change
  | Dropped string
  | Ticked

text \<open>A reader writes to the cache at most \<open>delay\<close> seconds after its SELECT.\<close>

inductive cache_step :: "rat \<Rightarrow> cache_world \<Rightarrow> cache_event \<Rightarrow> cache_world \<Rightarrow> bool" for delay :: rat where
  hit: "cache_get (cw_cache w) (cw_clock w) (cache_key k) = Some v \<Longrightarrow>
    cache_step delay w (Served (cw_clock w) k v) w"
| select: "cache_get (cw_cache w) (cw_clock w) (cache_key k) = None \<Longrightarrow> cw_reading w p = None \<Longrightarrow>
    cache_step delay w (Selected p k)
      (w \<lparr> cw_reading := (cw_reading w)(p \<mapsto> (k, stored_profile (cw_rows w) k, cw_clock w)) \<rparr>)"
| fill: "cw_reading w p = Some (k, v, t) \<Longrightarrow> cw_clock w \<le> t + delay \<Longrightarrow>
    cache_step delay w (Served (cw_clock w) k v)
      (w \<lparr> cw_cache := cache_set (cw_cache w) (cw_clock w) (cache_key k) v PROFILE_CACHE_SECONDS,
           cw_reading := (cw_reading w)(p := None) \<rparr>)"
| store: "cache_step delay w (Written ch)
    (w \<lparr> cw_rows := change_profiles ch (cw_rows w),
         cw_versions := (cw_clock w, change_profiles ch (cw_rows w)) # cw_versions w \<rparr>)"
| drop: "cache_step delay w (Dropped vendor) (w \<lparr> cw_cache := invalidate vendor (cw_cache w) \<rparr>)"
| tick: "cw_clock w \<le> t \<Longrightarrow> cache_step delay w Ticked (w \<lparr> cw_clock := t \<rparr>)"

inductive cache_run :: "rat \<Rightarrow> cache_world \<Rightarrow> cache_event list \<Rightarrow> cache_world \<Rightarrow> bool" for delay :: rat where
  stop: "cache_run delay w [] w"
| more: "cache_run delay w es w' \<Longrightarrow> cache_step delay w' e w'' \<Longrightarrow> cache_run delay w (es @ [e]) w''"

definition cold_world :: "rat \<Rightarrow> vendor_profile list \<Rightarrow> cache_world" where
  "cold_world now rows = \<lparr> cw_clock = now, cw_rows = rows, cw_cache = Map.empty, cw_reading = Map.empty,
     cw_versions = [(now, rows)] \<rparr>"

text \<open>A version is in effect from the time it is written until the next one is.\<close>

fun in_effect :: "(rat \<times> 'a) list \<Rightarrow> rat \<Rightarrow> 'a \<Rightarrow> bool" where
  "in_effect [] t r = False"
| "in_effect ((s, q) # older) t r \<longleftrightarrow> (s \<le> t \<and> r = q) \<or> (t \<le> s \<and> in_effect older t r)"

section \<open>The halves make up the operations\<close>

text \<open>A lookup whose halves nothing separates is \<open>cached_profile\<close>, and a write with its delete is the write of
  the repository.\<close>

lemma select_fill_is_lookup:
  assumes "cw_reading w p = None" "0 \<le> delay"
    and "cached_profile (cw_clock w) k (cw_rows w, cw_cache w) = (v, rows, c)"
  shows "\<exists>es. cache_run delay w (es @ [Served (cw_clock w) k v]) (w \<lparr> cw_rows := rows, cw_cache := c \<rparr>)"
proof (cases "cache_get (cw_cache w) (cw_clock w) (cache_key k)")
  case (Some u)
  then have "v = u" "w \<lparr> cw_rows := rows, cw_cache := c \<rparr> = w"
    using assms(3) by (simp_all add: cached_profile_def)
  then have "cache_run delay w ([] @ [Served (cw_clock w) k v]) (w \<lparr> cw_rows := rows, cw_cache := c \<rparr>)"
    using cache_run.more [OF cache_run.stop cache_step.hit [OF Some]] by simp
  then show ?thesis by blast
next
  case None
  let ?w = "w \<lparr> cw_reading := (cw_reading w)(p \<mapsto> (k, stored_profile (cw_rows w) k, cw_clock w)) \<rparr>"
  have v: "v = stored_profile (cw_rows w) k" "rows = cw_rows w"
      "c = cache_set (cw_cache w) (cw_clock w) (cache_key k) v PROFILE_CACHE_SECONDS"
    using assms(3) None by (auto simp: cached_profile_def Let_def)
  have "cache_run delay w [Selected p k] ?w"
    using cache_run.more [OF cache_run.stop cache_step.select [OF None assms(1)]] by simp
  moreover have "cache_step delay ?w (Served (cw_clock w) k v)
      (?w \<lparr> cw_cache := c, cw_reading := (cw_reading ?w)(p := None) \<rparr>)"
    using cache_step.fill [of ?w p k v "cw_clock w" delay] assms(2) v by simp
  moreover have "?w \<lparr> cw_cache := c, cw_reading := (cw_reading ?w)(p := None) \<rparr> = w \<lparr> cw_rows := rows, cw_cache := c \<rparr>"
    using assms(1) v(2) by (simp add: fun_upd_idem)
  ultimately have "cache_run delay w ([Selected p k] @ [Served (cw_clock w) k v]) (w \<lparr> cw_rows := rows, cw_cache := c \<rparr>)"
    by (metis cache_run.more)
  then show ?thesis by blast
qed

lemma write_drop_is_save:
  "\<exists>vs. cache_run delay w [Written (SaveProfile spec), Dropped (vs_vendor spec)]
     (w \<lparr> cw_rows := fst (save_profile spec (cw_rows w, cw_cache w)),
          cw_cache := snd (save_profile spec (cw_rows w, cw_cache w)), cw_versions := vs \<rparr>)"
proof -
  let ?w = "w \<lparr> cw_rows := save_profile_row spec (cw_rows w),
         cw_versions := (cw_clock w, save_profile_row spec (cw_rows w)) # cw_versions w \<rparr>"
  have "cache_run delay w [Written (SaveProfile spec)] ?w"
    using cache_run.more [OF cache_run.stop cache_step.store [of delay w "SaveProfile spec"]] by simp
  from cache_run.more [OF this cache_step.drop [of delay ?w "vs_vendor spec"]]
  have "cache_run delay w [Written (SaveProfile spec), Dropped (vs_vendor spec)]
      (?w \<lparr> cw_cache := invalidate (vs_vendor spec) (cw_cache ?w) \<rparr>)" by simp
  moreover have "?w \<lparr> cw_cache := invalidate (vs_vendor spec) (cw_cache ?w) \<rparr> =
      w \<lparr> cw_rows := fst (save_profile spec (cw_rows w, cw_cache w)),
         cw_cache := snd (save_profile spec (cw_rows w, cw_cache w)), cw_versions := cw_versions ?w \<rparr>"
    by (simp add: save_profile_def)
  ultimately show ?thesis by (intro exI [of _ "cw_versions ?w"]) simp
qed

section \<open>How stale an answer can be\<close>

text \<open>What is cached, or about to be, was in the table when it was selected.\<close>

definition was_stored :: "cache_world \<Rightarrow> string \<Rightarrow> vendor_profile_spec option \<Rightarrow> rat \<Rightarrow> bool" where
  "was_stored w k v t \<longleftrightarrow> t \<le> cw_clock w \<and>
     (\<exists>rows k'. in_effect (cw_versions w) t rows \<and> cache_key k' = cache_key k \<and> v = stored_profile rows k')"

definition world_ok :: "rat \<Rightarrow> cache_world \<Rightarrow> bool" where
  "world_ok delay w \<longleftrightarrow>
     (\<exists>s older. cw_versions w = (s, cw_rows w) # older \<and> s \<le> cw_clock w) \<and>
     (\<forall>p k v t. cw_reading w p = Some (k, v, t) \<longrightarrow> was_stored w k v t) \<and>
     (\<forall>k v x. cw_cache w (cache_key k) = Some (v, x) \<longrightarrow>
        (\<exists>t. was_stored w k v t \<and> x \<le> t + delay + of_int PROFILE_CACHE_SECONDS))"

text \<open>The table only gains versions, and those in effect before stay so.\<close>

lemma later_version: "cache_step delay w e w' \<Longrightarrow> was_stored w k v t \<Longrightarrow> was_stored w' k v t"
proof (induction rule: cache_step.induct)
  case (store w ch)
  then show ?case by (auto simp: was_stored_def)
next
  case (tick w t')
  then show ?case by (force simp: was_stored_def)
qed (auto simp: was_stored_def)

lemma now_stored: "world_ok delay w \<Longrightarrow> was_stored w k (stored_profile (cw_rows w) k) (cw_clock w)"
  unfolding world_ok_def was_stored_def by auto

lemma was_stored_cong: "cache_key k = cache_key k' \<Longrightarrow> was_stored w k v t = was_stored w k' v t"
  by (simp add: was_stored_def)

lemma world_step:
  assumes step: "cache_step delay w e w'" and ok: "world_ok delay w"
  shows "world_ok delay w'"
proof -
  note later = later_version [OF step]
  from step show ?thesis
  proof (cases rule: cache_step.cases)
    case (hit k v)
    then show ?thesis using ok by simp
  next
    case (select k p)
    have "was_stored w' k (stored_profile (cw_rows w) k) (cw_clock w)" by (rule later [OF now_stored [OF ok]])
    then show ?thesis using ok later select unfolding world_ok_def
      by (auto split: if_splits) blast
  next
    case (fill p k v t)
    have "was_stored w k v t" using ok fill by (auto simp: world_ok_def)
    then have v: "was_stored w' k v t" by (rule later)
    show ?thesis unfolding world_ok_def
    proof (intro conjI allI impI)
      show "\<exists>s older. cw_versions w' = (s, cw_rows w') # older \<and> s \<le> cw_clock w'"
        using ok fill by (simp add: world_ok_def)
    next
      fix q k' v' t'
      assume "cw_reading w' q = Some (k', v', t')"
      then have "cw_reading w q = Some (k', v', t')" using fill by (simp split: if_splits)
      then show "was_stored w' k' v' t'" using ok later by (simp add: world_ok_def)
    next
      fix k' v' x
      assume c: "cw_cache w' (cache_key k') = Some (v', x)"
      show "\<exists>t. was_stored w' k' v' t \<and> x \<le> t + delay + of_int PROFILE_CACHE_SECONDS"
      proof (cases "cache_key k' = cache_key k")
        case True
        then have "v' = v" "x = cw_clock w + of_int PROFILE_CACHE_SECONDS"
          using c fill by (simp_all add: cache_set_def)
        then show ?thesis using v was_stored_cong [OF True] fill by (intro exI [of _ t]) simp
      next
        case False
        then have "cw_cache w (cache_key k') = Some (v', x)" using c fill by (simp add: cache_set_def)
        then show ?thesis using ok later unfolding world_ok_def by blast
      qed
    qed
  next
    case (store ch)
    then show ?thesis using ok later unfolding world_ok_def by fastforce
  next
    case (drop vendor)
    then show ?thesis using ok later unfolding world_ok_def
      by (auto simp: invalidate_def cache_delete_def split: if_splits) blast+
  next
    case (tick t)
    then show ?thesis using ok later unfolding world_ok_def by fastforce
  qed
qed

lemma world_run: "cache_run delay w es w' \<Longrightarrow> world_ok delay w \<Longrightarrow> world_ok delay w'"
  by (induction rule: cache_run.induct) (blast intro: world_step)+

lemma cold_ok: "world_ok delay (cold_world now rows)"
  by (simp add: world_ok_def cold_world_def)

lemma served_was_stored:
  assumes "cache_step delay w (Served t k v) w'" "world_ok delay w"
  shows "t = cw_clock w \<and> (\<exists>t'. was_stored w k v t' \<and> t \<le> t' + delay + of_int PROFILE_CACHE_SECONDS)"
  using assms(1)
proof (cases rule: cache_step.cases)
  case hit
  then obtain x where "cw_cache w (cache_key k) = Some (v, x)" "cw_clock w < x"
    by (auto simp: cache_get_def split: option.splits if_splits)
  then show ?thesis using assms(2) hit unfolding world_ok_def by force
next
  case (fill p t0)
  then have "was_stored w k v t0" using assms(2) by (auto simp: world_ok_def)
  moreover have "cw_clock w \<le> t0 + delay + of_int PROFILE_CACHE_SECONDS"
    using fill by (simp add: PROFILE_CACHE_SECONDS_def)
  ultimately show ?thesis using fill by blast
qed

text \<open>C40. An answer is at most a minute older than the time a reader takes from its SELECT to the cache: in
  every run of any number of readers and writers, whatever is served at a time was, for that key or
  one whose cache key collides with it, what the table said at some time not longer ago.\<close>

theorem stale_profiles_expire:
  assumes "cache_run delay (cold_world now rows) es w" "Served t k v \<in> set es"
  shows "\<exists>t' rows' k'. t - (delay + of_int PROFILE_CACHE_SECONDS) \<le> t' \<and> t' \<le> t \<and>
    in_effect (cw_versions w) t' rows' \<and> cache_key k' = cache_key k \<and> v = stored_profile rows' k'"
proof -
  have "\<exists>t'. was_stored w k v t' \<and> t - (delay + of_int PROFILE_CACHE_SECONDS) \<le> t' \<and> t' \<le> t"
    if "cache_run delay w0 es w" "world_ok delay w0" "Served t k v \<in> set es" for w0
    using that
  proof (induction rule: cache_run.induct)
    case (more w0 es w1 e w2)
    note keep = later_version [OF more.hyps(2)]
    show ?case
    proof (cases "Served t k v \<in> set es")
      case True
      then show ?thesis using more.IH [OF more.prems(1)] keep by blast
    next
      case False
      then have e: "e = Served t k v" using more.prems(2) by simp
      obtain t' where t': "t = cw_clock w1" "was_stored w1 k v t'" "t \<le> t' + delay + of_int PROFILE_CACHE_SECONDS"
        using served_was_stored [OF more.hyps(2) [unfolded e] world_run [OF more.hyps(1) more.prems(1)]] by blast
      moreover have "t' \<le> cw_clock w1" using t'(2) by (simp add: was_stored_def)
      ultimately show ?thesis using keep [OF t'(2)] by (intro exI [of _ t']) simp
    qed
  qed simp
  from this [OF assms(1) cold_ok assms(2)] show ?thesis unfolding was_stored_def by blast
qed

lemma racing_reader_run:
  assumes "cache_get (cw_cache w) (cw_clock w) (cache_key k) = None" "cw_reading w p = None" "0 \<le> delay"
    and "cw_clock w \<le> t" "t < cw_clock w + of_int PROFILE_CACHE_SECONDS"
  shows "\<exists>w'. cw_rows w' = save_profile_row spec (cw_rows w) \<and>
    cache_run delay w [Selected p k, Written (SaveProfile spec), Dropped (vs_vendor spec),
      Served (cw_clock w) k (stored_profile (cw_rows w) k), Ticked, Served t k (stored_profile (cw_rows w) k)] w'"
proof -
  let ?v = "stored_profile (cw_rows w) k" and ?now = "cw_clock w" and ?rows = "save_profile_row spec (cw_rows w)"
  let ?w1 = "w \<lparr> cw_reading := (cw_reading w)(p \<mapsto> (k, ?v, ?now)) \<rparr>"
  let ?w2 = "?w1 \<lparr> cw_rows := ?rows, cw_versions := (?now, ?rows) # cw_versions w \<rparr>"
  let ?w3 = "?w2 \<lparr> cw_cache := invalidate (vs_vendor spec) (cw_cache w) \<rparr>"
  let ?w4 = "?w3 \<lparr> cw_cache := cache_set (cw_cache ?w3) ?now (cache_key k) ?v PROFILE_CACHE_SECONDS,
      cw_reading := (cw_reading ?w3)(p := None) \<rparr>"
  let ?w5 = "?w4 \<lparr> cw_clock := t \<rparr>"
  have "cache_run delay w [Selected p k] ?w1"
    using cache_run.more [OF cache_run.stop cache_step.select [OF assms(1,2)]] by simp
  moreover have "cache_step delay ?w1 (Written (SaveProfile spec)) ?w2"
    using cache_step.store [of delay ?w1 "SaveProfile spec"] by simp
  moreover have "cache_step delay ?w2 (Dropped (vs_vendor spec)) ?w3"
    using cache_step.drop [of delay ?w2 "vs_vendor spec"] by simp
  moreover have "cache_step delay ?w3 (Served ?now k ?v) ?w4"
    using cache_step.fill [of ?w3 p k ?v ?now delay] assms(3) by simp
  moreover have "cache_step delay ?w4 Ticked ?w5"
    using cache_step.tick [of ?w4 t delay] assms(4) by simp
  moreover have "cache_step delay ?w5 (Served t k ?v) ?w5"
    using cache_step.hit [of ?w5 k ?v delay] assms(5) by (simp add: cache_get_def cache_set_def)
  ultimately have "cache_run delay w ((((([Selected p k] @ [Written (SaveProfile spec)]) @ [Dropped (vs_vendor spec)])
      @ [Served ?now k ?v]) @ [Ticked]) @ [Served t k ?v]) ?w5"
    by (intro cache_run.more)
  then show ?thesis by (intro exI [of _ ?w5]) simp
qed

text \<open>And an answer can be that old although every write drops the cached profile: a reader that selected
  the row before a profile was saved writes it to the cache after the drop, and from then on the old
  profile is served for a minute.\<close>

theorem racing_reader_keeps_old_profile:
  assumes "cache_get (cw_cache w) (cw_clock w) (cache_key k) = None" "cw_reading w p = None" "0 \<le> delay"
    and "cw_clock w \<le> t" "t < cw_clock w + of_int PROFILE_CACHE_SECONDS"
  shows "\<exists>w'. cw_rows w' = save_profile_row spec (cw_rows w) \<and>
    cache_run delay w [Selected p k, Written (SaveProfile spec), Dropped (vs_vendor spec),
      Served (cw_clock w) k (stored_profile (cw_rows w) k), Ticked, Served t k (stored_profile (cw_rows w) k)] w'"
  by (rule racing_reader_run [OF assms])

section \<open>Counting arrivals that race\<close>

text \<open>The two halves of \<open>record_arrival\<close> for a request that arrived at \<open>a\<close>, each at its own time.\<close>

definition open_window :: "settings \<Rightarrow> string \<Rightarrow> rat \<Rightarrow> rat \<Rightarrow> int cache \<Rightarrow> int cache" where
  "open_window cfg vendor a now c =
     cache_add c now (window_key vendor (window_of cfg) a) 0 (window_of cfg * 2)"

definition count_arrival :: "settings \<Rightarrow> string \<Rightarrow> rat \<Rightarrow> rat \<Rightarrow> int cache \<Rightarrow> int \<times> int cache" where
  "count_arrival cfg vendor a now c =
     (case cache_incr c now (window_key vendor (window_of cfg) a) of Inr (n, c') \<Rightarrow> (n, c') | Inl _ \<Rightarrow> (0, c))"

lemma record_arrival_halves:
  "record_arrival cfg True vendor a c = count_arrival cfg vendor a a (open_window cfg vendor a a c)"
  by (simp add: record_arrival_def count_arrival_def open_window_def Let_def split: sum.split)

datatype arrival_step = Opens nat | Counts nat

text \<open>A schedule lists the halves with their times; the result is the queue of each request, in the order
  they are counted.\<close>

fun route_racing ::
  "settings \<Rightarrow> string \<Rightarrow> (nat \<Rightarrow> rat) \<Rightarrow> (rat \<times> arrival_step) list \<Rightarrow> int cache \<Rightarrow> string list" where
  "route_racing cfg vendor arrived [] c = []"
| "route_racing cfg vendor arrived ((now, Opens r) # steps) c =
     route_racing cfg vendor arrived steps (open_window cfg vendor (arrived r) now c)"
| "route_racing cfg vendor arrived ((now, Counts r) # steps) c =
     (let (n, c') = count_arrival cfg vendor (arrived r) now c
      in queue_for_vendor cfg vendor n # route_racing cfg vendor arrived steps c')"

fun opened_first :: "nat set \<Rightarrow> (rat \<times> arrival_step) list \<Rightarrow> bool" where
  "opened_first opened [] = True"
| "opened_first opened ((now, Opens r) # steps) = opened_first (insert r opened) steps"
| "opened_first opened ((now, Counts r) # steps) \<longleftrightarrow> r \<in> opened \<and> opened_first opened steps"

fun is_count :: "rat \<times> arrival_step \<Rightarrow> bool" where
  "is_count (now, Counts r) = True"
| "is_count (now, Opens r) = False"

lemma counting_goes_on:
  assumes "\<forall>r. window_key vendor (window_of cfg) (arrived r) = key" "c key = Some (n, x)" "\<forall>(now, s) \<in> set steps. now < x"
  shows "route_racing cfg vendor arrived steps c =
    map (\<lambda>i. queue_for_vendor cfg vendor (n + 1 + int i)) [0..<length (filter is_count steps)]"
  using assms(2,3)
proof (induction steps arbitrary: c n)
  case (Cons step steps)
  obtain now s where st: "step = (now, s)" by (cases step)
  have now: "now < x" using Cons.prems(2) st by simp
  show ?case
  proof (cases s)
    case (Opens r)
    have "open_window cfg vendor (arrived r) now c = c"
      using Cons.prems(1) now by (simp add: open_window_def cache_add_def cache_get_def assms(1))
    then show ?thesis using Cons st Opens by simp
  next
    case (Counts r)
    have "count_arrival cfg vendor (arrived r) now c = (n + 1, c(key \<mapsto> (n + 1, x)))"
      using Cons.prems(1) now by (simp add: count_arrival_def cache_incr_def assms(1))
    moreover have "route_racing cfg vendor arrived steps (c(key \<mapsto> (n + 1, x))) =
        map (\<lambda>i. queue_for_vendor cfg vendor (n + 1 + 1 + int i)) [0..<length (filter is_count steps)]"
      by (rule Cons.IH) (use Cons.prems(2) in auto)
    ultimately show ?thesis
      using st Counts by (simp add: map_upt_Suc add.assoc del: upt_Suc)
  qed
qed simp

text \<open>C29. Requests of one vendor that race in a window, each adding the counter before it increments it and all
  done before the next window is over, are counted once each: however their halves interleave, they get
  the queues they would get one after the other.\<close>

theorem racing_arrivals_are_bulkheaded:
  assumes "0 < window_of cfg" "\<forall>r. window_bucket (window_of cfg) (arrived r) = b"
    and "\<forall>r. c (window_key vendor (window_of cfg) (arrived r)) = None"
    and "opened_first {} steps"
    and "\<forall>(now, s) \<in> set steps. of_int (b * window_of cfg) \<le> now \<and> now < of_int ((b + 2) * window_of cfg)"
    and "length ts = length (filter is_count steps)" "\<forall>t \<in> set ts. window_bucket (window_of cfg) t = b"
  shows "route_racing cfg vendor arrived steps c = fst (route_all cfg vendor ts c)"
proof -
  have one: "window_key vendor (window_of cfg) s = window_key vendor (window_of cfg) t"
    if "window_bucket (window_of cfg) s = b" "window_bucket (window_of cfg) t = b" for s t
    using that by (simp add: window_key_eq)
  define key where "key = window_key vendor (window_of cfg) (arrived 0)"
  have key: "window_key vendor (window_of cfg) (arrived r) = key" for r
    unfolding key_def using assms(2) by (intro one) simp_all
  have "c (window_key vendor (window_of cfg) t) = None" if "t \<in> set ts" for t
    using assms(3,7) one [of t "arrived 0"] assms(2) that by simp
  then have "fst (route_all cfg vendor ts c) = map (\<lambda>i. queue_for_vendor cfg vendor (1 + int i)) [0..<length ts]"
    using route_all_fresh [OF assms(1,7)] by (simp add: queue_for_vendor_eq)
  moreover have "route_racing cfg vendor arrived steps c =
      map (\<lambda>i. queue_for_vendor cfg vendor (1 + int i)) [0..<length (filter is_count steps)]"
  proof (cases steps)
    case (Cons step rest)
    then obtain now r where st: "step = (now, Opens r)"
      using assms(4) by (cases step; cases "snd step") auto
    let ?c = "c(key \<mapsto> (0, now + of_int (window_of cfg * 2)))"
    have c: "open_window cfg vendor (arrived r) now c = ?c"
      using assms(3) key by (auto simp: open_window_def cache_add_def cache_get_def cache_set_def)
    have "now' < now + of_int (window_of cfg * 2)" if "(now', s) \<in> set rest" for now' s
    proof -
      have "now' < of_int ((b + 2) * window_of cfg)" "of_int (b * window_of cfg) \<le> now"
        using assms(5) Cons st that by auto
      then show ?thesis by (simp add: algebra_simps)
    qed
    then have "route_racing cfg vendor arrived rest ?c =
        map (\<lambda>i. queue_for_vendor cfg vendor (0 + 1 + int i)) [0..<length (filter is_count rest)]"
      using key by (intro counting_goes_on [where key = key]) auto
    then show ?thesis using Cons st c by simp
  qed simp
  ultimately show ?thesis using assms(6) by simp
qed

section \<open>Witnesses\<close>

lemma nothing_stored: "stored_profile [] k = None"
  by (simp add: stored_profile_def first_row_def)

lemma sample_stale_run: "\<exists>es w. cache_run 1 (cold_world 0 []) es w \<and> Served 59 ''acme'' None \<in> set es"
proof -
  have "\<exists>w. cache_run 1 (cold_world 0 []) [Selected 0 ''acme'', Written (SaveProfile (plain_spec ''acme'' ''SHIPMENT'')),
      Dropped ''acme'', Served 0 ''acme'' None, Ticked, Served 59 ''acme'' None] w"
    using racing_reader_run [of "cold_world 0 []" "''acme''" 0 1 59 "plain_spec ''acme'' ''SHIPMENT''"]
    by (auto simp: cold_world_def cache_get_def PROFILE_CACHE_SECONDS_def nothing_stored plain_spec_def)
  then show ?thesis by fastforce
qed

theorem racing_reader_keeps_old_profile_witness:
  "\<exists>w. cw_rows w = [row_of_spec (plain_spec ''acme'' ''SHIPMENT'')] \<and>
     cache_run 1 (cold_world 0 []) [Selected 0 ''acme'', Written (SaveProfile (plain_spec ''acme'' ''SHIPMENT'')),
       Dropped ''acme'', Served 0 ''acme'' None, Ticked, Served 59 ''acme'' None] w"
  using racing_reader_keeps_old_profile [of "cold_world 0 []" "''acme''" 0 1 59 "plain_spec ''acme'' ''SHIPMENT''"]
  by (simp add: cold_world_def cache_get_def PROFILE_CACHE_SECONDS_def nothing_stored save_profile_row_def plain_spec_def)

theorem stale_profiles_expire_witness:
  "\<exists>es w t' rows k. cache_run 1 (cold_world 0 []) es w \<and> Served 59 ''acme'' None \<in> set es \<and>
     -2 \<le> t' \<and> t' \<le> 59 \<and> in_effect (cw_versions w) t' rows \<and> None = stored_profile rows k"
proof -
  obtain es w where r: "cache_run 1 (cold_world 0 []) es w" "Served 59 ''acme'' None \<in> set es"
    using sample_stale_run by blast
  from stale_profiles_expire [OF r] obtain t' rows k where
    "59 - (1 + of_int PROFILE_CACHE_SECONDS) \<le> t'" "t' \<le> 59" "in_effect (cw_versions w) t' rows" "None = stored_profile rows k"
    by blast
  then have "-2 \<le> t'" by (simp add: PROFILE_CACHE_SECONDS_def)
  then show ?thesis using r \<open>t' \<le> 59\<close> \<open>in_effect _ _ _\<close> \<open>None = _\<close> by blast
qed

theorem racing_arrivals_are_bulkheaded_witness:
  "route_racing (default_settings\<lparr>NOISY_VENDOR_BURST := 1\<rparr>) ''Maersk'' (\<lambda>_. 0)
     [(0, Opens 0), (0, Opens 1), (1, Counts 1), (61, Counts 0)] Map.empty =
   fst (route_all (default_settings\<lparr>NOISY_VENDOR_BURST := 1\<rparr>) ''Maersk'' [0, 3] Map.empty)"
proof -
  have w: "window_of (default_settings\<lparr>NOISY_VENDOR_BURST := 1\<rparr>) = 60" by (simp add: window_of_def default_settings_def)
  show ?thesis
    by (rule racing_arrivals_are_bulkheaded [where b = 0]) (auto simp: w window_bucket_def floor_eq_iff)
qed

end
