(* ===== verification/Environment.thy ===== *)
theory Environment
  imports Settings
begin

text \<open>
  How \<open>config/settings.py\<close> reads its settings from the environment when a process starts.  A setting that
  is not set has its default; one that is set is parsed by \<open>django-environ\<close>, whose parsers of integers,
  numbers and flags are arguments (an infinite or undefined threshold counts as refused).
\<close>

type_synonym environment = "string \<rightharpoonup> string"

record env_parsers =
  ep_int :: "string \<Rightarrow> int result"
  ep_float :: "string \<Rightarrow> rat result"
  ep_bool :: "string \<Rightarrow> bool"

definition env_str :: "environment \<Rightarrow> string \<Rightarrow> string \<Rightarrow> string" where
  "env_str env name d = (case env name of None \<Rightarrow> d | Some s \<Rightarrow> s)"

definition env_as :: "(string \<Rightarrow> 'a result) \<Rightarrow> environment \<Rightarrow> string \<Rightarrow> 'a \<Rightarrow> 'a result" where
  "env_as parse env name d = (case env name of None \<Rightarrow> Inr d | Some s \<Rightarrow> parse s)"

text \<open>The settings are read in the order of the file; the first that does not parse stops the process.\<close>

definition load_settings :: "env_parsers \<Rightarrow> environment \<Rightarrow> settings result" where
  "load_settings ep env =
     (let str = env_str env; int = env_as (ep_int ep) env; float = env_as (ep_float ep) env;
          flag = (\<lambda>name d. case env name of None \<Rightarrow> d | Some s \<Rightarrow> ep_bool ep s)
      in and_then (int ''POSTGRES_PORT'' 5432) (\<lambda>_.
         and_then (int ''DB_CONN_MAX_AGE'' 60) (\<lambda>_.
         and_then (int ''OPENAI_TIMEOUT_SECONDS'' 30) (\<lambda>_.
         and_then (float ''LOW_CONFIDENCE_THRESHOLD'' (7 / 10)) (\<lambda>threshold.
         and_then (int ''DEFAULT_PAGE_SIZE'' 50) (\<lambda>page.
         and_then (int ''MAX_PAGE_SIZE'' 200) (\<lambda>most.
         and_then (int ''CELERY_TASK_TIME_LIMIT'' 120) (\<lambda>_.
         and_then (int ''CELERY_TASK_SOFT_TIME_LIMIT'' 90) (\<lambda>_.
         and_then (int ''NOISY_VENDOR_BURST'' 200) (\<lambda>burst.
         and_then (int ''NOISY_VENDOR_WINDOW_SECONDS'' 60) (\<lambda>window.
           Inr \<lparr> OPENAI_API_KEY = str ''OPENAI_API_KEY'' '''',
             NORMALIZATION_BACKEND = str ''NORMALIZATION_BACKEND'' ''auto'',
             NORMALIZATION_PROMPT_VERSION = str ''NORMALIZATION_PROMPT_VERSION'' ''v1'',
             LOW_CONFIDENCE_THRESHOLD = threshold, DEFAULT_PAGE_SIZE = page, MAX_PAGE_SIZE = most,
             WEBHOOK_SIGNING_SECRETS = parse_signing_secrets (str ''WEBHOOK_SIGNING_SECRETS'' ''''),
             WEBHOOK_REQUIRE_SIGNATURE = flag ''WEBHOOK_REQUIRE_SIGNATURE'' False,
             NORMALIZATION_QUEUE = str ''NORMALIZATION_QUEUE'' ''normalization'',
             NORMALIZATION_BULK_QUEUE = str ''NORMALIZATION_BULK_QUEUE'' ''normalization.bulk'',
             NOISY_VENDOR_BURST = burst, NOISY_VENDOR_WINDOW_SECONDS = window \<rparr>)))))))))))"

definition refused_setting :: "(string \<Rightarrow> 'a result) \<Rightarrow> environment \<Rightarrow> string \<Rightarrow> bool" where
  "refused_setting parse env name \<longleftrightarrow> (\<exists>s e. env name = Some s \<and> parse s = Inl e)"

definition integer_settings :: "string list" where
  "integer_settings = [''POSTGRES_PORT'', ''DB_CONN_MAX_AGE'', ''OPENAI_TIMEOUT_SECONDS'', ''DEFAULT_PAGE_SIZE'', ''MAX_PAGE_SIZE'',
     ''CELERY_TASK_TIME_LIMIT'', ''CELERY_TASK_SOFT_TIME_LIMIT'', ''NOISY_VENDOR_BURST'', ''NOISY_VENDOR_WINDOW_SECONDS'']"

text \<open>A variable of the environment is refused where its parser refuses it; then, and only then, the process does
  not start.\<close>

lemma env_as_cases:
  obtains e where "refused_setting parse env name" "env_as parse env name d = Inl e"
  | x where "\<not> refused_setting parse env name" "env_as parse env name d = Inr x"
  by (cases "env name"; cases "parse (the (env name))") (auto simp: refused_setting_def env_as_def)

lemma reading_fails:
  assumes "\<And>x. (\<exists>e. f x = Inl e) \<longleftrightarrow> Q"
  shows "(\<exists>e. and_then (env_as parse env name d) f = Inl e) \<longleftrightarrow> refused_setting parse env name \<or> Q"
  by (rule env_as_cases [of parse env name d]) (auto simp: assms)

theorem start_fails_iff_refused:
  "(\<exists>e. load_settings ep env = Inl e) \<longleftrightarrow>
     refused_setting (ep_float ep) env ''LOW_CONFIDENCE_THRESHOLD'' \<or>
     (\<exists>name \<in> set integer_settings. refused_setting (ep_int ep) env name)"
proof -
  let ?int = "refused_setting (ep_int ep) env"
  have "(\<exists>e. load_settings ep env = Inl e) \<longleftrightarrow>
      ?int ''POSTGRES_PORT'' \<or> ?int ''DB_CONN_MAX_AGE'' \<or> ?int ''OPENAI_TIMEOUT_SECONDS'' \<or>
      refused_setting (ep_float ep) env ''LOW_CONFIDENCE_THRESHOLD'' \<or> ?int ''DEFAULT_PAGE_SIZE'' \<or>
      ?int ''MAX_PAGE_SIZE'' \<or> ?int ''CELERY_TASK_TIME_LIMIT'' \<or> ?int ''CELERY_TASK_SOFT_TIME_LIMIT'' \<or>
      ?int ''NOISY_VENDOR_BURST'' \<or> ?int ''NOISY_VENDOR_WINDOW_SECONDS'' \<or> False"
    unfolding load_settings_def Let_def by (rule reading_fails)+ simp
  then show ?thesis unfolding integer_settings_def by simp blast
qed

text \<open>Nothing set is the default configuration.\<close>

theorem unset_is_default: "load_settings ep Map.empty = Inr default_settings"
  by (simp add: load_settings_def default_settings_def env_as_def env_str_def)

text \<open>The secrets an operator writes are the secrets the gateway checks signatures with.\<close>

theorem written_secrets_are_loaded:
  assumes "ps \<noteq> []" "\<forall>p \<in> set ps. writable_pair p" "distinct (map fst ps)"
    and "env ''WEBHOOK_SIGNING_SECRETS'' = Some (join '','' (map show_secret_pair ps))" "load_settings ep env = Inr cfg"
  shows "WEBHOOK_SIGNING_SECRETS cfg = ps"
proof -
  have "WEBHOOK_SIGNING_SECRETS cfg = parse_signing_secrets (env_str env ''WEBHOOK_SIGNING_SECRETS'' [])"
    using assms(5) by (auto simp: load_settings_def Let_def)
  then show ?thesis using signing_secrets_roundtrip [OF assms(1-3)] assms(4) by (simp add: env_str_def)
qed

end
