(* ===== verification/Spec2Isabelle.thy ===== *)
theory Spec2Isabelle
  imports Commands Api Observability Contention Migrations Cache_Races Environment
begin

text \<open>
  \<^bold>\<open>The program.\<close>  An inbound event gateway: vendors post webhooks, which are authenticated and
  stored once; a Celery worker reads each into a canonical event (\<open>SHIPMENT\<close> or \<open>INVOICE\<close> with a
  status and a time) by rules or with a language model; a confidence gate decides whether the
  reading may update the state of its entity or waits for a reviewer, who approves or rejects it.
  Failed webhooks are retried, dead-lettered and replayed.  Around this core are vendor profiles
  (what is known of a vendor's payloads), their discovery from samples, a calibration report about
  the gate's threshold, and operator commands.

  \<^bold>\<open>Theories and sources\<close> (paths under \<open>src/\<close>; definitions keep the names of the code, a method
  \<open>C.m\<close> of a view or a class becomes \<open>C_m\<close>).

  \<^item> \<open>Gateway_Prelude\<close>: dictionaries, association lists of rows, the result type \<open>exn + 'a\<close> with
    its \<open>and_then\<close>, the exceptions, lemma collections, and the locale of idempotent stores.
  \<^item> \<open>Py_Text\<close>, \<open>Py_Json\<close>, \<open>Py_Hash\<close>, \<open>Py_Datetime\<close>, \<open>Py_Loads\<close>: what the code uses of Python:
    case, strip, printing; JSON values, truth, canonical \<open>json.dumps\<close>; UTF-8, SHA-1, SHA-256 and
    HMAC on words; \<open>fromisoformat\<close>, \<open>isoformat\<close> and time stamps; \<open>json.loads\<close>, floats with NaN.
  \<^item> \<open>Inbound\<close>: \<open>ingestion/inbound.py\<close>, \<open>utils.py\<close>; vendor, payload and key checks of a request,
    idempotency keys.  \<open>Settings\<close>, \<open>Environment\<close>: \<open>config/settings.py\<close>, the
    settings and how they are read.  \<open>Security\<close>: \<open>ingestion/security.py\<close>.
    \<open>Routing\<close>: \<open>ingestion/routing.py\<close>, arrival counters in the cache and the choice of a queue.
  \<^item> \<open>Models\<close>: the three \<open>models.py\<close>; \<open>Columns\<close>: what their columns hold; \<open>Migrations\<close>: their
    declarations, the five migrations as operations on a schema, and what a schema demands of the
    rows; \<open>Schemas\<close>: \<open>normalization/schemas.py\<close>, \<open>utils.py\<close>,
    \<open>backends/base.py\<close>; \<open>Raw_Webhooks\<close>: \<open>ingestion/repositories.py\<close>; \<open>Entities\<close>: \<open>apps/entities\<close>;
    \<open>Paging\<close>: \<open>normalization/paging.py\<close>.
  \<^item> \<open>Review\<close>: \<open>normalization/review.py\<close>, the event repository, the review views and the review
    console.  \<open>Vendors\<close>: \<open>normalization/vendors.py\<close>, the profile repository, views and admin.
  \<^item> \<open>Rules_Backend\<close>, \<open>Backends\<close>: \<open>normalization/backends\<close> and \<open>prompts.py\<close>, the two readers and
    their selection.  \<open>Tasks\<close>: \<open>normalization/tasks.py\<close>, one run of \<open>process_raw_webhook\<close> and the
    ladder of its retries.  \<open>Services\<close>: the services, tasks, views and admin of \<open>apps/ingestion\<close>.
  \<^item> \<open>Calibration\<close>: \<open>normalization/calibration.py\<close> with its view and command.  \<open>Discovery\<close>:
    \<open>normalization/discovery.py\<close> with its view.  \<open>Commands\<close>: \<open>discover_vendor_profile\<close>, \<open>seed_demo\<close>
    and \<open>scripts/send_webhooks.py\<close>.  \<open>Observability\<close>: \<open>config/middleware.py\<close>, \<open>logging.py\<close>,
    \<open>observability.py\<close>.
  \<^item> \<open>Rendering\<close>: the \<open>as_dict\<close> methods and the strict JSON renderer.  \<open>Urls\<close>: the four \<open>urls.py\<close> and
    their resolution.  \<open>Api\<close>: the HTTP interface as one function \<open>api\<close>, from a request to the answer
    of its view.
  \<^item> \<open>Cache_Races\<close>: the halves of a profile lookup, of a profile write and of an arrival count as
    steps of their own over the shared cache.
  \<^item> \<open>Gateway_System\<close>, \<open>System_Runs\<close>, \<open>Contention\<close>: the composition.  \<open>system\<close> holds the gateway
    (tables, caches, sent tasks), the runs of the task in progress, the rescheduled tasks, and the
    events that reviewers and the webhooks that replays have loaded; \<open>step\<close> has one rule per request
    or database transaction, so runs of workers, reviewers and replays interleave.
\<close>

text \<open>
  \<^bold>\<open>What the lemmas show.\<close>

  \<^item> Ingestion: every request is answered 400, 401 or 202, or raises because no column holds its
    payload (a NUL in a text); only authentic ones are stored, a
    redelivery or a lost race changes nothing, keys separate deliveries, bursts of a vendor go to
    the bulk queue.  The locale \<open>idempotent_store\<close> is interpreted on the webhook table.
  \<^item> Readings: \<open>from_dict\<close> accepts canonical readings only, both readers return such readings or
    one of the documented errors (locales \<open>reading_backend\<close> and \<open>scoring_backend\<close>, interpreted on
    the rule-based and the model-backed reader), a trusted reading rests on the payload.
  \<^item> Review and projection: the gate and the decisions, final and in one place; entity state is
    that of the latest event (locale \<open>latest_state\<close>); listings are paged without loss.
  \<^item> Profiles: lookups through the cache agree with the table (locale \<open>read_through\<close>), written and
    discovered profiles are canonical, discovered paths occur in the samples.  When lookups and
    writes interleave, what is served is at most a minute old and may be that old; arrivals that
    interleave are still counted once each.
  \<^item> Tables: a row is written exactly when its columns hold it; in whatever order the migrations run
    they build the declared schema, and that schema accepts the rows of every reachable state.
  \<^item> Worker: a run never leaves its webhook in limbo, retries end, an outage dead-letters, replays
    send exactly what they should.
  \<^item> Interface: paths resolve to the views they were built for, every request of the interface is a
    run of the system, is answered with a documented status unless a NaN is stored or what it asks to
    be stored fits no column, and changes no row when it is a GET.
  \<^item> The whole: invariants of all reachable states, kept history, the only two ways in which
    entity states change, a simulation of \<open>process_raw_webhook\<close> by the steps, webhooks that wait can
    always be finished, at most one worker holds a webhook, and what a lost worker, a race of
    reviewers or a replay that races a retry does.

  \<^bold>\<open>Bounds and fuel.\<close>  The recursions are structural or have a measure; \<open>run_ladder\<close> counts the
  retries, of which Celery's rule allows five.  Flattening follows the nesting of the payload.  The only
  bounds are those of the code: the lengths of the columns, 255 characters of a key or a review reason, pages of at most
  \<open>MAX_PAGE_SIZE\<close> rows, four paths of a kind in a discovered profile.

  \<^bold>\<open>Conventions.\<close>  Strings are lists of the characters 0 to 255.  A table is a list of rows in
  the order of insertion, the cache a map from keys to values with an expiry; ids and UUIDs are
  fresh numbers.  Floats are exact rationals, with NaN and the infinities; aggregates of the
  database are exact, NaN is greatest, as PostgreSQL has it, and text is ordered by code points.
  Ties of an ordered query keep the order of the table.  Parameters of the
  model are the clocks, the OpenAI client, Celery's rule for retries, whether the cache is up, the
  throttle, the parsers of \<open>django-environ\<close>, of request bodies and the request serializers, the views of other packages, the
  file system, the network, random generators and the password hasher.  The broker is the list of the tasks that
  were sent; in the system any of them may be delivered at any time and again.  As
  \<open>ATOMIC_REQUESTS\<close> is off, \<open>on_commit\<close> sends at once.  A request is one step of the
  system, justified for ingestion by \<open>racing_is_linearizable\<close>; a replay is one, or two
  when its row was loaded earlier; a decision is two, since the event is loaded first; of the worker each transaction is a step, except that the two saves of a dead
  letter are one.  \<open>Interrupt\<close> is the soft time limit raised in a run that holds a claim.  The
  texts of exceptions raised by the interpreter are abbreviated.  Log calls in the
  handlers are left out.  The database refuses what is too long for a
  column and a NUL in a text or JSON column; the size of integers, a NUL in the path or the query of
  a request, and a NUL in an error message are not considered.  The cache is one, as with
  \<open>CACHE_URL\<close>; without it every process has its own.

  \<^bold>\<open>Not modelled.\<close>  ASGI, WSGI and
  Celery entry points, the redirect of paths without a final slash, the HTML pages of errors, OpenAPI decorators and response serializers that only document, list
  configuration of the admin, argument parsing of the commands, and the settings that only
  configure the framework.
\<close>

end
